theory Spec2Isabelle
  imports Complex_Main
begin

section \<open>JavaScript values shared by the adapters\<close>

text \<open>
  The adapters are TypeScript classes. Strings are modelled as \<open>string\<close>; a character
  stands for one code unit below 256. JSON numbers are rationals, with the three
  non-finite Number values that \<open>Number(...)\<close> and \<open>parseInt(...)\<close> can produce.
  An object is an association list in property order.
\<close>

datatype number = Finite rat | NaN | PosInfinity | NegInfinity

datatype json =
    JNull
  | JBool bool
  | JNum number
  | JStr string
  | JArr "json list"
  | JObj "(string \<times> json) list"

text \<open>Truthiness of a value, as \<open>if (v)\<close>, \<open>!v\<close> and \<open>v || d\<close> read it.\<close>

fun truthy :: "json \<Rightarrow> bool" where
  "truthy JNull = False"
| "truthy (JBool b) = b"
| "truthy (JNum n) = (n \<noteq> Finite 0 \<and> n \<noteq> NaN)"
| "truthy (JStr s) = (s \<noteq> [])"
| "truthy (JArr _) = True"
| "truthy (JObj _) = True"

text \<open>
  \<open>JSON.parse\<close> (a built-in) and \<open>jsonrepair\<close> (an npm package) are not part of the
  repository: both are parameters. \<open>None\<close> is a thrown exception.
\<close>

type_synonym json_parse = "string \<Rightarrow> json option"
type_synonym json_repair = "string \<Rightarrow> string option"

section \<open>utils/safeJsonParse.ts\<close>

text \<open>
  The first argument is \<open>None\<close> when the caller passes a value that is not a string
  (\<open>typeof jsonString !== 'string'\<close>). Every \<open>throw\<close> of the two attempts is caught by
  the function itself, so the result is a plain value.
\<close>

definition safeJsonParse :: "json_parse \<Rightarrow> json_repair \<Rightarrow> string option \<Rightarrow> json \<Rightarrow> json" where
  "safeJsonParse parse repair jsonString fallbackValue =
     (case jsonString of
        None \<Rightarrow> fallbackValue
      | Some s \<Rightarrow>
          if s = [] then fallbackValue
          else (case parse s of
                  Some v \<Rightarrow> v
                | None \<Rightarrow>
                    (case repair s of
                       None \<Rightarrow> fallbackValue
                     | Some repairedJson \<Rightarrow>
                         (case parse repairedJson of
                            Some v \<Rightarrow> v
                          | None \<Rightarrow> fallbackValue))))"

text \<open>The default of the second parameter: \<open>{}\<close>.\<close>

definition emptyObject :: json where
  "emptyObject = JObj []"

section \<open>Finish reasons\<close>

text \<open>The members of \<open>FinishReason\<close> (@google/genai) that the adapters produce.\<close>

datatype FinishReason = FINISH_REASON_UNSPECIFIED | STOP | MAX_TOKENS | SAFETY

text \<open>
  \<open>mapFinishReason\<close> of the OpenAI adapter reads \<open>mapping[openaiReason]\<close> from an object
  literal. A property read on an object literal that has no own property of that name
  continues on \<open>Object.prototype\<close>, whose members are functions (and, for \<open>__proto__\<close>,
  the prototype object): all truthy, none a member of the enumeration.
\<close>

definition objectPrototypeKeys :: "string list" where
  "objectPrototypeKeys =
     [''constructor'', ''hasOwnProperty'', ''isPrototypeOf'', ''propertyIsEnumerable'',
      ''toLocaleString'', ''toString'', ''valueOf'', ''__proto__'',
      ''__defineGetter__'', ''__defineSetter__'', ''__lookupGetter__'', ''__lookupSetter__'']"

datatype finish_value = Member FinishReason | PrototypeMember string

definition finishReasonMapping :: "(string \<times> FinishReason) list" where
  "finishReasonMapping =
     [(''stop'', STOP), (''length'', MAX_TOKENS), (''content_filter'', SAFETY),
      (''function_call'', STOP), (''tool_calls'', STOP)]"

definition mapFinishReason :: "string option \<Rightarrow> finish_value" where
  "mapFinishReason openaiReason =
     (case openaiReason of
        None \<Rightarrow> Member FINISH_REASON_UNSPECIFIED
      | Some r \<Rightarrow>
          if r = [] then Member FINISH_REASON_UNSPECIFIED
          else (case map_of finishReasonMapping r of
                  Some fr \<Rightarrow> Member fr
                | None \<Rightarrow>
                    if r \<in> set objectPrototypeKeys then PrototypeMember r
                    else Member FINISH_REASON_UNSPECIFIED))"

text \<open>\<open>mapStopReason\<close> of the Bedrock adapter: a \<open>switch\<close> on the string.\<close>

definition mapStopReason :: "string option \<Rightarrow> FinishReason" where
  "mapStopReason stopReason =
     (case stopReason of
        None \<Rightarrow> FINISH_REASON_UNSPECIFIED
      | Some r \<Rightarrow>
          if r = [] then FINISH_REASON_UNSPECIFIED
          else if r = ''end_turn'' then STOP
          else if r = ''tool_use'' then STOP
          else if r = ''max_tokens'' then MAX_TOKENS
          else if r = ''stop_sequence'' then STOP
          else if r = ''content_filtered'' then SAFETY
          else if r = ''guardrail_intervened'' then SAFETY
          else FINISH_REASON_UNSPECIFIED)"

text \<open>
  \<open>convertStopReason\<close> of the Bedrock adapter that parses strictly: the \<open>switch\<close> has no
  case for \<open>guardrail_intervened\<close> and its default is \<open>STOP\<close>.
\<close>

definition convertStopReason :: "string \<Rightarrow> FinishReason" where
  "convertStopReason stopReason =
     (if stopReason = ''end_turn'' then STOP
      else if stopReason = ''max_tokens'' then MAX_TOKENS
      else if stopReason = ''stop_sequence'' then STOP
      else if stopReason = ''tool_use'' then STOP
      else if stopReason = ''content_filtered'' then SAFETY
      else STOP)"

text \<open>\<open>mapStopReason\<close> of the Anthropic adapter: every other value is \<open>STOP\<close>.\<close>

definition anthropic_mapStopReason :: "string option \<Rightarrow> FinishReason" where
  "anthropic_mapStopReason stopReason =
     (case stopReason of
        None \<Rightarrow> STOP
      | Some r \<Rightarrow>
          if r = ''end_turn'' then STOP
          else if r = ''max_tokens'' then MAX_TOKENS
          else if r = ''stop_sequence'' then STOP
          else if r = ''tool_use'' then STOP
          else STOP)"

section \<open>Usage normalisation (OpenAI adapter)\<close>

text \<open>
  Token counts are integers below \<open>2^53\<close>, which a Number holds exactly; \<open>None\<close> is an
  absent field. \<open>totalTokens * 0.7\<close> is a binary64 product: the literal \<open>0.7\<close> is the
  Number \<open>6305039478318694 / 2^53\<close>, the literal \<open>0.3\<close> is \<open>5404319552844595 / 2^54\<close>,
  and the exact product is rounded to 53 significant bits, ties to even.
  \<open>Math.round\<close> then takes the nearest integer, ties upwards.
\<close>

fun bitlen :: "nat \<Rightarrow> nat" where
  "bitlen n = (if n = 0 then 0 else Suc (bitlen (n div 2)))"

declare bitlen.simps [simp del]

definition round53 :: "nat \<Rightarrow> nat" where
  "round53 n =
     (let l = bitlen n in
      if l \<le> 53 then n
      else
        let s = l - 53;
            q = n div 2 ^ s;
            r = n mod 2 ^ s;
            h = 2 ^ (s - 1);
            q' = (if r > h \<or> (r = h \<and> odd q) then q + 1 else q)
        in q' * 2 ^ s)"

text \<open>\<open>Math.round(t * c)\<close> for the Number \<open>c = m / 2^k\<close> and a positive integer \<open>t\<close>.\<close>

definition round_product :: "nat \<Rightarrow> nat \<Rightarrow> nat \<Rightarrow> int" where
  "round_product m k t = int ((2 * round53 (t * m) + 2 ^ k) div 2 ^ (k + 1))"

definition times_0_7_rounded :: "int \<Rightarrow> int" where
  "times_0_7_rounded t = round_product 6305039478318694 53 (nat t)"

definition times_0_3_rounded :: "int \<Rightarrow> int" where
  "times_0_3_rounded t = round_product 5404319552844595 54 (nat t)"

record OpenAIUsage =
  prompt_tokens :: "int option"
  completion_tokens :: "int option"
  total_tokens :: "int option"
  cached_tokens :: "int option"

record usageMetadata =
  promptTokenCount :: int
  candidatesTokenCount :: int
  totalTokenCount :: int
  cachedContentTokenCount :: "int option"

text \<open>\<open>x || 0\<close> on an optional count.\<close>

definition orZero :: "int option \<Rightarrow> int" where
  "orZero x = (case x of None \<Rightarrow> 0 | Some v \<Rightarrow> v)"

text \<open>
  The block under \<open>if (openaiResponse.usage)\<close> of \<open>convertToGeminiFormat\<close>; the block
  under \<open>if (chunk.usage)\<close> of \<open>convertStreamChunkToGeminiFormat\<close> is the same text.
\<close>

definition convertUsage :: "OpenAIUsage \<Rightarrow> usageMetadata" where
  "convertUsage usage =
     (let promptTokens = orZero (prompt_tokens usage);
          completionTokens = orZero (completion_tokens usage);
          totalTokens = orZero (total_tokens usage);
          cachedTokens = orZero (cached_tokens usage);
          estimate = (totalTokens > 0 \<and> promptTokens = 0 \<and> completionTokens = 0);
          finalPromptTokens = (if estimate then times_0_7_rounded totalTokens else promptTokens);
          finalCompletionTokens =
            (if estimate then times_0_3_rounded totalTokens else completionTokens)
      in \<lparr> promptTokenCount = finalPromptTokens,
           candidatesTokenCount = finalCompletionTokens,
           totalTokenCount = totalTokens,
           cachedContentTokenCount = Some cachedTokens \<rparr>)"

definition streamChunk_convertUsage :: "OpenAIUsage \<Rightarrow> usageMetadata" where
  "streamChunk_convertUsage usage =
     (let promptTokens = orZero (prompt_tokens usage);
          completionTokens = orZero (completion_tokens usage);
          totalTokens = orZero (total_tokens usage);
          cachedTokens = orZero (cached_tokens usage);
          estimate = (totalTokens > 0 \<and> promptTokens = 0 \<and> completionTokens = 0);
          finalPromptTokens = (if estimate then times_0_7_rounded totalTokens else promptTokens);
          finalCompletionTokens =
            (if estimate then times_0_3_rounded totalTokens else completionTokens)
      in \<lparr> promptTokenCount = finalPromptTokens,
           candidatesTokenCount = finalCompletionTokens,
           totalTokenCount = totalTokens,
           cachedContentTokenCount = Some cachedTokens \<rparr>)"


section \<open>Canonical responses\<close>

text \<open>
  A response part is \<open>{text}\<close> or \<open>{functionCall: {id, name, args}, thoughtSignature?}\<close>.
  Of a \<open>GenerateContentResponse\<close> the candidates and the usage are kept; the response id,
  the creation time (a clock reading) and the model name play no part below.
\<close>

datatype Part =
    Text string
  | FunctionCall "string option" string json "json option"

fun isFunctionCall :: "Part \<Rightarrow> bool" where
  "isFunctionCall (FunctionCall _ _ _ _) = True"
| "isFunctionCall (Text _) = False"

record Candidate =
  parts :: "Part list"
  finishReason :: finish_value

record GenerateContentResponse =
  candidates :: "Candidate list"
  usageMetadata :: "usageMetadata option"

definition responseParts :: "GenerateContentResponse \<Rightarrow> Part list" where
  "responseParts r = concat (map parts (candidates r))"

section \<open>Bedrock adapter: streaming\<close>

record ToolUseBlockStart =
  toolUseId :: "string option"
  toolName :: "string option"

datatype ContentBlockDelta =
    DeltaText string
  | DeltaToolUse "string option"
  | DeltaOther

record TokenUsage =
  inputTokens :: "int option"
  outputTokens :: "int option"
  totalTokens :: "int option"

text \<open>
  A \<open>ConverseStreamOutput\<close> event is a union with one member present. The second field
  of the three block events is \<open>contentBlockIndex\<close>.
\<close>

datatype ConverseStreamOutput =
    ContentBlockStart "ToolUseBlockStart option" "nat option"
  | ContentBlockDeltaEvent "ContentBlockDelta option" "nat option"
  | ContentBlockStop "nat option"
  | MessageStop "string option"
  | MetadataEvent "TokenUsage option"
  | OtherEvent

record ToolAccumulator =
  accId :: "string option"
  accName :: "string option"
  accInput :: string

text \<open>\<open>x ?? 0\<close> on a block index.\<close>

definition indexOrZero :: "nat option \<Rightarrow> nat" where
  "indexOrZero i = (case i of None \<Rightarrow> 0 | Some n \<Rightarrow> n)"

text \<open>A string field that may be absent, read as a condition.\<close>

definition present :: "string option \<Rightarrow> bool" where
  "present s = (case s of None \<Rightarrow> False | Some t \<Rightarrow> t \<noteq> [])"

definition orEmpty :: "string option \<Rightarrow> string" where
  "orEmpty s = (case s of None \<Rightarrow> [] | Some t \<Rightarrow> t)"

subsection \<open>The adapter that uses safeJsonParse (\<open>streamingToolCalls\<close>)\<close>

definition createStreamResponse ::
    "Part list \<Rightarrow> FinishReason \<Rightarrow> usageMetadata option \<Rightarrow> GenerateContentResponse" where
  "createStreamResponse ps fr um =
     \<lparr> candidates = [\<lparr> parts = ps, finishReason = Member fr \<rparr>], usageMetadata = um \<rparr>"

record BedrockStreamState =
  streamingToolCalls :: "nat \<Rightarrow> ToolAccumulator option"
  inputTokenCount :: int
  outputTokenCount :: int

text \<open>One turn of the \<open>for await\<close> loop: the new state and what the turn yields.\<close>

fun bedrockStreamStep ::
    "json_parse \<Rightarrow> json_repair \<Rightarrow> BedrockStreamState \<Rightarrow> ConverseStreamOutput
      \<Rightarrow> BedrockStreamState \<times> GenerateContentResponse list" where
  "bedrockStreamStep parse repair st (ContentBlockStart start idx) =
     (case start of
        None \<Rightarrow> (st, [])
      | Some toolUse \<Rightarrow>
          (st\<lparr> streamingToolCalls := (streamingToolCalls st)
                 (indexOrZero idx \<mapsto>
                    \<lparr> accId = toolUseId toolUse, accName = toolName toolUse, accInput = [] \<rparr>) \<rparr>,
           []))"
| "bedrockStreamStep parse repair st (ContentBlockDeltaEvent delta idx) =
     (case delta of
        Some (DeltaText t) \<Rightarrow>
          if t \<noteq> [] then (st, [createStreamResponse [Text t] FINISH_REASON_UNSPECIFIED None])
          else (st, [])
      | Some (DeltaToolUse inp) \<Rightarrow>
          (case streamingToolCalls st (indexOrZero idx) of
             None \<Rightarrow> (st, [])
           | Some acc \<Rightarrow>
               (st\<lparr> streamingToolCalls := (streamingToolCalls st)
                      (indexOrZero idx \<mapsto> acc\<lparr> accInput := accInput acc @ orEmpty inp \<rparr>) \<rparr>,
                []))
      | _ \<Rightarrow> (st, []))"
| "bedrockStreamStep parse repair st (ContentBlockStop idx) =
     (case streamingToolCalls st (indexOrZero idx) of
        None \<Rightarrow> (st, [])
      | Some acc \<Rightarrow>
          if present (accName acc) then
            (st\<lparr> streamingToolCalls := (streamingToolCalls st) (indexOrZero idx := None) \<rparr>,
             [createStreamResponse
                [FunctionCall (accId acc) (orEmpty (accName acc))
                   (safeJsonParse parse repair (Some (accInput acc)) emptyObject) None]
                STOP None])
          else (st, []))"
| "bedrockStreamStep parse repair st (MessageStop stopReason) =
     (st,
      [createStreamResponse [] (mapStopReason stopReason)
         (Some \<lparr> promptTokenCount = inputTokenCount st,
                 candidatesTokenCount = outputTokenCount st,
                 totalTokenCount = inputTokenCount st + outputTokenCount st,
                 cachedContentTokenCount = None \<rparr>)])"
| "bedrockStreamStep parse repair st (MetadataEvent usage) =
     (st\<lparr> inputTokenCount := (case usage of None \<Rightarrow> 0 | Some u \<Rightarrow> orZero (inputTokens u)),
          outputTokenCount := (case usage of None \<Rightarrow> 0 | Some u \<Rightarrow> orZero (outputTokens u)) \<rparr>,
      [])"
| "bedrockStreamStep parse repair st OtherEvent = (st, [])"

fun bedrockStreamLoop ::
    "json_parse \<Rightarrow> json_repair \<Rightarrow> BedrockStreamState \<Rightarrow> ConverseStreamOutput list
      \<Rightarrow> BedrockStreamState \<times> GenerateContentResponse list" where
  "bedrockStreamLoop parse repair st [] = (st, [])"
| "bedrockStreamLoop parse repair st (e # es) =
     (let (st1, out1) = bedrockStreamStep parse repair st e;
          (st2, out2) = bedrockStreamLoop parse repair st1 es
      in (st2, out1 @ out2))"

text \<open>
  \<open>streamGenerator\<close>: the accumulator map of the instance (whatever an earlier stream
  left in it) is cleared, then the events are consumed; a response without a stream
  yields nothing. The result is the map left on the instance and the responses yielded.
\<close>

definition bedrockStreamGenerator ::
    "json_parse \<Rightarrow> json_repair \<Rightarrow> (nat \<Rightarrow> ToolAccumulator option)
      \<Rightarrow> ConverseStreamOutput list option
      \<Rightarrow> (nat \<Rightarrow> ToolAccumulator option) \<times> GenerateContentResponse list" where
  "bedrockStreamGenerator parse repair leftover stream =
     (case stream of
        None \<Rightarrow> (Map.empty, [])
      | Some events \<Rightarrow>
          (let (st, out) =
                 bedrockStreamLoop parse repair
                   \<lparr> streamingToolCalls = Map.empty, inputTokenCount = 0, outputTokenCount = 0 \<rparr>
                   events
           in (streamingToolCalls st, out)))"

subsection \<open>The adapter that parses strictly (\<open>streamingToolUses\<close>)\<close>









section \<open>OpenAI adapter: decoding responses\<close>

text \<open>\<open>JSON.stringify\<close> is a built-in: a parameter.\<close>

type_synonym json_stringify = "json \<Rightarrow> string"

definition startsWith :: "string \<Rightarrow> string \<Rightarrow> bool" where
  "startsWith s p = (take (length p) s = p)"

text \<open>
  \<open>isValidThoughtSignature\<close>. \<open>signatureEntryPasses\<close> is one turn of its loop: \<open>False\<close>
  when the turn returns \<open>false\<close>.
\<close>

definition signatureEntryPasses :: "json \<Rightarrow> bool" where
  "signatureEntryPasses sig =
     (case sig of
        JObj kvs \<Rightarrow>
          (case map_of kvs ''data'' of
             Some (JStr d) \<Rightarrow>
               if length d < 64 then False
               else if \<not> list_ex (startsWith d) [''Ci'', ''Ev'', ''Ch'', ''Co'']
                       \<and> list_ex (startsWith d) [''ZT'', ''ND'', ''MW'', ''Yz'', ''OD'']
                       \<and> length d < 100
               then False
               else True
           | _ \<Rightarrow> False)
      | JArr _ \<Rightarrow> False
      | _ \<Rightarrow> True)"

definition isValidThoughtSignature :: "json option \<Rightarrow> bool" where
  "isValidThoughtSignature thoughtSignature =
     (case thoughtSignature of
        None \<Rightarrow> False
      | Some v \<Rightarrow>
          if \<not> truthy v then False
          else list_all signatureEntryPasses (case v of JArr sigs \<Rightarrow> sigs | _ \<Rightarrow> [v]))"

text \<open>\<open>a || b\<close> on optional values: the first truthy one, else the second.\<close>

definition orElse :: "json option \<Rightarrow> json option \<Rightarrow> json option" where
  "orElse a b = (case a of Some v \<Rightarrow> if truthy v then a else b | None \<Rightarrow> b)"

definition isTruthy :: "json option \<Rightarrow> bool" where
  "isTruthy a = (case a of Some v \<Rightarrow> truthy v | None \<Rightarrow> False)"

record ToolFunction =
  fnName :: string
  fnArguments :: string
  fnThoughtSignature :: "json option"

record ResponseToolCall =
  callId :: string
  callType :: string
  callFunction :: "ToolFunction option"
  callThought_signature :: "json option"
  callThoughtSignature :: "json option"

record ChatCompletionMessage =
  messageContent :: "string option"
  messageToolCalls :: "ResponseToolCall list option"
  messageReasoningDetails :: "json option"

record ChatCompletionChoice =
  choiceMessage :: ChatCompletionMessage
  choiceFinishReason :: "string option"

record ChatCompletion =
  completionChoices :: "ChatCompletionChoice list"
  completionUsage :: "OpenAIUsage option"

datatype js_error = TypeError

text \<open>The body of the loop over \<open>choice.message.tool_calls\<close>: the parts pushed for one call.\<close>

definition decodeToolCall ::
    "json_parse \<Rightarrow> json_repair \<Rightarrow> json_stringify \<Rightarrow> bool \<Rightarrow> ResponseToolCall \<Rightarrow> Part list" where
  "decodeToolCall parse repair stringify isJsonSchemaRequest toolCall =
     (case callFunction toolCall of
        None \<Rightarrow> []
      | Some f \<Rightarrow>
          if callType toolCall \<noteq> ''function'' then []
          else
            (let args = (if fnArguments f \<noteq> []
                         then safeJsonParse parse repair (Some (fnArguments f)) emptyObject
                         else emptyObject)
             in if isJsonSchemaRequest \<and> fnName f = ''respond_in_schema''
                then [Text (stringify args)]
                else
                  (let thoughtSig =
                         orElse (callThought_signature toolCall)
                           (orElse (callThoughtSignature toolCall) (fnThoughtSignature f))
                   in [FunctionCall (Some (callId toolCall)) (fnName f) args
                         (if isTruthy thoughtSig \<and> isValidThoughtSignature thoughtSig
                          then thoughtSig else None)])))"

text \<open>
  Attaching \<open>reasoning_details\<close> to the first function-call part when that part has no
  truthy \<open>thoughtSignature\<close> yet.
\<close>

fun attachToFirstFunctionCall :: "json option \<Rightarrow> Part list \<Rightarrow> Part list" where
  "attachToFirstFunctionCall rd [] = []"
| "attachToFirstFunctionCall rd (Text t # ps) = Text t # attachToFirstFunctionCall rd ps"
| "attachToFirstFunctionCall rd (FunctionCall i n a sig # ps) =
     (if isTruthy sig then FunctionCall i n a sig # ps else FunctionCall i n a rd # ps)"

definition convertToGeminiFormat ::
    "json_parse \<Rightarrow> json_repair \<Rightarrow> json_stringify \<Rightarrow> ChatCompletion \<Rightarrow> bool
      \<Rightarrow> js_error + GenerateContentResponse" where
  "convertToGeminiFormat parse repair stringify openaiResponse isJsonSchemaRequest =
     (case completionChoices openaiResponse of
        [] \<Rightarrow> Inl TypeError
      | choice # _ \<Rightarrow>
          (let msg = choiceMessage choice;
               textParts = (if present (messageContent msg)
                            then [Text (orEmpty (messageContent msg))] else []);
               callParts =
                 (case messageToolCalls msg of
                    None \<Rightarrow> []
                  | Some calls \<Rightarrow>
                      concat (map (decodeToolCall parse repair stringify isJsonSchemaRequest)
                                calls));
               ps = textParts @ callParts;
               ps' = (if isTruthy (messageReasoningDetails msg)
                         \<and> isValidThoughtSignature (messageReasoningDetails msg)
                      then attachToFirstFunctionCall (messageReasoningDetails msg) ps
                      else ps)
           in Inr \<lparr> candidates =
                       [\<lparr> parts = ps',
                          finishReason =
                            mapFinishReason
                              (Some (if present (choiceFinishReason choice)
                                     then orEmpty (choiceFinishReason choice) else ''stop'')) \<rparr>],
                     usageMetadata = map_option convertUsage (completionUsage openaiResponse) \<rparr>))"

section \<open>OpenAI adapter: the synthetic tool of a JSON-schema request\<close>

record FunctionTool =
  toolFunctionName :: string
  toolFunctionDescription :: string
  toolFunctionParameters :: json

text \<open>
  Of a request, what the branch on \<open>responseJsonSchema\<close> reads. \<open>convertedTools\<close> is the
  result of \<open>convertGeminiToolsToOpenAI(request.config.tools)\<close> when \<open>tools\<close> is set.
\<close>

record RequestConfig =
  responseJsonSchema :: "json option"
  responseMimeType :: "string option"
  convertedTools :: "FunctionTool list option"

text \<open>The constant \<open>isJsonSchemaRequest\<close> that both operations compute from the request.\<close>

definition isJsonSchemaRequestOf :: "RequestConfig \<Rightarrow> bool" where
  "isJsonSchemaRequestOf config =
     (isTruthy (responseJsonSchema config) \<and> responseMimeType config = Some ''application/json'')"

text \<open>
  \<open>createParams.tools\<close> as \<open>generateContent\<close> sets it (\<open>None\<close>: left unset);
  \<open>generateContentStream\<close> repeats the same statements.
\<close>

definition generateContent_tools :: "RequestConfig \<Rightarrow> FunctionTool list option" where
  "generateContent_tools config =
     (if isTruthy (responseJsonSchema config)
         \<and> responseMimeType config = Some ''application/json''
      then (case responseJsonSchema config of
              Some schema \<Rightarrow>
                Some [\<lparr> toolFunctionName = ''respond_in_schema'',
                         toolFunctionDescription =
                           ''Provide the response in the specified JSON schema format'',
                         toolFunctionParameters = schema \<rparr>]
            | None \<Rightarrow> None)
      else convertedTools config)"

definition generateContentStream_tools :: "RequestConfig \<Rightarrow> FunctionTool list option" where
  "generateContentStream_tools config =
     (if isTruthy (responseJsonSchema config)
         \<and> responseMimeType config = Some ''application/json''
      then (case responseJsonSchema config of
              Some schema \<Rightarrow>
                Some [\<lparr> toolFunctionName = ''respond_in_schema'',
                         toolFunctionDescription =
                           ''Provide the response in the specified JSON schema format'',
                         toolFunctionParameters = schema \<rparr>]
            | None \<Rightarrow> None)
      else convertedTools config)"

section \<open>OpenAI adapter: streaming\<close>

record ToolCallDelta =
  deltaIndex :: "nat option"
  deltaId :: "string option"
  deltaFunctionName :: "string option"
  deltaFunctionArguments :: "string option"
  deltaThoughtSignature :: "json option"
  deltaFunctionThoughtSignature :: "json option"

record ChunkChoice =
  deltaContent :: "string option"
  deltaToolCalls :: "ToolCallDelta list option"
  chunkFinishReason :: "string option"
  deltaReasoningDetails :: "json option"
  choiceReasoningDetails :: "json option"

record ChatCompletionChunk =
  chunkChoice :: "ChunkChoice option"
  chunkReasoningDetails :: "json option"
  chunkUsage :: "OpenAIUsage option"

record AccumulatedCall =
  accumulatedId :: "string option"
  accumulatedName :: "string option"
  accumulatedArguments :: string
  accumulatedThoughtSignature :: "json option"

text \<open>
  \<open>streamingToolCalls\<close> is a \<open>Map\<close>, iterated in insertion order: an association list
  in which \<open>set\<close> on a key that is present keeps the key's place.
\<close>

fun mapSet :: "nat \<Rightarrow> 'v \<Rightarrow> (nat \<times> 'v) list \<Rightarrow> (nat \<times> 'v) list" where
  "mapSet k v [] = [(k, v)]"
| "mapSet k v ((k', v') # rest) =
     (if k = k' then (k, v) # rest else (k', v') # mapSet k v rest)"

record OpenAIStreamState =
  accumulatedCalls :: "(nat \<times> AccumulatedCall) list"
  streamingReasoningDetails :: "json option"

text \<open>The body of the loop over \<open>choice.delta.tool_calls\<close>.\<close>

definition accumulateToolCall ::
    "(nat \<times> AccumulatedCall) list \<Rightarrow> ToolCallDelta \<Rightarrow> (nat \<times> AccumulatedCall) list" where
  "accumulateToolCall calls toolCall =
     (let index = indexOrZero (deltaIndex toolCall);
          acc0 = (case map_of calls index of
                    Some a \<Rightarrow> a
                  | None \<Rightarrow> \<lparr> accumulatedId = None, accumulatedName = None,
                              accumulatedArguments = [], accumulatedThoughtSignature = None \<rparr>);
          acc1 = (if present (deltaId toolCall)
                  then acc0\<lparr> accumulatedId := deltaId toolCall \<rparr> else acc0);
          acc2 = (if present (deltaFunctionName toolCall)
                  then acc1\<lparr> accumulatedName := deltaFunctionName toolCall \<rparr> else acc1);
          acc3 = (if present (deltaFunctionArguments toolCall)
                  then acc2\<lparr> accumulatedArguments :=
                               accumulatedArguments acc2 @ orEmpty (deltaFunctionArguments toolCall) \<rparr>
                  else acc2);
          acc4 = (if isTruthy (deltaThoughtSignature toolCall)
                  then acc3\<lparr> accumulatedThoughtSignature := deltaThoughtSignature toolCall \<rparr>
                  else if isTruthy (deltaFunctionThoughtSignature toolCall)
                  then acc3\<lparr> accumulatedThoughtSignature := deltaFunctionThoughtSignature toolCall \<rparr>
                  else acc3)
      in mapSet index acc4 calls)"

text \<open>
  The body of the loop that runs when \<open>finish_reason\<close> is present: \<open>ps\<close> is the array
  \<open>parts\<close> so far, the result is \<open>parts\<close> after the turn for one accumulated call.
\<close>

definition emitAccumulatedCall ::
    "json_parse \<Rightarrow> json_repair \<Rightarrow> json_stringify \<Rightarrow> bool \<Rightarrow> json option
      \<Rightarrow> Part list \<Rightarrow> AccumulatedCall \<Rightarrow> Part list" where
  "emitAccumulatedCall parse repair stringify isJsonSchemaRequest reasoningDetails ps acc =
     (if \<not> present (accumulatedName acc) then ps
      else
        (let args = (if accumulatedArguments acc \<noteq> []
                     then safeJsonParse parse repair (Some (accumulatedArguments acc)) emptyObject
                     else emptyObject)
         in if isJsonSchemaRequest \<and> accumulatedName acc = Some ''respond_in_schema''
            then ps @ [Text (stringify args)]
            else
              ps @ [FunctionCall (accumulatedId acc) (orEmpty (accumulatedName acc)) args
                      (if isTruthy (accumulatedThoughtSignature acc)
                          \<and> isValidThoughtSignature (accumulatedThoughtSignature acc)
                       then accumulatedThoughtSignature acc
                       else if isTruthy reasoningDetails \<and> filter isFunctionCall ps = []
                       then reasoningDetails
                       else None)]))"

definition convertStreamChunkToGeminiFormat ::
    "json_parse \<Rightarrow> json_repair \<Rightarrow> json_stringify \<Rightarrow> OpenAIStreamState \<Rightarrow> ChatCompletionChunk
      \<Rightarrow> bool \<Rightarrow> OpenAIStreamState \<times> GenerateContentResponse" where
  "convertStreamChunkToGeminiFormat parse repair stringify st chunk isJsonSchemaRequest =
     (case chunkChoice chunk of
        None \<Rightarrow>
          (st, \<lparr> candidates = [],
                usageMetadata = map_option streamChunk_convertUsage (chunkUsage chunk) \<rparr>)
      | Some choice \<Rightarrow>
          (let textParts = (if present (deltaContent choice)
                            then [Text (orEmpty (deltaContent choice))] else []);
               deltaDetails =
                 orElse (deltaReasoningDetails choice)
                   (orElse (choiceReasoningDetails choice) (chunkReasoningDetails chunk));
               details1 = (if isTruthy deltaDetails \<and> isValidThoughtSignature deltaDetails
                           then deltaDetails else streamingReasoningDetails st);
               calls1 = (case deltaToolCalls choice of
                           None \<Rightarrow> accumulatedCalls st
                         | Some tcs \<Rightarrow> foldl accumulateToolCall (accumulatedCalls st) tcs);
               finished = present (chunkFinishReason choice);
               ps = (if finished
                     then foldl (emitAccumulatedCall parse repair stringify isJsonSchemaRequest
                                   details1)
                            textParts (map snd calls1)
                     else textParts);
               st' = (if finished
                      then \<lparr> accumulatedCalls = [], streamingReasoningDetails = None \<rparr>
                      else \<lparr> accumulatedCalls = calls1, streamingReasoningDetails = details1 \<rparr>)
           in (st',
               \<lparr> candidates =
                   [\<lparr> parts = ps,
                      finishReason =
                        (if finished then mapFinishReason (chunkFinishReason choice)
                         else Member FINISH_REASON_UNSPECIFIED) \<rparr>],
                 usageMetadata = map_option streamChunk_convertUsage (chunkUsage chunk) \<rparr>)))"

fun openaiStreamLoop ::
    "json_parse \<Rightarrow> json_repair \<Rightarrow> json_stringify \<Rightarrow> bool \<Rightarrow> OpenAIStreamState
      \<Rightarrow> ChatCompletionChunk list \<Rightarrow> OpenAIStreamState \<times> GenerateContentResponse list" where
  "openaiStreamLoop parse repair stringify js st [] = (st, [])"
| "openaiStreamLoop parse repair stringify js st (chunk # chunks) =
     (let (st1, r) = convertStreamChunkToGeminiFormat parse repair stringify st chunk js;
          (st2, rs) = openaiStreamLoop parse repair stringify js st1 chunks
      in (st2, r # rs))"

text \<open>
  \<open>streamGenerator\<close>: both accumulators of the instance are reset, then every chunk
  yields one response.
\<close>

definition openaiStreamGenerator ::
    "json_parse \<Rightarrow> json_repair \<Rightarrow> json_stringify \<Rightarrow> OpenAIStreamState
      \<Rightarrow> ChatCompletionChunk list \<Rightarrow> bool \<Rightarrow> GenerateContentResponse list" where
  "openaiStreamGenerator parse repair stringify leftover stream js =
     snd (openaiStreamLoop parse repair stringify js
            \<lparr> accumulatedCalls = [], streamingReasoningDetails = None \<rparr> stream)"


section \<open>OpenAI adapter: the hygiene pass over the message list\<close>

text \<open>
  A \<open>ChatCompletionMessageParam\<close>. \<open>tool_calls = None\<close> is a message without the
  property (or with \<open>undefined\<close>/\<open>null\<close> in it: the code reads it only as a condition).
  \<open>ContentParts\<close> is an array-valued \<open>content\<close>, for which \<open>typeof content === 'string'\<close>
  is false.
\<close>

datatype Role = RoleSystem | RoleUser | RoleAssistant | RoleTool | RoleDeveloper | RoleFunction

datatype MessageContent =
    ContentAbsent
  | ContentNull
  | ContentString string
  | ContentParts "string list"

record MessageToolCall =
  toolCallId :: string
  toolCallName :: string
  toolCallArguments :: string

record ChatMessage =
  role :: Role
  content :: MessageContent
  tool_calls :: "MessageToolCall list option"
  tool_call_id :: "string option"
  reasoning_details :: "json option"
  reasoning_content :: "string option"

text \<open>\<open>String.prototype.trim\<close>: the white space and line terminators below 256.\<close>

definition isWhiteSpace :: "char \<Rightarrow> bool" where
  "isWhiteSpace c = (of_char c \<in> {9, 10, 11, 12, 13, 32, 160 :: nat})"

definition trim :: "string \<Rightarrow> string" where
  "trim s = rev (dropWhile isWhiteSpace (rev (dropWhile isWhiteSpace s)))"

text \<open>\<open>typeof message.content === 'string' && message.content.trim()\<close>\<close>

definition hasTextContent :: "ChatMessage \<Rightarrow> bool" where
  "hasTextContent m = (case content m of ContentString s \<Rightarrow> trim s \<noteq> [] | _ \<Rightarrow> False)"

text \<open>\<open>message.role === 'assistant' && 'tool_calls' in message && message.tool_calls\<close>\<close>

definition hasToolCalls :: "ChatMessage \<Rightarrow> bool" where
  "hasToolCalls m = (role m = RoleAssistant \<and> tool_calls m \<noteq> None)"

definition callsOf :: "ChatMessage \<Rightarrow> MessageToolCall list" where
  "callsOf m = (case tool_calls m of None \<Rightarrow> [] | Some tcs \<Rightarrow> tcs)"

text \<open>\<open>message.role === 'tool' && 'tool_call_id' in message && message.tool_call_id\<close>\<close>

definition isToolResponse :: "ChatMessage \<Rightarrow> bool" where
  "isToolResponse m = (role m = RoleTool \<and> present (tool_call_id m))"

text \<open>The first pass: the two sets of ids.\<close>

definition collectToolCallIds :: "ChatMessage list \<Rightarrow> string set" where
  "collectToolCallIds messages =
     set (concat (map (\<lambda>m. if hasToolCalls m
                             then filter (\<lambda>i. i \<noteq> []) (map toolCallId (callsOf m))
                             else [])
                      messages))"

definition collectToolResponseIds :: "ChatMessage list \<Rightarrow> string set" where
  "collectToolResponseIds messages =
     set (concat (map (\<lambda>m. if hasToolCalls m then []
                             else if isToolResponse m then [orEmpty (tool_call_id m)]
                             else [])
                      messages))"

text \<open>
  What either filtering loop does with an assistant message that has \<open>tool_calls\<close>:
  keeps it with the calls that are answered, or without calls when it has text, or
  drops it.
\<close>

definition filterAssistant :: "string set \<Rightarrow> ChatMessage \<Rightarrow> ChatMessage list" where
  "filterAssistant responseIds m =
     (let validToolCalls =
            filter (\<lambda>tc. toolCallId tc \<noteq> [] \<and> toolCallId tc \<in> responseIds) (callsOf m)
      in if validToolCalls \<noteq> [] then [m\<lparr> tool_calls := Some validToolCalls \<rparr>]
         else if hasTextContent m then [m\<lparr> tool_calls := None \<rparr>]
         else [])"

text \<open>The second pass; \<open>added\<close> is \<open>addedToolResponseIds\<close>.\<close>

fun secondPass ::
    "string set \<Rightarrow> string set \<Rightarrow> string set \<Rightarrow> ChatMessage list \<Rightarrow> ChatMessage list" where
  "secondPass callIds responseIds added [] = []"
| "secondPass callIds responseIds added (m # ms) =
     (if hasToolCalls m then
        filterAssistant responseIds m @ secondPass callIds responseIds added ms
      else if isToolResponse m then
        (if orEmpty (tool_call_id m) \<in> callIds \<and> orEmpty (tool_call_id m) \<notin> added
         then m # secondPass callIds responseIds (insert (orEmpty (tool_call_id m)) added) ms
         else secondPass callIds responseIds added ms)
      else m # secondPass callIds responseIds added ms)"

text \<open>The final validation: the ids of the tool messages that are left, and a last filter.\<close>

definition finalToolResponseIds :: "ChatMessage list \<Rightarrow> string set" where
  "finalToolResponseIds cleaned =
     set (concat (map (\<lambda>m. if isToolResponse m then [orEmpty (tool_call_id m)] else [])
                      cleaned))"

definition finalPass :: "string set \<Rightarrow> ChatMessage list \<Rightarrow> ChatMessage list" where
  "finalPass responseIds cleaned =
     concat (map (\<lambda>m. if hasToolCalls m then filterAssistant responseIds m else [m]) cleaned)"

definition cleanOrphanedToolCalls :: "ChatMessage list \<Rightarrow> ChatMessage list" where
  "cleanOrphanedToolCalls messages =
     (let cleaned =
            secondPass (collectToolCallIds messages) (collectToolResponseIds messages) {}
              messages
      in finalPass (finalToolResponseIds cleaned) cleaned)"

text \<open>
  \<open>mergeConsecutiveAssistantMessages\<close>. \<open>mergeInto last m\<close> is the update of the last
  message of \<open>merged\<close> when both are assistant messages.
\<close>

definition contentText :: "MessageContent \<Rightarrow> string" where
  "contentText c = (case c of ContentString s \<Rightarrow> s | _ \<Rightarrow> [])"

definition mergeInto :: "ChatMessage \<Rightarrow> ChatMessage \<Rightarrow> ChatMessage" where
  "mergeInto lastMessage m =
     (let combinedContent = contentText (content lastMessage) @ contentText (content m);
          combinedToolCalls = callsOf lastMessage @ callsOf m;
          withContent =
            lastMessage\<lparr> content := (if combinedContent \<noteq> [] then ContentString combinedContent
                                      else ContentNull) \<rparr>
      in if combinedToolCalls \<noteq> [] then withContent\<lparr> tool_calls := Some combinedToolCalls \<rparr>
         else withContent)"

fun mergeLoop :: "ChatMessage list \<Rightarrow> ChatMessage list \<Rightarrow> ChatMessage list" where
  "mergeLoop merged [] = merged"
| "mergeLoop merged (m # ms) =
     (if role m = RoleAssistant \<and> merged \<noteq> [] \<and> role (last merged) = RoleAssistant
      then mergeLoop (butlast merged @ [mergeInto (last merged) m]) ms
      else mergeLoop (merged @ [m]) ms)"

definition mergeConsecutiveAssistantMessages :: "ChatMessage list \<Rightarrow> ChatMessage list" where
  "mergeConsecutiveAssistantMessages messages = mergeLoop [] messages"

text \<open>The two steps as \<open>convertToOpenAIFormat\<close> runs them on the converted messages.\<close>

definition hygienePass :: "ChatMessage list \<Rightarrow> ChatMessage list" where
  "hygienePass messages = mergeConsecutiveAssistantMessages (cleanOrphanedToolCalls messages)"

section \<open>Parameter schemas\<close>

text \<open>
  \<open>String.prototype.toLowerCase\<close> on code units below 256: the letters A to Z and the
  capital letters of Latin-1 (192 to 222 without the multiplication sign 215).
\<close>

definition isUpperCase :: "char \<Rightarrow> bool" where
  "isUpperCase c =
     (let n = (of_char c :: nat) in (65 \<le> n \<and> n \<le> 90) \<or> (192 \<le> n \<and> n \<le> 222 \<and> n \<noteq> 215))"

definition charToLowerCase :: "char \<Rightarrow> char" where
  "charToLowerCase c = (if isUpperCase c then char_of ((of_char c :: nat) + 32) else c)"

definition toLowerCase :: "string \<Rightarrow> string" where
  "toLowerCase s = map charToLowerCase s"

text \<open>
  \<open>Number(s)\<close>, \<open>isNaN\<close> and \<open>parseInt(s, 10)\<close> are built-ins: parameters.
\<close>

record NumberBuiltins =
  toNumber :: "string \<Rightarrow> number"
  parseInt10 :: "string \<Rightarrow> number"

text \<open>\<open>obj[key]\<close> and \<open>obj[key] = v\<close> on the own entries of an object.\<close>

definition getProp :: "string \<Rightarrow> (string \<times> 'a) list \<Rightarrow> 'a option" where
  "getProp k kvs = map_of kvs k"

fun setProp :: "string \<Rightarrow> 'a \<Rightarrow> (string \<times> 'a) list \<Rightarrow> (string \<times> 'a) list" where
  "setProp k v [] = [(k, v)]"
| "setProp k v ((k', v') # rest) =
     (if k = k' then (k, v) # rest else (k', v') # setProp k v rest)"

text \<open>
  Both \<open>convertTypes\<close> closures build their result by assignments \<open>result[key] = ...\<close> to
  a fresh \<open>{}\<close>, so a result is more than a JSON value: an assignment to the key
  \<open>__proto__\<close> runs the setter of \<open>Object.prototype\<close>, which installs an object, an array
  or null as the prototype of \<open>result\<close> and creates no own property. An object is
  therefore its own entries in property order together with its prototype: \<open>None\<close> is
  \<open>Object.prototype\<close>, \<open>Some p\<close> is what the setter installed.
\<close>

datatype jsvalue =
    VNull
  | VBool bool
  | VNum number
  | VStr string
  | VArr "jsvalue list"
  | VObj "(string \<times> jsvalue) list" "jsvalue option"

text \<open>
  A value of the deep copy \<open>JSON.parse(JSON.stringify(parameters))\<close>: every object has the
  prototype \<open>Object.prototype\<close>, and \<open>JSON.parse\<close> defines every key, \<open>__proto__\<close> too, as
  an own property.
\<close>

fun fromJson :: "json \<Rightarrow> jsvalue" where
  "fromJson JNull = VNull"
| "fromJson (JBool b) = VBool b"
| "fromJson (JNum n) = VNum n"
| "fromJson (JStr s) = VStr s"
| "fromJson (JArr xs) = VArr (map fromJson xs)"
| "fromJson (JObj kvs) = VObj (map (\<lambda>(k, v). (k, fromJson v)) kvs) None"

fun truthyValue :: "jsvalue \<Rightarrow> bool" where
  "truthyValue VNull = False"
| "truthyValue (VBool b) = b"
| "truthyValue (VNum n) = (n \<noteq> Finite 0 \<and> n \<noteq> NaN)"
| "truthyValue (VStr s) = (s \<noteq> [])"
| "truthyValue (VArr _) = True"
| "truthyValue (VObj _ _) = True"

definition isTruthyValue :: "jsvalue option \<Rightarrow> bool" where
  "isTruthyValue a = (case a of Some v \<Rightarrow> truthyValue v | None \<Rightarrow> False)"

text \<open>
  \<open>result['type']\<close> and \<open>result['properties']\<close>: the own property, or else the property of
  the nearest object on the prototype chain that has one. \<open>Object.prototype\<close> and
  \<open>Array.prototype\<close> define neither key, and an array has no own property of these names.
\<close>

fun getValue :: "string \<Rightarrow> jsvalue \<Rightarrow> jsvalue option" where
  "getValue k (VObj es None) = map_of es k"
| "getValue k (VObj es (Some p)) =
     (case map_of es k of Some v \<Rightarrow> Some v | None \<Rightarrow> getValue k p)"
| "getValue k v = None"

text \<open>
  Whether an assignment to \<open>__proto__\<close> finds the accessor of \<open>Object.prototype\<close>: no
  object on the chain has an own property of that name, and the chain does not end in
  null.
\<close>

fun inheritsSetter :: "jsvalue \<Rightarrow> bool" where
  "inheritsSetter (VObj es None) = (map_of es ''__proto__'' = None)"
| "inheritsSetter (VObj es (Some p)) = (map_of es ''__proto__'' = None \<and> inheritsSetter p)"
| "inheritsSetter (VArr xs) = True"
| "inheritsSetter v = False"

text \<open>
  \<open>result[key] = v\<close>. The setter ignores a value that is neither an object nor null; any
  other key, and \<open>__proto__\<close> where the setter is not found, becomes an own property.
\<close>

fun assign :: "string \<Rightarrow> jsvalue \<Rightarrow> jsvalue \<Rightarrow> jsvalue" where
  "assign key v (VObj es p) =
     (if key = ''__proto__'' \<and> inheritsSetter (VObj es p) then
        (case v of
           VObj _ _ \<Rightarrow> VObj es (Some v)
         | VArr _ \<Rightarrow> VObj es (Some v)
         | VNull \<Rightarrow> VObj es (Some v)
         | _ \<Rightarrow> VObj es p)
      else VObj (setProp key v es) p)"
| "assign key v result = result"

text \<open>The value stored under the key \<open>type\<close> (both \<open>convertTypes\<close> closures).\<close>

definition isNonNullTypeName :: "json \<Rightarrow> bool" where
  "isNonNullTypeName t = (case t of JStr s \<Rightarrow> toLowerCase s \<noteq> ''null'' | _ \<Rightarrow> False)"

definition convertTypeValue :: "json \<Rightarrow> jsvalue" where
  "convertTypeValue v =
     (case v of
        JNull \<Rightarrow> VStr ''object''
      | JArr ts \<Rightarrow>
          (case find isNonNullTypeName ts of
             Some (JStr primaryType) \<Rightarrow>
               if primaryType \<noteq> [] then VStr (toLowerCase primaryType) else VStr ''object''
           | _ \<Rightarrow> VStr ''object'')
      | JStr s \<Rightarrow> VStr (toLowerCase s)
      | _ \<Rightarrow> fromJson v)"

text \<open>
  The values stored under \<open>minimum\<close>, \<open>maximum\<close>, \<open>multipleOf\<close> and under \<open>minLength\<close>,
  \<open>maxLength\<close>, \<open>minItems\<close>, \<open>maxItems\<close> (\<open>convertGeminiParametersToOpenAI\<close> only).
\<close>

definition numberConstraint :: "NumberBuiltins \<Rightarrow> json \<Rightarrow> jsvalue" where
  "numberConstraint nb v =
     (case v of
        JStr s \<Rightarrow> if toNumber nb s \<noteq> NaN then VNum (toNumber nb s) else fromJson v
      | _ \<Rightarrow> fromJson v)"

definition integerConstraint :: "NumberBuiltins \<Rightarrow> json \<Rightarrow> jsvalue" where
  "integerConstraint nb v =
     (case v of
        JStr s \<Rightarrow> if toNumber nb s \<noteq> NaN then VNum (parseInt10 nb s) else fromJson v
      | _ \<Rightarrow> fromJson v)"

text \<open>\<open>if (result['properties'] && !result['type']) result['type'] = 'object'\<close>\<close>

definition ensureObjectType :: "jsvalue \<Rightarrow> jsvalue" where
  "ensureObjectType result =
     (if isTruthyValue (getValue ''properties'' result)
         \<and> \<not> isTruthyValue (getValue ''type'' result)
      then assign ''type'' (VStr ''object'') result
      else result)"

text \<open>\<open>convertTypes\<close> inside \<open>convertGeminiParametersToOpenAI\<close>.\<close>

fun convertTypes :: "NumberBuiltins \<Rightarrow> json \<Rightarrow> jsvalue" where
  "convertTypes nb (JArr xs) = VArr (map (convertTypes nb) xs)"
| "convertTypes nb (JObj kvs) =
     ensureObjectType
       (foldl (\<lambda>result (key, v).
                 assign key
                   (if key = ''type'' then convertTypeValue v
                    else if key = ''minimum'' \<or> key = ''maximum'' \<or> key = ''multipleOf''
                    then numberConstraint nb v
                    else if key = ''minLength'' \<or> key = ''maxLength'' \<or> key = ''minItems''
                            \<or> key = ''maxItems''
                    then integerConstraint nb v
                    else convertTypes nb v)
                   result)
          (VObj [] None) kvs)"
| "convertTypes nb v = fromJson v"

text \<open>The safety net at the root, after \<open>convertTypes\<close>.\<close>

definition isArrayValue :: "jsvalue option \<Rightarrow> bool" where
  "isArrayValue v = (case v of Some (VArr _) \<Rightarrow> True | _ \<Rightarrow> False)"

definition rootSafetyNet :: "jsvalue \<Rightarrow> jsvalue" where
  "rootSafetyNet result =
     (let r1 = (if \<not> isTruthyValue (getValue ''type'' result)
                   \<or> isArrayValue (getValue ''type'' result)
                then assign ''type'' (VStr ''object'') result else result);
          r2 = (case getValue ''type'' r1 of
                  Some (VStr t) \<Rightarrow>
                    if t \<noteq> ''object'' \<and> toLowerCase t = ''object''
                    then assign ''type'' (VStr ''object'') r1 else r1
                | _ \<Rightarrow> r1)
      in if \<not> isTruthyValue (getValue ''properties'' r2)
         then assign ''properties'' (VObj [] None) r2 else r2)"

text \<open>
  The argument is \<open>None\<close> for \<open>parameters\<close> that are null, undefined or not an object,
  and otherwise the entries of the object that the deep copy returns.
\<close>

definition convertGeminiParametersToOpenAI ::
    "NumberBuiltins \<Rightarrow> (string \<times> json) list option \<Rightarrow> jsvalue" where
  "convertGeminiParametersToOpenAI nb parameters =
     (case parameters of
        None \<Rightarrow> VObj [(''type'', VStr ''object''), (''properties'', VObj [] None)] None
      | Some kvs \<Rightarrow> rootSafetyNet (convertTypes nb (JObj kvs)))"

text \<open>\<open>convertTypes\<close> inside \<open>convertGeminiParametersToBedrock\<close>: no numeric keys.\<close>

fun bedrockConvertTypes :: "json \<Rightarrow> jsvalue" where
  "bedrockConvertTypes (JArr xs) = VArr (map bedrockConvertTypes xs)"
| "bedrockConvertTypes (JObj kvs) =
     ensureObjectType
       (foldl (\<lambda>result (key, v).
                 assign key
                   (if key = ''type'' then convertTypeValue v else bedrockConvertTypes v)
                   result)
          (VObj [] None) kvs)"
| "bedrockConvertTypes v = fromJson v"

definition bedrockRootSafetyNet :: "jsvalue \<Rightarrow> jsvalue" where
  "bedrockRootSafetyNet result =
     (let r1 = (if \<not> isTruthyValue (getValue ''type'' result)
                   \<or> isArrayValue (getValue ''type'' result)
                then assign ''type'' (VStr ''object'') result else result)
      in if \<not> isTruthyValue (getValue ''properties'' r1)
         then assign ''properties'' (VObj [] None) r1 else r1)"

definition convertGeminiParametersToBedrock :: "(string \<times> json) list option \<Rightarrow> jsvalue" where
  "convertGeminiParametersToBedrock parameters =
     (case parameters of
        None \<Rightarrow> VObj [(''type'', VStr ''object''), (''properties'', VObj [] None)] None
      | Some kvs \<Rightarrow> bedrockRootSafetyNet (bedrockConvertTypes (JObj kvs)))"

text \<open>
  \<open>sanitizeJsonSchema\<close> of the Bedrock adapter that parses strictly. \<open>traverse\<close> rewrites
  an array-valued \<open>type\<close> to its first entry other than the string \<open>null\<close> (as it is, and
  \<open>string\<close> when that entry is missing or falsy: \<open>orString\<close>), removes \<open>additionalProperties\<close> and
  descends into every property whose value is an object or an array.
\<close>

definition orString :: "json \<Rightarrow> json" where
  "orString t = (if truthy t then t else JStr ''string'')"

lemma size_find_less:
  "find P ts = Some t \<Longrightarrow> size (t :: json) < Suc (size_list size ts)"
  by (induction ts) (auto split: if_splits)

lemma size_entry_less:
  "(k, v) \<in> set kvs \<Longrightarrow> size (v :: json) < Suc (size_list (\<lambda>x. Suc (size (snd x))) kvs)"
  by (induction kvs) auto

lemma entry_in_measure:
  "(k, v) \<in> set kvs \<Longrightarrow> (v, JObj kvs) \<in> measure size"
  using size_entry_less [of k v kvs] by (simp add: size_prod_simp)

lemma chosen_in_measure:
  assumes "(k, JArr ts) \<in> set kvs" and "find P ts = Some t"
  shows "(orString t, JObj kvs) \<in> measure size"
proof -
  have "size (JArr ts) < size (JObj kvs)"
    using entry_in_measure [OF assms(1)] by simp
  moreover have "size t < Suc (size_list size ts)"
    using assms(2) by (rule size_find_less)
  moreover have "size (orString t) \<le> size t"
    by (cases t) (auto simp: orString_def)
  ultimately show ?thesis by simp
qed

function (sequential) traverse :: "json \<Rightarrow> json" where
  "traverse (JArr xs) = JArr (map traverse xs)"
| "traverse (JObj kvs) =
     JObj (map (\<lambda>(key, v).
                  (key,
                   if key = ''type'' then
                     (case v of
                        JArr ts \<Rightarrow>
                          (case find (\<lambda>t. t \<noteq> JStr ''null'') ts of
                             Some t \<Rightarrow> traverse (orString t)
                           | None \<Rightarrow> JStr ''string'')
                      | _ \<Rightarrow> traverse v)
                   else traverse v))
             (filter (\<lambda>(key, v). key \<noteq> ''additionalProperties'') kvs))"
| "traverse v = v"
  by pat_completeness auto

termination
proof (relation "measure size", goal_cases)
  case 1
  show ?case by simp
next
  case (2 xs x)
  then show ?case by (induction xs) auto
next
  case (3 kvs x xa y)
  then show ?case by (auto intro: entry_in_measure)
next
  case (4 kvs x xa y x2)
  then show ?case by (auto intro: entry_in_measure)
next
  case (5 kvs x xa y x3)
  then show ?case by (auto intro: entry_in_measure)
next
  case (6 kvs x xa y x4)
  then show ?case by (auto intro: entry_in_measure)
next
  case (7 kvs x xa y ts t)
  then have "(''type'', JArr ts) \<in> set kvs"
    and "find (\<lambda>t. t \<noteq> JStr ''null'') ts = Some t" by auto
  then show ?case by (rule chosen_in_measure)
next
  case (8 kvs x xa y x6)
  then have "(xa, y) \<in> set kvs" by auto
  then show ?case by (rule entry_in_measure)
next
  case (9 kvs x xa y)
  then have "(xa, y) \<in> set kvs" by auto
  then show ?case by (rule entry_in_measure)
qed

definition sanitizeJsonSchema :: "(string \<times> json) list \<Rightarrow> json" where
  "sanitizeJsonSchema schema =
     (if \<not> isTruthy (getProp ''type'' schema)
      then traverse (JObj (setProp ''type'' (JStr ''object'') schema))
      else if getProp ''type'' schema \<noteq> Some (JStr ''object'')
      then JObj [(''type'', JStr ''object''),
                 (''properties'', JObj [(''value'', JObj schema)]),
                 (''required'', JArr [JStr ''value''])]
      else traverse (JObj schema))"


section \<open>Canonical requests\<close>

text \<open>
  A part of a turn: a bare string, \<open>{text, thought?}\<close>, \<open>{functionCall, thoughtSignature?}\<close>,
  \<open>{functionResponse}\<close>, or a part of another kind (inline data and the like).
\<close>

record FunctionCallData =
  fcId :: "string option"
  fcName :: "string option"
  fcArgs :: "json option"

record FunctionResponseData =
  frId :: "string option"
  frResponse :: json

datatype RequestPart =
    PartString string
  | PartText string bool
  | PartFunctionCall FunctionCallData "json option"
  | PartFunctionResponse FunctionResponseData
  | PartOther

record Content =
  contentRole :: "string option"
  contentParts :: "RequestPart list option"

text \<open>An entry of \<open>request.contents\<close>: a string, a turn, or a bare part.\<close>

datatype ContentItem = ItemString string | ItemContent Content | ItemPart RequestPart

datatype ContentListUnion = ContentArray "ContentItem list" | ContentSingle ContentItem

definition partsOf :: "Content \<Rightarrow> RequestPart list" where
  "partsOf c = (case contentParts c of None \<Rightarrow> [] | Some ps \<Rightarrow> ps)"

text \<open>\<open>xs.join(sep)\<close>\<close>

fun join :: "string \<Rightarrow> string list \<Rightarrow> string" where
  "join sep [] = []"
| "join sep [x] = x"
| "join sep (x # y # ys) = x @ sep @ join sep (y # ys)"

text \<open>\<open>typeof r === 'string' ? r : JSON.stringify(r)\<close>\<close>

definition responseText :: "json_stringify \<Rightarrow> json \<Rightarrow> string" where
  "responseText stringify r = (case r of JStr s \<Rightarrow> s | _ \<Rightarrow> stringify r)"

section \<open>Anthropic adapter\<close>

datatype AnthropicBlock =
    TextBlock string
  | ToolUseBlock string string json
  | ToolResultBlock string string

datatype AnthropicRole = AnthropicUser | AnthropicAssistant

datatype AnthropicContent = PlainContent string | BlockContent "AnthropicBlock list"

record AnthropicMessageParam =
  paramRole :: AnthropicRole
  paramContent :: AnthropicContent

text \<open>
  \<open>processContentParts\<close>. \<open>now\<close> is the decimal text of \<open>Date.now()\<close>, read when a function
  call has no id. The two loops: the blocks of the parts in order, then one
  \<open>tool_result\<close> per function response.
\<close>

definition processPart :: "string \<Rightarrow> RequestPart \<Rightarrow> AnthropicBlock list" where
  "processPart now part =
     (case part of
        PartString s \<Rightarrow> [TextBlock s]
      | PartText t thought \<Rightarrow> if t \<noteq> [] then [TextBlock t] else []
      | PartFunctionCall fc sig \<Rightarrow>
          [ToolUseBlock (if present (fcId fc) then orEmpty (fcId fc) else ''call_'' @ now)
             (orEmpty (fcName fc))
             (case fcArgs fc of Some a \<Rightarrow> if truthy a then a else emptyObject
                              | None \<Rightarrow> emptyObject)]
      | PartFunctionResponse fr \<Rightarrow> []
      | PartOther \<Rightarrow> [])"

definition functionResponsesOf :: "RequestPart list \<Rightarrow> FunctionResponseData list" where
  "functionResponsesOf ps =
     concat (map (\<lambda>p. case p of PartFunctionResponse fr \<Rightarrow> [fr] | _ \<Rightarrow> []) ps)"

definition processContentParts ::
    "json_stringify \<Rightarrow> string \<Rightarrow> Content \<Rightarrow> AnthropicRole \<times> AnthropicBlock list" where
  "processContentParts stringify now c =
     (if contentRole c = Some ''model'' then AnthropicAssistant else AnthropicUser,
      concat (map (processPart now) (partsOf c))
      @ map (\<lambda>fr. ToolResultBlock (orEmpty (frId fr)) (responseText stringify (frResponse fr)))
          (functionResponsesOf (partsOf c)))"

text \<open>\<open>ensureAlternatingMessages\<close>: the loop, then the leading user message.\<close>

definition asBlocks :: "AnthropicContent \<Rightarrow> AnthropicBlock list" where
  "asBlocks c = (case c of PlainContent s \<Rightarrow> [TextBlock s] | BlockContent bs \<Rightarrow> bs)"

definition mergeAnthropic :: "AnthropicMessageParam \<Rightarrow> AnthropicMessageParam \<Rightarrow> AnthropicMessageParam" where
  "mergeAnthropic lastMsg msg =
     (case (paramContent lastMsg, paramContent msg) of
        (PlainContent a, PlainContent b) \<Rightarrow>
          lastMsg\<lparr> paramContent := PlainContent (a @ [CHR 0x0A] @ b) \<rparr>
      | (a, b) \<Rightarrow> lastMsg\<lparr> paramContent := BlockContent (asBlocks a @ asBlocks b) \<rparr>)"

fun alternateLoop ::
    "AnthropicMessageParam list \<Rightarrow> AnthropicMessageParam list \<Rightarrow> AnthropicMessageParam list" where
  "alternateLoop result [] = result"
| "alternateLoop result (msg # msgs) =
     (if result \<noteq> [] \<and> paramRole (last result) = paramRole msg
      then alternateLoop (butlast result @ [mergeAnthropic (last result) msg]) msgs
      else alternateLoop (result @ [msg]) msgs)"

definition ensureAlternatingMessages ::
    "AnthropicMessageParam list \<Rightarrow> AnthropicMessageParam list" where
  "ensureAlternatingMessages messages =
     (let result = alternateLoop [] messages in
      case result of
        [] \<Rightarrow> []
      | first # _ \<Rightarrow>
          if paramRole first \<noteq> AnthropicUser
          then \<lparr> paramRole = AnthropicUser, paramContent = PlainContent ''Continue.'' \<rparr> # result
          else result)"

text \<open>
  \<open>extractSystemInstruction\<close>. On the parts of a turn it evaluates \<open>'text' in p\<close>, which
  throws a TypeError when \<open>p\<close> is a string.
\<close>

datatype request_error = InOperatorTypeError | ToolResolutionError string | ApiError string

datatype SystemInstruction =
    SystemString string
  | SystemContent Content
  | SystemArray "ContentItem list"

fun partTextOrThrow :: "RequestPart \<Rightarrow> request_error + string" where
  "partTextOrThrow (PartString s) = Inl InOperatorTypeError"
| "partTextOrThrow (PartText t thought) = Inr t"
| "partTextOrThrow _ = Inr []"

fun collect :: "('a \<Rightarrow> request_error + 'b) \<Rightarrow> 'a list \<Rightarrow> request_error + 'b list" where
  "collect f [] = Inr []"
| "collect f (x # xs) =
     (case f x of
        Inl e \<Rightarrow> Inl e
      | Inr y \<Rightarrow> (case collect f xs of Inl e \<Rightarrow> Inl e | Inr ys \<Rightarrow> Inr (y # ys)))"

definition contentTextOrThrow :: "Content \<Rightarrow> request_error + string" where
  "contentTextOrThrow c =
     (case contentParts c of
        None \<Rightarrow> Inr []
      | Some ps \<Rightarrow>
          (case collect partTextOrThrow ps of
             Inl e \<Rightarrow> Inl e
           | Inr ts \<Rightarrow> Inr (join [CHR 0x0A] ts)))"

definition itemTextOrThrow :: "ContentItem \<Rightarrow> request_error + string" where
  "itemTextOrThrow item =
     (case item of
        ItemString s \<Rightarrow> Inr s
      | ItemContent c \<Rightarrow> contentTextOrThrow c
      | ItemPart p \<Rightarrow> Inr [])"

definition extractSystemInstruction :: "SystemInstruction \<Rightarrow> request_error + string" where
  "extractSystemInstruction si =
     (case si of
        SystemString s \<Rightarrow> Inr s
      | SystemArray items \<Rightarrow>
          (case collect itemTextOrThrow items of
             Inl e \<Rightarrow> Inl e
           | Inr ts \<Rightarrow> Inr (join [CHR 0x0A] ts))
      | SystemContent c \<Rightarrow> contentTextOrThrow c)"

record FunctionDeclaration =
  declName :: "string option"
  declDescription :: "string option"
  declParameters :: "json option"

text \<open>
  A tool of the request: its declarations, or a callable tool with the outcome of
  awaiting \<open>tool.tool()\<close>.
\<close>

datatype Tool =
    PlainTool "FunctionDeclaration list option"
  | CallableTool "request_error + FunctionDeclaration list option"

record SamplingParams =
  spTemperature :: "rat option"
  spMaxTokens :: "nat option"
  spTopP :: "rat option"

record AnthropicRequest =
  requestContents :: ContentListUnion
  requestSystemInstruction :: "SystemInstruction option"
  requestTools :: "Tool list option"
  requestTemperature :: "rat option"
  requestMaxOutputTokens :: "nat option"
  requestTopP :: "rat option"

record AnthropicTool =
  anthropicToolName :: string
  anthropicToolDescription :: string
  anthropicToolInputSchema :: json

record MessageCreateParams =
  createModel :: string
  createMaxTokens :: nat
  createMessages :: "AnthropicMessageParam list"
  createSystem :: "string option"
  createTemperature :: "rat option"
  createTopP :: "rat option"
  createTools :: "AnthropicTool list option"

definition systemInstructionTruthy :: "SystemInstruction option \<Rightarrow> bool" where
  "systemInstructionTruthy si =
     (case si of None \<Rightarrow> False | Some (SystemString s) \<Rightarrow> s \<noteq> [] | Some _ \<Rightarrow> True)"

definition convertItem ::
    "json_stringify \<Rightarrow> string \<Rightarrow> ContentItem \<Rightarrow> AnthropicMessageParam list" where
  "convertItem stringify now item =
     (case item of
        ItemString s \<Rightarrow> [\<lparr> paramRole = AnthropicUser, paramContent = PlainContent s \<rparr>]
      | ItemContent c \<Rightarrow>
          if contentRole c \<noteq> None \<and> contentParts c \<noteq> None then
            (let (r, contentBlocks) = processContentParts stringify now c in
             if contentBlocks \<noteq> []
             then [\<lparr> paramRole = r, paramContent = BlockContent contentBlocks \<rparr>] else [])
          else []
      | ItemPart p \<Rightarrow> [])"

definition convertToAnthropicFormat ::
    "json_stringify \<Rightarrow> string \<Rightarrow> AnthropicRequest
      \<Rightarrow> request_error + string option \<times> AnthropicMessageParam list" where
  "convertToAnthropicFormat stringify now request =
     (case (if systemInstructionTruthy (requestSystemInstruction request)
            then (case requestSystemInstruction request of
                    Some si \<Rightarrow> map_sum id Some (extractSystemInstruction si)
                  | None \<Rightarrow> Inr None)
            else Inr None) of
        Inl e \<Rightarrow> Inl e
      | Inr systemMessage \<Rightarrow>
          Inr (systemMessage,
               ensureAlternatingMessages
                 (case requestContents request of
                    ContentArray items \<Rightarrow> concat (map (convertItem stringify now) items)
                  | ContentSingle _ \<Rightarrow> [])))"

text \<open>\<open>convertGeminiToolsToAnthropic\<close>\<close>

definition declarationsToAnthropic :: "FunctionDeclaration list option \<Rightarrow> AnthropicTool list" where
  "declarationsToAnthropic decls =
     (case decls of
        None \<Rightarrow> []
      | Some ds \<Rightarrow>
          concat (map (\<lambda>func.
                         if present (declName func) then
                           [\<lparr> anthropicToolName = orEmpty (declName func),
                              anthropicToolDescription = orEmpty (declDescription func),
                              anthropicToolInputSchema =
                                (if isTruthy (declParameters func)
                                 then (case declParameters func of Some ps \<Rightarrow> ps
                                       | None \<Rightarrow> emptyObject)
                                 else JObj [(''type'', JStr ''object''), (''properties'', JObj [])]) \<rparr>]
                         else [])
                      ds))"

fun convertGeminiToolsToAnthropic :: "Tool list \<Rightarrow> request_error + AnthropicTool list" where
  "convertGeminiToolsToAnthropic [] = Inr []"
| "convertGeminiToolsToAnthropic (tool # tools) =
     (case (case tool of PlainTool ds \<Rightarrow> Inr ds | CallableTool outcome \<Rightarrow> outcome) of
        Inl e \<Rightarrow> Inl e
      | Inr ds \<Rightarrow>
          (case convertGeminiToolsToAnthropic tools of
             Inl e \<Rightarrow> Inl e
           | Inr rest \<Rightarrow> Inr (declarationsToAnthropic ds @ rest)))"

text \<open>\<open>buildSamplingParameters\<close>: the adapter's configured values come first.\<close>

definition buildSamplingParameters :: "SamplingParams option \<Rightarrow> AnthropicRequest \<Rightarrow> SamplingParams" where
  "buildSamplingParameters configured request =
     \<lparr> spTemperature =
         (case Option.bind configured spTemperature of
            Some t \<Rightarrow> Some t | None \<Rightarrow> requestTemperature request),
       spMaxTokens =
         (case Option.bind configured spMaxTokens of
            Some t \<Rightarrow> Some t | None \<Rightarrow> requestMaxOutputTokens request),
       spTopP =
         (case Option.bind configured spTopP of
            Some t \<Rightarrow> Some t | None \<Rightarrow> requestTopP request) \<rparr>"

datatype AnthropicResponseBlock =
    ResponseText string
  | ResponseToolUse string string json
  | ResponseOtherBlock

record AnthropicMessage =
  responseContent :: "AnthropicResponseBlock list"
  responseStopReason :: "string option"
  responseInputTokens :: int
  responseOutputTokens :: int

definition anthropic_convertToGeminiFormat :: "AnthropicMessage \<Rightarrow> GenerateContentResponse" where
  "anthropic_convertToGeminiFormat anthropicResponse =
     \<lparr> candidates =
         [\<lparr> parts =
              concat (map (\<lambda>block. case block of
                                      ResponseText t \<Rightarrow> [Text t]
                                    | ResponseToolUse i n inp \<Rightarrow> [FunctionCall (Some i) n inp None]
                                    | ResponseOtherBlock \<Rightarrow> [])
                          (responseContent anthropicResponse)),
            finishReason = Member (anthropic_mapStopReason (responseStopReason anthropicResponse)) \<rparr>],
       usageMetadata =
         Some \<lparr> promptTokenCount = responseInputTokens anthropicResponse,
                candidatesTokenCount = responseOutputTokens anthropicResponse,
                totalTokenCount =
                  responseInputTokens anthropicResponse + responseOutputTokens anthropicResponse,
                cachedContentTokenCount = None \<rparr> \<rparr>"

text \<open>
  What a call reads from outside the repository: the serialiser, the clock, the model
  name and sampling parameters of the adapter's configuration, and the Anthropic client
  (\<open>Inl\<close>: the request is rejected).
\<close>

record AnthropicEnv =
  envStringify :: json_stringify
  envNow :: string
  envModel :: string
  envSamplingParams :: "SamplingParams option"
  envCreate :: "MessageCreateParams \<Rightarrow> request_error + AnthropicMessage"

text \<open>
  \<open>generateContent\<close>: \<open>Inl\<close> is a rejected promise. The prompt id is not read. The
  \<open>catch\<close> block logs and rethrows the same error.
\<close>

definition generateContent ::
    "AnthropicEnv \<Rightarrow> AnthropicRequest \<Rightarrow> string \<Rightarrow> request_error + GenerateContentResponse" where
  "generateContent env request userPromptId =
     (case convertToAnthropicFormat (envStringify env) (envNow env) request of
        Inl e \<Rightarrow> Inl e
      | Inr (systemMessage, messages) \<Rightarrow>
          (let samplingParams = buildSamplingParameters (envSamplingParams env) request;
               createParams =
                 \<lparr> createModel = envModel env,
                   createMaxTokens =
                     (case spMaxTokens samplingParams of
                        Some n \<Rightarrow> if n \<noteq> 0 then n else 4096 | None \<Rightarrow> 4096),
                   createMessages = messages,
                   createSystem =
                     (if present systemMessage then systemMessage else None),
                   createTemperature = spTemperature samplingParams,
                   createTopP = spTopP samplingParams,
                   createTools = None \<rparr>
           in case (case requestTools request of
                      None \<Rightarrow> Inr createParams
                    | Some tools \<Rightarrow>
                        (case convertGeminiToolsToAnthropic tools of
                           Inl e \<Rightarrow> Inl e
                         | Inr ts \<Rightarrow> Inr (createParams\<lparr> createTools := Some ts \<rparr>))) of
                Inl e \<Rightarrow> Inl e
              | Inr params \<Rightarrow>
                  (case envCreate env params of
                     Inl e \<Rightarrow> Inl e
                   | Inr completion \<Rightarrow> Inr (anthropic_convertToGeminiFormat completion))))"

text \<open>
  \<open>generateContentStream\<close> returns the generator \<open>streamWrapper\<close>. A run of a generator
  is the list of values it yields and, when it ends by throwing, the error.
\<close>

definition streamWrapper ::
    "AnthropicEnv \<Rightarrow> AnthropicRequest \<Rightarrow> string
      \<Rightarrow> GenerateContentResponse list \<times> request_error option" where
  "streamWrapper env request userPromptId =
     (case generateContent env request userPromptId of
        Inl e \<Rightarrow> ([], Some e)
      | Inr response \<Rightarrow> ([response], None))"

definition generateContentStream ::
    "AnthropicEnv \<Rightarrow> AnthropicRequest \<Rightarrow> string
      \<Rightarrow> GenerateContentResponse list \<times> request_error option" where
  "generateContentStream env request userPromptId = streamWrapper env request userPromptId"


section \<open>OpenAI adapter: converting the request\<close>

definition REASONING_DETAILS_MARKER :: string where
  "REASONING_DETAILS_MARKER = ''__OPENROUTER_REASONING_DETAILS__:''"

text \<open>\<open>s.includes(m)\<close> and \<open>s.split('\n')\<close>.\<close>

fun stringIncludes :: "string \<Rightarrow> string \<Rightarrow> bool" where
  "stringIncludes [] m = (m = [])"
| "stringIncludes (c # cs) m = (startsWith (c # cs) m \<or> stringIncludes cs m)"

fun splitLines :: "string \<Rightarrow> string list" where
  "splitLines [] = [[]]"
| "splitLines (c # cs) =
     (if c = CHR 0x0A then [] # splitLines cs
      else (case splitLines cs of
              l # ls \<Rightarrow> (c # l) # ls
            | [] \<Rightarrow> [[c]]))"

definition filterReasoningDetailsMarker :: "string \<Rightarrow> string" where
  "filterReasoningDetailsMarker txt =
     (if \<not> stringIncludes txt REASONING_DETAILS_MARKER then txt
      else trim (join [CHR 0x0A]
                  (filter (\<lambda>line. \<not> stringIncludes line REASONING_DETAILS_MARKER) (splitLines txt))))"

text \<open>
  The loop over the parts of one turn fills three arrays and \<open>reasoningDetails\<close>
  (\<open>None\<close>: still \<open>null\<close>).
\<close>

record PartBuckets =
  textParts :: "string list"
  functionCalls :: "FunctionCallData list"
  functionResponses :: "FunctionResponseData list"
  reasoningDetails :: "json option"

definition emptyBuckets :: PartBuckets where
  "emptyBuckets =
     \<lparr> textParts = [], functionCalls = [], functionResponses = [], reasoningDetails = None \<rparr>"

definition bucketPart :: "json_parse \<Rightarrow> PartBuckets \<Rightarrow> RequestPart \<Rightarrow> PartBuckets" where
  "bucketPart parse b part =
     (case part of
        PartString s \<Rightarrow>
          (let cleanedString = filterReasoningDetailsMarker s in
           if cleanedString \<noteq> [] then b\<lparr> textParts := textParts b @ [cleanedString] \<rparr> else b)
      | PartText t thought \<Rightarrow>
          if t = [] then b
          else if thought \<and> startsWith t REASONING_DETAILS_MARKER then
            (case parse (drop (length REASONING_DETAILS_MARKER) t) of
               Some v \<Rightarrow> b\<lparr> reasoningDetails := Some v \<rparr>
             | None \<Rightarrow> b)
          else if \<not> thought then
            (let cleanedText = filterReasoningDetailsMarker t in
             if cleanedText \<noteq> [] then b\<lparr> textParts := textParts b @ [cleanedText] \<rparr> else b)
          else b
      | PartFunctionCall fc sig \<Rightarrow>
          (let b1 = b\<lparr> functionCalls := functionCalls b @ [fc] \<rparr> in
           if isTruthy sig \<and> \<not> isTruthy (reasoningDetails b) \<and> isValidThoughtSignature sig
           then b1\<lparr> reasoningDetails := sig \<rparr> else b1)
      | PartFunctionResponse fr \<Rightarrow> b\<lparr> functionResponses := functionResponses b @ [fr] \<rparr>
      | PartOther \<Rightarrow> b)"

text \<open>The decimal text of an array index, for the ids \<open>call_0\<close>, \<open>call_1\<close>, ...\<close>

fun decimal :: "nat \<Rightarrow> string" where
  "decimal n =
     (if n < 10 then [char_of (48 + n)]
      else decimal (n div 10) @ [char_of (48 + n mod 10)])"

declare decimal.simps [simp del]

definition toToolCall :: "json_stringify \<Rightarrow> nat \<Rightarrow> FunctionCallData \<Rightarrow> MessageToolCall" where
  "toToolCall stringify index fc =
     \<lparr> toolCallId = (if present (fcId fc) then orEmpty (fcId fc) else ''call_'' @ decimal index),
       toolCallName = orEmpty (fcName fc),
       toolCallArguments =
         stringify (case fcArgs fc of Some a \<Rightarrow> if truthy a then a else emptyObject
                                    | None \<Rightarrow> emptyObject) \<rparr>"

text \<open>What one turn of \<open>request.contents\<close> (an array) adds to \<open>messages\<close>.\<close>

definition convertTurn ::
    "json_parse \<Rightarrow> json_stringify \<Rightarrow> ContentItem \<Rightarrow> ChatMessage list" where
  "convertTurn parse stringify item =
     (case item of
        ItemString s \<Rightarrow>
          [\<lparr> role = RoleUser, content = ContentString s, tool_calls = None, tool_call_id = None,
             reasoning_details = None, reasoning_content = None \<rparr>]
      | ItemPart p \<Rightarrow> []
      | ItemContent c \<Rightarrow>
          if contentRole c = None \<or> contentParts c = None then []
          else
            (let b = foldl (bucketPart parse) emptyBuckets (partsOf c);
                 details = (if isTruthy (reasoningDetails b) then reasoningDetails b else None)
             in if functionResponses b \<noteq> [] then
                  map (\<lambda>fr. \<lparr> role = RoleTool,
                               content = ContentString (responseText stringify (frResponse fr)),
                               tool_calls = None, tool_call_id = Some (orEmpty (frId fr)),
                               reasoning_details = None, reasoning_content = None \<rparr>)
                      (functionResponses b)
                else if contentRole c = Some ''model'' \<and> functionCalls b \<noteq> [] then
                  [\<lparr> role = RoleAssistant,
                     content = (if join [CHR 0x0A] (textParts b) \<noteq> []
                                then ContentString (join [CHR 0x0A] (textParts b))
                                else ContentNull),
                     tool_calls =
                       Some (map (\<lambda>(index, fc). toToolCall stringify index fc)
                               (zip [0 ..< length (functionCalls b)] (functionCalls b))),
                     tool_call_id = None, reasoning_details = details,
                     reasoning_content = None \<rparr>]
                else if join [CHR 0x0A] (textParts b) \<noteq> [] then
                  [\<lparr> role = (if contentRole c = Some ''model'' then RoleAssistant else RoleUser),
                     content = ContentString (join [CHR 0x0A] (textParts b)),
                     tool_calls = None, tool_call_id = None,
                     reasoning_details =
                       (if contentRole c = Some ''model'' then details else None),
                     reasoning_content = None \<rparr>]
                else []))"

text \<open>
  \<open>typeof p === 'string' ? p : 'text' in p ? p.text : ''\<close>, which the branches for a
  single \<open>Content\<close> and for the system instruction map over the parts.
\<close>

definition partTextOrEmpty :: "RequestPart \<Rightarrow> string" where
  "partTextOrEmpty p = (case p of PartString s \<Rightarrow> s | PartText t thought \<Rightarrow> t | _ \<Rightarrow> [])"

definition joinedPartTexts :: "Content \<Rightarrow> string" where
  "joinedPartTexts c =
     (case contentParts c of None \<Rightarrow> [] | Some ps \<Rightarrow> join [CHR 0x0A] (map partTextOrEmpty ps))"

definition convertSingleContents ::
    "ContentItem \<Rightarrow> ChatMessage list" where
  "convertSingleContents item =
     (case item of
        ItemString s \<Rightarrow>
          if s = [] then []
          else if filterReasoningDetailsMarker s \<noteq> [] then
            [\<lparr> role = RoleUser, content = ContentString (filterReasoningDetailsMarker s),
               tool_calls = None, tool_call_id = None, reasoning_details = None,
               reasoning_content = None \<rparr>]
          else []
      | ItemPart p \<Rightarrow> []
      | ItemContent c \<Rightarrow>
          if contentRole c = None \<or> contentParts c = None then []
          else if filterReasoningDetailsMarker (joinedPartTexts c) \<noteq> [] then
            [\<lparr> role = (if contentRole c = Some ''model'' then RoleAssistant else RoleUser),
               content = ContentString (filterReasoningDetailsMarker (joinedPartTexts c)),
               tool_calls = None, tool_call_id = None, reasoning_details = None,
               reasoning_content = None \<rparr>]
          else [])"

definition systemText :: "SystemInstruction \<Rightarrow> string" where
  "systemText si =
     (case si of
        SystemString s \<Rightarrow> s
      | SystemContent c \<Rightarrow> joinedPartTexts c
      | SystemArray items \<Rightarrow>
          join [CHR 0x0A]
            (map (\<lambda>item. case item of
                             ItemString s \<Rightarrow> s
                           | ItemContent c \<Rightarrow> joinedPartTexts c
                           | ItemPart p \<Rightarrow> [])
                 items))"

text \<open>\<open>isDeepSeekReasonerModel\<close> and \<open>addReasoningContentForDeepSeek\<close>.\<close>

definition isDeepSeekReasonerModel :: "string \<Rightarrow> bool" where
  "isDeepSeekReasonerModel model =
     (stringIncludes (toLowerCase model) ''deepseek-reasoner''
      \<or> stringIncludes (toLowerCase model) ''deepseek-r1'')"

definition addReasoningContentForDeepSeek :: "ChatMessage list \<Rightarrow> ChatMessage list" where
  "addReasoningContentForDeepSeek messages =
     map (\<lambda>m. if role m = RoleAssistant then m\<lparr> reasoning_content := Some [] \<rparr> else m) messages"

text \<open>The messages before the hygiene pass, and \<open>convertToOpenAIFormat\<close>.\<close>

definition rawMessages ::
    "json_parse \<Rightarrow> json_stringify \<Rightarrow> SystemInstruction option \<Rightarrow> ContentListUnion
      \<Rightarrow> ChatMessage list" where
  "rawMessages parse stringify systemInstruction contents =
     (case systemInstruction of
        None \<Rightarrow> []
      | Some si \<Rightarrow>
          if systemInstructionTruthy systemInstruction \<and> systemText si \<noteq> [] then
            [\<lparr> role = RoleSystem, content = ContentString (systemText si), tool_calls = None,
               tool_call_id = None, reasoning_details = None, reasoning_content = None \<rparr>]
          else [])
     @ (case contents of
          ContentArray items \<Rightarrow> concat (map (convertTurn parse stringify) items)
        | ContentSingle item \<Rightarrow> convertSingleContents item)"

definition convertToOpenAIFormat ::
    "json_parse \<Rightarrow> json_stringify \<Rightarrow> string \<Rightarrow> SystemInstruction option \<Rightarrow> ContentListUnion
      \<Rightarrow> ChatMessage list" where
  "convertToOpenAIFormat parse stringify model systemInstruction contents =
     (let mergedMessages = hygienePass (rawMessages parse stringify systemInstruction contents)
      in if isDeepSeekReasonerModel model then addReasoningContentForDeepSeek mergedMessages
         else mergedMessages)"

section \<open>Bedrock adapter: converting the turns of a request\<close>

datatype BedrockContentBlock =
    BedrockText string
  | BedrockToolUse string string json
  | BedrockToolResult string string

record BedrockMessage =
  bedrockRole :: AnthropicRole
  bedrockContent :: "BedrockContentBlock list"

text \<open>
  The three arrays that the loop over the parts fills in \<open>convertToBedrockFormat\<close>
  (the adapter with \<open>streamingToolCalls\<close>). \<open>now\<close> is the decimal text of \<open>Date.now()\<close>, read
  when a function call has no id.
\<close>

definition bedrockContentBlocks :: "RequestPart list \<Rightarrow> BedrockContentBlock list" where
  "bedrockContentBlocks ps =
     concat (map (\<lambda>p. case p of
                         PartString s \<Rightarrow> [BedrockText s]
                       | PartText t thought \<Rightarrow>
                           if t \<noteq> [] \<and> \<not> thought then [BedrockText t] else []
                       | _ \<Rightarrow> [])
                 ps)"

definition bedrockToolResults :: "json_stringify \<Rightarrow> RequestPart list \<Rightarrow> BedrockContentBlock list" where
  "bedrockToolResults stringify ps =
     concat (map (\<lambda>p. case p of
                         PartFunctionResponse fr \<Rightarrow>
                           [BedrockToolResult (orEmpty (frId fr))
                              (responseText stringify (frResponse fr))]
                       | _ \<Rightarrow> [])
                 ps)"

definition bedrockFunctionCalls :: "RequestPart list \<Rightarrow> FunctionCallData list" where
  "bedrockFunctionCalls ps =
     concat (map (\<lambda>p. case p of PartFunctionCall fc sig \<Rightarrow> [fc] | _ \<Rightarrow> []) ps)"

definition bedrockToolUse :: "string \<Rightarrow> FunctionCallData \<Rightarrow> BedrockContentBlock" where
  "bedrockToolUse now fc =
     BedrockToolUse (if present (fcId fc) then orEmpty (fcId fc) else ''tool_'' @ now)
       (orEmpty (fcName fc))
       (case fcArgs fc of Some a \<Rightarrow> if truthy a then a else emptyObject | None \<Rightarrow> emptyObject)"

definition bedrockConvertTurn ::
    "json_stringify \<Rightarrow> string \<Rightarrow> ContentItem \<Rightarrow> BedrockMessage list" where
  "bedrockConvertTurn stringify now item =
     (case item of
        ItemString s \<Rightarrow> [\<lparr> bedrockRole = AnthropicUser, bedrockContent = [BedrockText s] \<rparr>]
      | ItemPart p \<Rightarrow> []
      | ItemContent c \<Rightarrow>
          if contentRole c = None \<or> contentParts c = None then []
          else if bedrockToolResults stringify (partsOf c) \<noteq> [] then
            [\<lparr> bedrockRole = AnthropicUser,
               bedrockContent = bedrockToolResults stringify (partsOf c) \<rparr>]
          else if contentRole c = Some ''model'' \<and> bedrockFunctionCalls (partsOf c) \<noteq> [] then
            [\<lparr> bedrockRole = AnthropicAssistant,
               bedrockContent =
                 bedrockContentBlocks (partsOf c)
                 @ map (bedrockToolUse now) (bedrockFunctionCalls (partsOf c)) \<rparr>]
          else if bedrockContentBlocks (partsOf c) \<noteq> [] then
            [\<lparr> bedrockRole =
                 (if contentRole c = Some ''model'' then AnthropicAssistant else AnthropicUser),
               bedrockContent = bedrockContentBlocks (partsOf c) \<rparr>]
          else [])"

definition bedrockConvertContents ::
    "json_stringify \<Rightarrow> string \<Rightarrow> ContentListUnion \<Rightarrow> BedrockMessage list" where
  "bedrockConvertContents stringify now contents =
     (case contents of
        ContentArray items \<Rightarrow> concat (map (bedrockConvertTurn stringify now) items)
      | ContentSingle (ItemString s) \<Rightarrow>
          if s = [] then []
          else [\<lparr> bedrockRole = AnthropicUser, bedrockContent = [BedrockText s] \<rparr>]
      | ContentSingle (ItemContent c) \<Rightarrow>
          if contentRole c = None \<or> contentParts c = None then []
          else if joinedPartTexts c \<noteq> [] then
            [\<lparr> bedrockRole =
                 (if contentRole c = Some ''model'' then AnthropicAssistant else AnthropicUser),
               bedrockContent = [BedrockText (joinedPartTexts c)] \<rparr>]
          else []
      | ContentSingle (ItemPart p) \<Rightarrow> [])"

section \<open>Stream shapes and example values used in the statements\<close>

text \<open>
  The events of a Bedrock tool-use block, and the chunks of an OpenAI stream: a chunk
  that carries one tool-call delta, the delta that opens a call (id and name), a delta
  with an argument fragment, the chunk with the finish reason, a chunk with text.
\<close>

definition toolFragment :: "nat \<Rightarrow> string \<Rightarrow> ConverseStreamOutput" where
  "toolFragment i f = ContentBlockDeltaEvent (Some (DeltaToolUse (Some f))) (Some i)"

definition textDelta :: "nat option \<Rightarrow> string \<Rightarrow> ConverseStreamOutput" where
  "textDelta idx t = ContentBlockDeltaEvent (Some (DeltaText t)) idx"

fun isBlockStop :: "ConverseStreamOutput \<Rightarrow> bool" where
  "isBlockStop (ContentBlockStop idx) = True"
| "isBlockStop _ = False"

definition chunkOf :: "ChunkChoice \<Rightarrow> ChatCompletionChunk" where
  "chunkOf choice = \<lparr> chunkChoice = Some choice, chunkReasoningDetails = None, chunkUsage = None \<rparr>"

definition toolCallChunk :: "ToolCallDelta \<Rightarrow> ChatCompletionChunk" where
  "toolCallChunk d =
     chunkOf \<lparr> deltaContent = None, deltaToolCalls = Some [d], chunkFinishReason = None,
               deltaReasoningDetails = None, choiceReasoningDetails = None \<rparr>"

definition openingDelta :: "nat \<Rightarrow> string option \<Rightarrow> string \<Rightarrow> ToolCallDelta" where
  "openingDelta i cid nm =
     \<lparr> deltaIndex = Some i, deltaId = cid, deltaFunctionName = Some nm,
       deltaFunctionArguments = None, deltaThoughtSignature = None,
       deltaFunctionThoughtSignature = None \<rparr>"

definition fragmentDelta :: "nat \<Rightarrow> string \<Rightarrow> ToolCallDelta" where
  "fragmentDelta i f =
     \<lparr> deltaIndex = Some i, deltaId = None, deltaFunctionName = None,
       deltaFunctionArguments = Some f, deltaThoughtSignature = None,
       deltaFunctionThoughtSignature = None \<rparr>"

definition finishChunk :: "string \<Rightarrow> ChatCompletionChunk" where
  "finishChunk reason =
     chunkOf \<lparr> deltaContent = None, deltaToolCalls = None, chunkFinishReason = Some reason,
               deltaReasoningDetails = None, choiceReasoningDetails = None \<rparr>"

definition textChunk :: "string \<Rightarrow> ChatCompletionChunk" where
  "textChunk t =
     chunkOf \<lparr> deltaContent = Some t, deltaToolCalls = None, chunkFinishReason = None,
               deltaReasoningDetails = None, choiceReasoningDetails = None \<rparr>"

definition partsResponse :: "Part list \<Rightarrow> finish_value \<Rightarrow> GenerateContentResponse" where
  "partsResponse ps fr =
     \<lparr> candidates = [\<lparr> parts = ps, finishReason = fr \<rparr>], usageMetadata = None \<rparr>"

definition syntheticTool :: "json \<Rightarrow> FunctionTool" where
  "syntheticTool schema =
     \<lparr> toolFunctionName = ''respond_in_schema'',
       toolFunctionDescription = ''Provide the response in the specified JSON schema format'',
       toolFunctionParameters = schema \<rparr>"


text \<open>
  Stand-ins for the built-ins on the few texts of the examples: a parser, a repair
  that always gives up, a serialiser.
\<close>

definition exampleParse :: json_parse where
  \<open>exampleParse s =
     (if s = ''{"path": "/src"}'' then Some (JObj [(''path'', JStr ''/src'')])
      else if s = ''{"x":5}'' then Some (JObj [(''x'', JNum (Finite 5))])
      else if s = ''{}'' then Some (JObj [])
      else None)\<close>

definition noRepair :: json_repair where
  "noRepair s = None"

definition exampleStringify :: json_stringify where
  \<open>exampleStringify v =
     (if v = JObj [(''x'', JNum (Finite 5))] then ''{"x":5}''
      else if v = JObj [] then ''{}''
      else ''null'')\<close>

definition freshBedrockState :: BedrockStreamState where
  "freshBedrockState =
     \<lparr> streamingToolCalls = Map.empty, inputTokenCount = 0, outputTokenCount = 0 \<rparr>"

definition freshOpenAIState :: OpenAIStreamState where
  "freshOpenAIState = \<lparr> accumulatedCalls = [], streamingReasoningDetails = None \<rparr>"


definition exampleSchema :: json where
  "exampleSchema =
     JObj [(''type'', JStr ''object''),
           (''properties'', JObj [(''x'', JObj [(''type'', JStr ''integer'')])])]"

definition exampleConfig :: RequestConfig where
  "exampleConfig =
     \<lparr> responseJsonSchema = Some exampleSchema,
       responseMimeType = Some ''application/json'',
       convertedTools = None \<rparr>"

definition exampleCall :: ResponseToolCall where
  \<open>exampleCall =
     \<lparr> callId = ''call_1'', callType = ''function'',
       callFunction = Some \<lparr> fnName = ''respond_in_schema'', fnArguments = ''{"x":5}'',
                             fnThoughtSignature = None \<rparr>,
       callThought_signature = None, callThoughtSignature = None \<rparr>\<close>

definition exampleChoice :: ChatCompletionChoice where
  "exampleChoice =
     \<lparr> choiceMessage = \<lparr> messageContent = None, messageToolCalls = Some [exampleCall],
                         messageReasoningDetails = None \<rparr>,
       choiceFinishReason = Some ''tool_calls'' \<rparr>"

definition exampleCompletion :: ChatCompletion where
  "exampleCompletion = \<lparr> completionChoices = [exampleChoice], completionUsage = None \<rparr>"


section \<open>Notions used in the statements about streams\<close>

text \<open>
  Of an OpenAI chunk: whether it carries a finish reason, the text part it yields, its
  tool-call deltas. Of the deltas of a stream: the index a delta belongs to, the indexes
  in the order in which they first appear, the deltas of one index, and what the deltas
  of one index add up to (the last non-empty id and name, the concatenated argument
  fragments, the last truthy signature). \<open>blockPart\<close> is the part that the claim expects
  for one index; \<open>withoutSignature\<close> drops the thought signature of a part.
\<close>

definition finishes :: "ChatCompletionChunk \<Rightarrow> bool" where
  "finishes chunk =
     (case chunkChoice chunk of Some choice \<Rightarrow> present (chunkFinishReason choice) | None \<Rightarrow> False)"

definition chunkText :: "ChatCompletionChunk \<Rightarrow> Part list" where
  "chunkText chunk =
     (case chunkChoice chunk of
        Some choice \<Rightarrow>
          if present (deltaContent choice) then [Text (orEmpty (deltaContent choice))] else []
      | None \<Rightarrow> [])"

definition chunkDeltas :: "ChatCompletionChunk \<Rightarrow> ToolCallDelta list" where
  "chunkDeltas chunk =
     (case chunkChoice chunk of
        Some choice \<Rightarrow> (case deltaToolCalls choice of Some tcs \<Rightarrow> tcs | None \<Rightarrow> [])
      | None \<Rightarrow> [])"

definition deltaBlock :: "ToolCallDelta \<Rightarrow> nat" where
  "deltaBlock d = indexOrZero (deltaIndex d)"

fun firstOccurrences :: "nat list \<Rightarrow> nat list" where
  "firstOccurrences [] = []"
| "firstOccurrences (x # xs) = x # filter (\<lambda>y. y \<noteq> x) (firstOccurrences xs)"

definition blockDeltas :: "nat \<Rightarrow> ToolCallDelta list \<Rightarrow> ToolCallDelta list" where
  "blockDeltas i ds = filter (\<lambda>d. deltaBlock d = i) ds"

definition lastPresent :: "string option list \<Rightarrow> string option" where
  "lastPresent xs = (if filter present xs = [] then None else last (filter present xs))"

definition deltaSignature :: "ToolCallDelta \<Rightarrow> json option" where
  "deltaSignature d =
     (if isTruthy (deltaThoughtSignature d) then deltaThoughtSignature d
      else if isTruthy (deltaFunctionThoughtSignature d) then deltaFunctionThoughtSignature d
      else None)"

definition lastSignature :: "json option list \<Rightarrow> json option" where
  "lastSignature xs = (if filter isTruthy xs = [] then None else last (filter isTruthy xs))"

definition blockBuffer :: "nat \<Rightarrow> ToolCallDelta list \<Rightarrow> string" where
  "blockBuffer i ds = concat (map (\<lambda>d. orEmpty (deltaFunctionArguments d)) (blockDeltas i ds))"

definition blockName :: "nat \<Rightarrow> ToolCallDelta list \<Rightarrow> string option" where
  "blockName i ds = lastPresent (map deltaFunctionName (blockDeltas i ds))"

definition blockId :: "nat \<Rightarrow> ToolCallDelta list \<Rightarrow> string option" where
  "blockId i ds = lastPresent (map deltaId (blockDeltas i ds))"

definition reassembled :: "ToolCallDelta list \<Rightarrow> nat \<Rightarrow> AccumulatedCall" where
  "reassembled ds i =
     \<lparr> accumulatedId = blockId i ds, accumulatedName = blockName i ds,
       accumulatedArguments = blockBuffer i ds,
       accumulatedThoughtSignature = lastSignature (map deltaSignature (blockDeltas i ds)) \<rparr>"

fun withoutSignature :: "Part \<Rightarrow> Part" where
  "withoutSignature (FunctionCall i n a s) = FunctionCall i n a None"
| "withoutSignature (Text t) = Text t"

definition blockPart ::
    "json_parse \<Rightarrow> json_repair \<Rightarrow> json_stringify \<Rightarrow> bool \<Rightarrow> ToolCallDelta list \<Rightarrow> nat
      \<Rightarrow> Part list" where
  "blockPart parse repair stringify js ds i =
     (if \<not> present (blockName i ds) then []
      else if js \<and> blockName i ds = Some ''respond_in_schema''
      then [Text (stringify (safeJsonParse parse repair (Some (blockBuffer i ds)) emptyObject))]
      else [FunctionCall (blockId i ds) (orEmpty (blockName i ds))
              (safeJsonParse parse repair (Some (blockBuffer i ds)) emptyObject) None])"


text \<open>
  Of a Bedrock event: whether it opens or closes the block \<open>i\<close>, and the argument
  fragment it carries for the block \<open>i\<close>.
\<close>

fun blockBoundary :: "nat \<Rightarrow> ConverseStreamOutput \<Rightarrow> bool" where
  "blockBoundary i (ContentBlockStart (Some toolUse) idx) = (indexOrZero idx = i)"
| "blockBoundary i (ContentBlockStop idx) = (indexOrZero idx = i)"
| "blockBoundary i e = False"

fun fragmentFor :: "nat \<Rightarrow> ConverseStreamOutput \<Rightarrow> string" where
  "fragmentFor i (ContentBlockDeltaEvent (Some (DeltaToolUse inp)) idx) =
     (if indexOrZero idx = i then orEmpty inp else [])"
| "fragmentFor i e = []"

definition blockInput :: "nat \<Rightarrow> ConverseStreamOutput list \<Rightarrow> string" where
  "blockInput i es = concat (map (fragmentFor i) es)"

definition exampleChunks :: "ChatCompletionChunk list" where
  \<open>exampleChunks =
     [textChunk ''Hi'',
      toolCallChunk (openingDelta 0 (Some ''call_1'') ''list_dir''),
      toolCallChunk (openingDelta 1 (Some ''call_2'') ''read_file''),
      toolCallChunk (fragmentDelta 0 ''{"pat''),
      toolCallChunk (fragmentDelta 1 ''{}''),
      toolCallChunk (fragmentDelta 0 ''h": "''),
      toolCallChunk (fragmentDelta 0 ''/src"}'')]\<close>

definition exampleEvents :: "ConverseStreamOutput list" where
  \<open>exampleEvents =
     [toolFragment 0 ''{"pat'', textDelta (Some 1) ''Hi'', toolFragment 0 ''h": "'',
      toolFragment 0 ''/src"}'']\<close>

definition exampleSchemaChunks :: "ChatCompletionChunk list" where
  \<open>exampleSchemaChunks =
     [toolCallChunk (openingDelta 0 (Some ''call_1'') ''respond_in_schema''),
      toolCallChunk (fragmentDelta 0 ''{"x"''),
      toolCallChunk (fragmentDelta 0 '':5}'')]\<close>


text \<open>Values for the Anthropic client: a reply, a request, a client that resolves, one that rejects.\<close>

definition exampleReply :: AnthropicMessage where
  "exampleReply =
     \<lparr> responseContent = [ResponseText ''hello''], responseStopReason = Some ''end_turn'',
       responseInputTokens = 3, responseOutputTokens = 1 \<rparr>"

definition exampleRequest :: AnthropicRequest where
  "exampleRequest =
     \<lparr> requestContents = ContentArray [ItemString ''hi''],
       requestSystemInstruction = None, requestTools = None, requestTemperature = None,
       requestMaxOutputTokens = None, requestTopP = None \<rparr>"

definition resolvingEnv :: AnthropicEnv where
  "resolvingEnv =
     \<lparr> envStringify = exampleStringify, envNow = ''0'', envModel = ''claude'',
       envSamplingParams = None, envCreate = (\<lambda>params. Inr exampleReply) \<rparr>"

definition rejectingEnv :: AnthropicEnv where
  "rejectingEnv =
     \<lparr> envStringify = exampleStringify, envNow = ''0'', envModel = ''claude'',
       envSamplingParams = None, envCreate = (\<lambda>params. Inl (ApiError ''boom'')) \<rparr>"



section \<open>Notions used in the statements about the hygiene pass\<close>

text \<open>
  The ids of the tool messages of a list, in order; the non-empty call ids of a message;
  \<open>answers i t\<close>: \<open>t\<close> is the tool message that answers the call \<open>i\<close>; \<open>answered R m\<close>: an
  assistant message with \<open>tool_calls\<close> has at least one call and all its calls have
  non-empty ids in \<open>R\<close>; two neighbours that are not both assistant messages; and three
  example messages.
\<close>

definition responseIdList :: "ChatMessage list \<Rightarrow> string list" where
  "responseIdList ms =
     concat (map (\<lambda>m. if isToolResponse m then [orEmpty (tool_call_id m)] else []) ms)"

definition callIdList :: "ChatMessage \<Rightarrow> string list" where
  "callIdList m = (if hasToolCalls m then filter (\<lambda>i. i \<noteq> []) (map toolCallId (callsOf m)) else [])"

definition answered :: "string set \<Rightarrow> ChatMessage \<Rightarrow> bool" where
  "answered R m =
     (hasToolCalls m \<longrightarrow>
        callsOf m \<noteq> [] \<and> (\<forall>tc \<in> set (callsOf m). toolCallId tc \<noteq> [] \<and> toolCallId tc \<in> R))"

definition answers :: "string \<Rightarrow> ChatMessage \<Rightarrow> bool" where
  "answers i t = (isToolResponse t \<and> tool_call_id t = Some i)"

definition notBothAssistant :: "ChatMessage \<Rightarrow> ChatMessage \<Rightarrow> bool" where
  "notBothAssistant a b = (\<not> (role a = RoleAssistant \<and> role b = RoleAssistant))"

definition exampleToolCall :: "string \<Rightarrow> MessageToolCall" where
  "exampleToolCall i = \<lparr> toolCallId = i, toolCallName = ''list_dir'', toolCallArguments = ''{}'' \<rparr>"

definition assistantMessage :: "string \<Rightarrow> string list \<Rightarrow> ChatMessage" where
  "assistantMessage txt ids =
     \<lparr> role = RoleAssistant, content = ContentString txt,
       tool_calls = Some (map exampleToolCall ids), tool_call_id = None,
       reasoning_details = None, reasoning_content = None \<rparr>"

definition toolMessage :: "string \<Rightarrow> string \<Rightarrow> ChatMessage" where
  "toolMessage i txt =
     \<lparr> role = RoleTool, content = ContentString txt, tool_calls = None, tool_call_id = Some i,
       reasoning_details = None, reasoning_content = None \<rparr>"


section \<open>Notions used in the statements about parameter schemas\<close>

text \<open>
  \<open>sanitized\<close>: at every depth of the own entries, the value of a \<open>type\<close> key is a string
  without capital letters, or an object (a property that is named \<open>type\<close>), and an object
  with a truthy \<open>properties\<close> has a truthy \<open>type\<close>. \<open>plainSchema ks\<close>, of an input: at every
  depth the value of a \<open>type\<close> key is null, a string or an array, or else an object that is
  sanitized already; the value of a key in \<open>ks\<close> (the keys whose value the converter
  stores as it is) is sanitized already; the value of a \<open>__proto__\<close> key is not an object.
  \<open>entriesSanitized\<close>: an object whose own entries are sanitized and whose prototype is
  not an object that an assignment installed.
\<close>

definition isLowerCaseString :: "jsvalue \<Rightarrow> bool" where
  "isLowerCaseString v = (case v of VStr s \<Rightarrow> list_all (\<lambda>c. \<not> isUpperCase c) s | _ \<Rightarrow> False)"

definition numericKeys :: "string list" where
  "numericKeys = [''minimum'', ''maximum'', ''multipleOf'', ''minLength'', ''maxLength'',
                  ''minItems'', ''maxItems'']"

definition isTypeSpec :: "json \<Rightarrow> bool" where
  "isTypeSpec v = (case v of JNull \<Rightarrow> True | JStr _ \<Rightarrow> True | JArr _ \<Rightarrow> True | _ \<Rightarrow> False)"

definition isObjectValue :: "json \<Rightarrow> bool" where
  "isObjectValue v = (case v of JObj _ \<Rightarrow> True | _ \<Rightarrow> False)"

fun isBuiltObject :: "jsvalue \<Rightarrow> bool" where
  "isBuiltObject (VObj es p) = True"
| "isBuiltObject v = False"

fun sanitized :: "jsvalue \<Rightarrow> bool" where
  "sanitized (VArr xs) = list_all sanitized xs"
| "sanitized (VObj es p) =
     (list_all (\<lambda>(k, v). (k = ''type'' \<longrightarrow> isLowerCaseString v \<or> isBuiltObject v)
                          \<and> sanitized v) es
      \<and> (isTruthyValue (getProp ''properties'' es) \<longrightarrow> isTruthyValue (getProp ''type'' es)))"
| "sanitized v = True"

fun plainSchema :: "string list \<Rightarrow> json \<Rightarrow> bool" where
  "plainSchema ks (JArr xs) = list_all (plainSchema ks) xs"
| "plainSchema ks (JObj kvs) =
     list_all (\<lambda>(k, v). if k = ''type''
                         then isTypeSpec v \<or> isObjectValue v \<and> sanitized (fromJson v)
                         else if k \<in> set ks then sanitized (fromJson v)
                         else if k = ''__proto__'' then \<not> isObjectValue v \<and> plainSchema ks v
                         else plainSchema ks v) kvs"
| "plainSchema ks v = True"

definition entrySanitized :: "string \<times> jsvalue \<Rightarrow> bool" where
  "entrySanitized =
     (\<lambda>(k, v). (k = ''type'' \<longrightarrow> isLowerCaseString v \<or> isBuiltObject v) \<and> sanitized v)"

fun entriesSanitized :: "jsvalue \<Rightarrow> bool" where
  "entriesSanitized (VObj es None) = list_all entrySanitized es"
| "entriesSanitized (VObj es (Some (VObj es' p))) = False"
| "entriesSanitized (VObj es (Some p)) = list_all entrySanitized es"
| "entriesSanitized v = False"



text \<open>
  For \<open>sanitizeJsonSchema\<close>: the object that it returns around a schema whose root type
  is not \<open>object\<close>; \<open>typeArraysOfNames\<close>, of an input: every array-valued \<open>type\<close> holds
  strings only; \<open>bedrockReady\<close>: at every depth no \<open>type\<close> is an array and no key is
  \<open>additionalProperties\<close>.
\<close>

definition wrappedSchema :: "(string \<times> json) list \<Rightarrow> json" where
  "wrappedSchema schema =
     JObj [(''type'', JStr ''object''),
           (''properties'', JObj [(''value'', JObj schema)]),
           (''required'', JArr [JStr ''value''])]"

definition isName :: "json \<Rightarrow> bool" where
  "isName t = (case t of JStr _ \<Rightarrow> True | _ \<Rightarrow> False)"

definition isArray :: "json \<Rightarrow> bool" where
  "isArray v = (case v of JArr _ \<Rightarrow> True | _ \<Rightarrow> False)"

fun typeArraysOfNames :: "json \<Rightarrow> bool" where
  "typeArraysOfNames (JArr xs) = list_all typeArraysOfNames xs"
| "typeArraysOfNames (JObj kvs) =
     list_all (\<lambda>(k, v). (k = ''type'' \<longrightarrow> (case v of JArr ts \<Rightarrow> list_all isName ts | _ \<Rightarrow> True))
                         \<and> typeArraysOfNames v) kvs"
| "typeArraysOfNames v = True"

fun bedrockReady :: "json \<Rightarrow> bool" where
  "bedrockReady (JArr xs) = list_all bedrockReady xs"
| "bedrockReady (JObj kvs) =
     list_all (\<lambda>(k, v). k \<noteq> ''additionalProperties'' \<and> (k = ''type'' \<longrightarrow> \<not> isArray v)
                         \<and> bedrockReady v) kvs"
| "bedrockReady v = True"

definition exampleNumbers :: NumberBuiltins where
  "exampleNumbers = \<lparr> toNumber = (\<lambda>s. NaN), parseInt10 = (\<lambda>s. NaN) \<rparr>"

definition exampleParameters :: "(string \<times> json) list" where
  "exampleParameters =
     [(''properties'',
       JObj [(''path'', JObj [(''type'', JArr [JStr ''STRING'', JStr ''null''])]),
             (''opts'', JObj [(''type'', JNull), (''properties'', JObj [])])])]"


definition exampleWrapped :: "(string \<times> json) list" where
  "exampleWrapped = [(''type'', JStr ''OBJECT'')]"

definition exampleStrict :: "(string \<times> json) list" where
  "exampleStrict =
     [(''type'', JStr ''object''),
      (''additionalProperties'', JBool False),
      (''properties'',
       JObj [(''a'', JObj [(''type'', JNull)]),
             (''b'', JObj [(''type'', JArr [JStr ''STRING'', JStr ''null''])])])]"


section \<open>Notions used in the statements about thought-flagged parts\<close>

text \<open>The texts of the parts of a turn that are not flagged as thought, in order.\<close>

definition visibleTexts :: "RequestPart list \<Rightarrow> string list" where
  "visibleTexts ps =
     concat (map (\<lambda>p. case p of
                         PartString s \<Rightarrow> [s]
                       | PartText t thought \<Rightarrow> if thought then [] else [t]
                       | _ \<Rightarrow> [])
                 ps)"

section \<open>Finish reasons: properties\<close>

lemma mapFinishReason_table:
  "mapFinishReason (Some ''stop'') = Member STOP"
  "mapFinishReason (Some ''length'') = Member MAX_TOKENS"
  "mapFinishReason (Some ''content_filter'') = Member SAFETY"
  "mapFinishReason (Some ''tool_calls'') = Member STOP"
  "mapFinishReason (Some ''function_call'') = Member STOP"
  "mapFinishReason None = Member FINISH_REASON_UNSPECIFIED"
  "mapFinishReason (Some []) = Member FINISH_REASON_UNSPECIFIED"
  by (simp_all add: mapFinishReason_def finishReasonMapping_def)

lemma mapFinishReason_member:
  "r \<notin> set objectPrototypeKeys \<Longrightarrow> \<exists>fr. mapFinishReason (Some r) = Member fr"
  by (simp add: mapFinishReason_def split: option.splits)

lemma mapStopReason_table:
  "mapStopReason (Some ''end_turn'') = STOP"
  "mapStopReason (Some ''stop_sequence'') = STOP"
  "mapStopReason (Some ''tool_use'') = STOP"
  "mapStopReason (Some ''max_tokens'') = MAX_TOKENS"
  "mapStopReason (Some ''content_filtered'') = SAFETY"
  "mapStopReason (Some ''guardrail_intervened'') = SAFETY"
  "mapStopReason None = FINISH_REASON_UNSPECIFIED"
  by (simp_all add: mapStopReason_def)

text \<open>
  Claim C5. Every native finish reason string, documented or not, is mapped to a member
  of the canonical enumeration. The Bedrock \<open>switch\<close> does so, and so does the OpenAI
  table on every string that is not the name of a member of \<open>Object.prototype\<close>
  (\<open>mapFinishReason_member\<close>). On such a name the OpenAI mapping reads the inherited
  member through \<open>mapping[openaiReason]\<close> and returns it: for the finish reason
  \<open>constructor\<close> the result is not a member of the enumeration.
\<close>

theorem mapFinishReason_constructor:
  "mapFinishReason (Some ''constructor'') = PrototypeMember ''constructor''"
  by (simp add: mapFinishReason_def finishReasonMapping_def objectPrototypeKeys_def)

section \<open>Usage normalisation: properties\<close>





section \<open>Anthropic adapter: properties\<close>

lemma generateContent_prompt_id:
  "generateContent env request p = generateContent env request q"
  by (simp add: generateContent_def)

lemma generateContent_resolves:
  assumes conv: "convertToAnthropicFormat (envStringify env) (envNow env) request
                 = Inr (systemMessage, messages)"
    and tools: "\<forall>tools. requestTools request = Some tools
                  \<longrightarrow> (\<exists>ts. convertGeminiToolsToAnthropic tools = Inr ts)"
  shows "\<exists>params. createMessages params = messages \<and> createModel params = envModel env
           \<and> generateContent env request p
               = map_sum id anthropic_convertToGeminiFormat (envCreate env params)"
proof -
  define base where
    "base = \<lparr> createModel = envModel env,
               createMaxTokens =
                 (case spMaxTokens (buildSamplingParameters (envSamplingParams env) request) of
                    Some n \<Rightarrow> if n \<noteq> 0 then n else 4096 | None \<Rightarrow> 4096),
               createMessages = messages,
               createSystem = (if present systemMessage then systemMessage else None),
               createTemperature =
                 spTemperature (buildSamplingParameters (envSamplingParams env) request),
               createTopP = spTopP (buildSamplingParameters (envSamplingParams env) request),
               createTools = None \<rparr>"
  have g: "generateContent env request p =
             (case (case requestTools request of
                      None \<Rightarrow> Inr base
                    | Some tools \<Rightarrow>
                        (case convertGeminiToolsToAnthropic tools of
                           Inl e \<Rightarrow> Inl e
                         | Inr ts \<Rightarrow> Inr (base\<lparr> createTools := Some ts \<rparr>))) of
                Inl e \<Rightarrow> Inl e
              | Inr params \<Rightarrow>
                  (case envCreate env params of
                     Inl e \<Rightarrow> Inl e
                   | Inr completion \<Rightarrow> Inr (anthropic_convertToGeminiFormat completion)))"
    unfolding generateContent_def base_def Let_def conv by simp
  have m: "(case x of Inl e \<Rightarrow> Inl e | Inr c \<Rightarrow> Inr (anthropic_convertToGeminiFormat c))
           = map_sum id anthropic_convertToGeminiFormat x"
    for x :: "request_error + AnthropicMessage"
    by (cases x) simp_all
  show ?thesis
  proof (cases "requestTools request")
    case None
    have "generateContent env request p
          = map_sum id anthropic_convertToGeminiFormat (envCreate env base)"
      unfolding g None by (simp add: m)
    moreover have "createMessages base = messages" "createModel base = envModel env"
      by (simp_all add: base_def)
    ultimately show ?thesis by blast
  next
    case (Some tools)
    then obtain ts where ts: "convertGeminiToolsToAnthropic tools = Inr ts"
      using tools by blast
    have "generateContent env request p
          = map_sum id anthropic_convertToGeminiFormat
              (envCreate env (base\<lparr> createTools := Some ts \<rparr>))"
      unfolding g Some by (simp add: ts m)
    moreover have "createMessages (base\<lparr> createTools := Some ts \<rparr>) = messages"
      "createModel (base\<lparr> createTools := Some ts \<rparr>) = envModel env"
      by (simp_all add: base_def)
    ultimately show ?thesis by blast
  qed
qed


text \<open>
  Claim C10, as amended. The run of \<open>generateContentStream\<close> is determined by
  \<open>generateContent\<close> on the same request, whatever the prompt ids: when \<open>generateContent\<close>
  resolves with a response, the run yields exactly that response and ends; when it
  rejects, the run yields nothing and ends with the same error. When the request
  converts and its tools resolve, the client is called once, with the converted messages
  and the model of the adapter, and the run is the conversion of the client's reply, or
  the client's error.
\<close>

theorem stream_is_wrapper:
  "(generateContent env request p = Inr r
      \<longrightarrow> generateContentStream env request q = ([r], None))
   \<and> (generateContent env request p = Inl e
      \<longrightarrow> generateContentStream env request q = ([], Some e))
   \<and> (convertToAnthropicFormat (envStringify env) (envNow env) request
         = Inr (systemMessage, messages)
       \<and> (\<forall>tools. requestTools request = Some tools
             \<longrightarrow> (\<exists>ts. convertGeminiToolsToAnthropic tools = Inr ts))
      \<longrightarrow> (\<exists>params. createMessages params = messages \<and> createModel params = envModel env
             \<and> generateContentStream env request q
                 = (case envCreate env params of
                      Inr completion \<Rightarrow> ([anthropic_convertToGeminiFormat completion], None)
                    | Inl err \<Rightarrow> ([], Some err))))"
proof (intro conjI impI)
  assume "generateContent env request p = Inr r"
  then have "generateContent env request q = Inr r"
    by (simp add: generateContent_prompt_id [of env request q p])
  then show "generateContentStream env request q = ([r], None)"
    by (simp add: generateContentStream_def streamWrapper_def)
next
  assume "generateContent env request p = Inl e"
  then have "generateContent env request q = Inl e"
    by (simp add: generateContent_prompt_id [of env request q p])
  then show "generateContentStream env request q = ([], Some e)"
    by (simp add: generateContentStream_def streamWrapper_def)
next
  assume a: "convertToAnthropicFormat (envStringify env) (envNow env) request
         = Inr (systemMessage, messages)
       \<and> (\<forall>tools. requestTools request = Some tools
             \<longrightarrow> (\<exists>ts. convertGeminiToolsToAnthropic tools = Inr ts))"
  then obtain params where p: "createMessages params = messages"
    "createModel params = envModel env"
    "generateContent env request q
       = map_sum id anthropic_convertToGeminiFormat (envCreate env params)"
    using generateContent_resolves [of env request systemMessage messages q] by blast
  have "generateContentStream env request q
          = (case envCreate env params of
               Inr completion \<Rightarrow> ([anthropic_convertToGeminiFormat completion], None)
             | Inl err \<Rightarrow> ([], Some err))"
    using p(3) by (simp add: generateContentStream_def streamWrapper_def split: sum.splits)
  with p show "\<exists>params. createMessages params = messages \<and> createModel params = envModel env
             \<and> generateContentStream env request q
                 = (case envCreate env params of
                      Inr completion \<Rightarrow> ([anthropic_convertToGeminiFormat completion], None)
                    | Inl err \<Rightarrow> ([], Some err))"
    by blast
qed

lemma example_conversion:
  "convertToAnthropicFormat exampleStringify ''0'' exampleRequest
   = Inr (None, [\<lparr> paramRole = AnthropicUser, paramContent = PlainContent ''hi'' \<rparr>])"
  by (simp add: convertToAnthropicFormat_def exampleRequest_def systemInstructionTruthy_def
        convertItem_def ensureAlternatingMessages_def)

theorem stream_is_wrapper_witness:
  "generateContent resolvingEnv exampleRequest ''p''
     = Inr (anthropic_convertToGeminiFormat exampleReply)
   \<and> generateContentStream resolvingEnv exampleRequest ''q''
     = ([anthropic_convertToGeminiFormat exampleReply], None)
   \<and> generateContent rejectingEnv exampleRequest ''p'' = Inl (ApiError ''boom'')
   \<and> generateContentStream rejectingEnv exampleRequest ''q'' = ([], Some (ApiError ''boom''))"
proof -
  have g: "generateContent resolvingEnv exampleRequest ''p''
           = Inr (anthropic_convertToGeminiFormat exampleReply)"
    using example_conversion
    by (simp add: generateContent_def resolvingEnv_def Let_def)
       (simp add: exampleRequest_def)
  have h: "generateContent rejectingEnv exampleRequest ''p'' = Inl (ApiError ''boom'')"
    using example_conversion
    by (simp add: generateContent_def rejectingEnv_def Let_def)
       (simp add: exampleRequest_def)
  show ?thesis
    using stream_is_wrapper [of resolvingEnv exampleRequest "''p''"
            "anthropic_convertToGeminiFormat exampleReply" "''q''"]
          stream_is_wrapper [of rejectingEnv exampleRequest "''p''" _ "''q''" "ApiError ''boom''"]
          g h
    by simp
qed


text \<open>
  Claim C10 as stated fails when the client rejects: the run yields no response and
  ends with the client's error.
\<close>

theorem stream_counterexample:
  "generateContentStream rejectingEnv exampleRequest ''p'' = ([], Some (ApiError ''boom''))
   \<and> generateContent rejectingEnv exampleRequest ''p'' = Inl (ApiError ''boom'')"
proof -
  have "generateContent rejectingEnv exampleRequest ''p'' = Inl (ApiError ''boom'')"
    using example_conversion
    by (simp add: generateContent_def rejectingEnv_def Let_def)
       (simp add: exampleRequest_def)
  then show ?thesis
    by (simp add: generateContentStream_def streamWrapper_def)
qed


section \<open>safeJsonParse and the end of a tool-call block: properties\<close>

lemma safeJsonParse_empty [simp]: "safeJsonParse parse repair (Some []) fb = fb"
  by (simp add: safeJsonParse_def)

lemma safeJsonParse_parsed:
  "s \<noteq> [] \<Longrightarrow> parse s = Some v \<Longrightarrow> safeJsonParse parse repair (Some s) fb = v"
  by (simp add: safeJsonParse_def)








section \<open>Streaming reassembly: properties\<close>

lemma bedrockStreamLoop_append:
  "bedrockStreamLoop parse repair st (xs @ ys) =
     (let (st1, out1) = bedrockStreamLoop parse repair st xs;
          (st2, out2) = bedrockStreamLoop parse repair st1 ys
      in (st2, out1 @ out2))"
  by (induction xs arbitrary: st) (auto simp: Let_def split: prod.splits)

lemma bedrock_fragments:
  "streamingToolCalls st i = Some acc \<Longrightarrow>
   bedrockStreamLoop parse repair st (map (toolFragment i) frags) =
     (st\<lparr> streamingToolCalls :=
            (streamingToolCalls st) (i \<mapsto> acc\<lparr> accInput := accInput acc @ concat frags \<rparr>) \<rparr>, [])"
proof (induction frags arbitrary: st acc)
  case Nil
  then have "(streamingToolCalls st) (i \<mapsto> acc) = streamingToolCalls st"
    by (simp add: fun_upd_idem)
  then show ?case by simp
next
  case (Cons f frags)
  let ?acc1 = "acc\<lparr> accInput := accInput acc @ f \<rparr>"
  let ?st1 = "st\<lparr> streamingToolCalls := (streamingToolCalls st) (i \<mapsto> ?acc1) \<rparr>"
  have step: "bedrockStreamStep parse repair st (toolFragment i f) = (?st1, [])"
    using Cons.prems by (simp add: toolFragment_def indexOrZero_def orEmpty_def)
  have "streamingToolCalls ?st1 i = Some ?acc1" by simp
  from Cons.IH [OF this]
  have "bedrockStreamLoop parse repair ?st1 (map (toolFragment i) frags) =
          (?st1\<lparr> streamingToolCalls :=
                  (streamingToolCalls ?st1)
                    (i \<mapsto> ?acc1\<lparr> accInput := accInput ?acc1 @ concat frags \<rparr>) \<rparr>, [])" .
  moreover have "(streamingToolCalls ?st1)
                    (i \<mapsto> ?acc1\<lparr> accInput := accInput ?acc1 @ concat frags \<rparr>)
               = (streamingToolCalls st)
                    (i \<mapsto> acc\<lparr> accInput := accInput acc @ concat (f # frags) \<rparr>)"
    by (auto simp: fun_eq_iff)
  ultimately have "bedrockStreamLoop parse repair ?st1 (map (toolFragment i) frags) =
          (st\<lparr> streamingToolCalls :=
                  (streamingToolCalls st)
                    (i \<mapsto> acc\<lparr> accInput := accInput acc @ concat (f # frags) \<rparr>) \<rparr>, [])"
    by simp
  then show ?case
    using step by (simp del: fun_upd_apply)
qed

lemma bedrock_tool_block:
  assumes "nm \<noteq> []"
  shows "bedrockStreamLoop parse repair st
           (ContentBlockStart (Some \<lparr> toolUseId = tid, toolName = Some nm \<rparr>) (Some i)
              # map (toolFragment i) frags @ [ContentBlockStop (Some i)]) =
         (st\<lparr> streamingToolCalls := (streamingToolCalls st) (i := None) \<rparr>,
          [createStreamResponse
             [FunctionCall tid nm (safeJsonParse parse repair (Some (concat frags)) emptyObject) None]
             STOP None])"
proof -
  let ?acc0 = "\<lparr> accId = tid, accName = Some nm, accInput = [] \<rparr>"
  let ?st0 = "st\<lparr> streamingToolCalls := (streamingToolCalls st) (i \<mapsto> ?acc0) \<rparr>"
  have start: "bedrockStreamStep parse repair st
                 (ContentBlockStart (Some \<lparr> toolUseId = tid, toolName = Some nm \<rparr>) (Some i))
               = (?st0, [])"
    by (simp add: indexOrZero_def)
  have "streamingToolCalls ?st0 i = Some ?acc0" by simp
  note frs = bedrock_fragments [OF this, of parse repair frags]
  show ?thesis
    using assms
    by (simp add: start bedrockStreamLoop_append frs indexOrZero_def present_def orEmpty_def)
qed

lemma bedrock_text_deltas:
  "\<forall>t \<in> set ts. t \<noteq> [] \<Longrightarrow>
   bedrockStreamLoop parse repair st (map (textDelta idx) ts) =
     (st, map (\<lambda>t. createStreamResponse [Text t] FINISH_REASON_UNSPECIFIED None) ts)"
  by (induction ts) (auto simp: textDelta_def)

lemma bedrock_no_call_before_stop:
  "\<not> isBlockStop e \<Longrightarrow>
   concat (map (\<lambda>r. filter isFunctionCall (responseParts r))
             (snd (bedrockStreamStep parse repair st e))) = []"
  by (cases e)
     (auto simp: responseParts_def createStreamResponse_def
           split: option.splits ContentBlockDelta.splits)

lemma openaiStreamLoop_append:
  "openaiStreamLoop parse repair stringify js st (xs @ ys) =
     (let (st1, out1) = openaiStreamLoop parse repair stringify js st xs;
          (st2, out2) = openaiStreamLoop parse repair stringify js st1 ys
      in (st2, out1 @ out2))"
  by (induction xs arbitrary: st) (auto simp: Let_def split: prod.splits)

lemma accumulate_fragment:
  "accumulateToolCall [(i, a)] (fragmentDelta i f) =
     [(i, a\<lparr> accumulatedArguments := accumulatedArguments a @ f \<rparr>)]"
  by (cases "f = []")
     (simp_all add: accumulateToolCall_def fragmentDelta_def indexOrZero_def present_def
        orEmpty_def isTruthy_def Let_def)

lemma accumulate_opening:
  "nm \<noteq> [] \<Longrightarrow>
   accumulateToolCall [] (openingDelta i cid nm) =
     [(i, \<lparr> accumulatedId = (if present cid then cid else None), accumulatedName = Some nm,
            accumulatedArguments = [], accumulatedThoughtSignature = None \<rparr>)]"
  by (simp add: accumulateToolCall_def openingDelta_def indexOrZero_def present_def
        orEmpty_def isTruthy_def Let_def)

lemma fragment_chunk:
  "convertStreamChunkToGeminiFormat parse repair stringify
     \<lparr> accumulatedCalls = [(i, a)], streamingReasoningDetails = None \<rparr>
     (toolCallChunk (fragmentDelta i f)) js =
   (\<lparr> accumulatedCalls = [(i, a\<lparr> accumulatedArguments := accumulatedArguments a @ f \<rparr>)],
      streamingReasoningDetails = None \<rparr>,
    partsResponse [] (Member FINISH_REASON_UNSPECIFIED))"
  by (simp add: convertStreamChunkToGeminiFormat_def toolCallChunk_def chunkOf_def
        accumulate_fragment present_def orElse_def isTruthy_def partsResponse_def Let_def)

lemma openai_fragments:
  "openaiStreamLoop parse repair stringify js
     \<lparr> accumulatedCalls = [(i, a)], streamingReasoningDetails = None \<rparr>
     (map (\<lambda>f. toolCallChunk (fragmentDelta i f)) frags) =
   (\<lparr> accumulatedCalls =
        [(i, a\<lparr> accumulatedArguments := accumulatedArguments a @ concat frags \<rparr>)],
      streamingReasoningDetails = None \<rparr>,
    replicate (length frags) (partsResponse [] (Member FINISH_REASON_UNSPECIFIED)))"
proof (induction frags arbitrary: a)
  case Nil
  show ?case by simp
next
  case (Cons f frags)
  show ?case
    by (simp add: fragment_chunk Cons.IH)
qed

lemma opening_chunk:
  "nm \<noteq> [] \<Longrightarrow>
   convertStreamChunkToGeminiFormat parse repair stringify
     \<lparr> accumulatedCalls = [], streamingReasoningDetails = None \<rparr>
     (toolCallChunk (openingDelta i cid nm)) js =
   (\<lparr> accumulatedCalls =
        [(i, \<lparr> accumulatedId = (if present cid then cid else None), accumulatedName = Some nm,
               accumulatedArguments = [], accumulatedThoughtSignature = None \<rparr>)],
      streamingReasoningDetails = None \<rparr>,
    partsResponse [] (Member FINISH_REASON_UNSPECIFIED))"
  by (simp add: convertStreamChunkToGeminiFormat_def toolCallChunk_def chunkOf_def
        accumulate_opening present_def orElse_def isTruthy_def partsResponse_def Let_def)

lemma finish_chunk:
  assumes "reason \<noteq> []" "nm \<noteq> []" "\<not> (js \<and> nm = ''respond_in_schema'')"
  shows "convertStreamChunkToGeminiFormat parse repair stringify
     \<lparr> accumulatedCalls =
         [(i, \<lparr> accumulatedId = aid, accumulatedName = Some nm,
                accumulatedArguments = buf, accumulatedThoughtSignature = None \<rparr>)],
       streamingReasoningDetails = None \<rparr>
     (finishChunk reason) js =
   (\<lparr> accumulatedCalls = [], streamingReasoningDetails = None \<rparr>,
    partsResponse
      [FunctionCall aid nm (safeJsonParse parse repair (Some buf) emptyObject) None]
      (mapFinishReason (Some reason)))"
  using assms
  by (auto simp: convertStreamChunkToGeminiFormat_def finishChunk_def chunkOf_def
        emitAccumulatedCall_def present_def orElse_def orEmpty_def isTruthy_def
        partsResponse_def Let_def)

lemma openai_tool_block:
  assumes "reason \<noteq> []" "nm \<noteq> []" "\<not> (js \<and> nm = ''respond_in_schema'')"
  shows "openaiStreamGenerator parse repair stringify leftover
           (toolCallChunk (openingDelta i cid nm)
              # map (\<lambda>f. toolCallChunk (fragmentDelta i f)) frags @ [finishChunk reason]) js =
         replicate (Suc (length frags)) (partsResponse [] (Member FINISH_REASON_UNSPECIFIED))
         @ [partsResponse
              [FunctionCall (if present cid then cid else None) nm
                 (safeJsonParse parse repair (Some (concat frags)) emptyObject) None]
              (mapFinishReason (Some reason))]"
  using assms
  by (simp add: openaiStreamGenerator_def opening_chunk openaiStreamLoop_append
        openai_fragments finish_chunk)

lemma openai_no_call_before_finish:
  assumes "\<forall>choice. chunkChoice chunk = Some choice \<longrightarrow> \<not> present (chunkFinishReason choice)"
  shows "filter isFunctionCall
           (responseParts (snd (convertStreamChunkToGeminiFormat parse repair stringify st chunk js)))
         = []"
  using assms
  by (auto simp: convertStreamChunkToGeminiFormat_def responseParts_def Let_def
           split: option.splits)

lemma openai_text_chunk:
  "t \<noteq> [] \<Longrightarrow>
   snd (convertStreamChunkToGeminiFormat parse repair stringify st (textChunk t) js) =
     partsResponse [Text t] (Member FINISH_REASON_UNSPECIFIED)"
  by (simp add: convertStreamChunkToGeminiFormat_def textChunk_def chunkOf_def present_def
        orEmpty_def partsResponse_def Let_def)

lemma openai_text_chunks:
  "\<forall>t \<in> set ts. t \<noteq> [] \<Longrightarrow>
   snd (openaiStreamLoop parse repair stringify js st (map textChunk ts)) =
     map (\<lambda>t. partsResponse [Text t] (Member FINISH_REASON_UNSPECIFIED)) ts"
proof (induction ts arbitrary: st)
  case Nil
  show ?case by simp
next
  case (Cons t ts)
  then have "t \<noteq> []" and rest: "\<forall>t \<in> set ts. t \<noteq> []" by auto
  obtain st1 r where c: "convertStreamChunkToGeminiFormat parse repair stringify st (textChunk t) js
                         = (st1, r)"
    by (cases "convertStreamChunkToGeminiFormat parse repair stringify st (textChunk t) js")
  have "r = partsResponse [Text t] (Member FINISH_REASON_UNSPECIFIED)"
    using openai_text_chunk [OF \<open>t \<noteq> []\<close>, of parse repair stringify st js] c by simp
  then show ?case
    using c Cons.IH [OF rest, of st1] by (auto split: prod.splits)
qed


lemma firstOccurrences_set [simp]: "set (firstOccurrences xs) = set xs"
  by (induction xs) auto

lemma firstOccurrences_distinct [simp]: "distinct (firstOccurrences xs)"
  by (induction xs) auto

lemma firstOccurrences_snoc:
  "firstOccurrences (xs @ [x]) =
     (if x \<in> set xs then firstOccurrences xs else firstOccurrences xs @ [x])"
  by (induction xs) auto

lemma map_of_keyed:
  "map_of (map (\<lambda>i. (i, g i)) ks) k = (if k \<in> set ks then Some (g k) else None)"
  by (induction ks) auto

lemma mapSet_keyed:
  "distinct ks \<Longrightarrow>
   mapSet k v (map (\<lambda>i. (i, g i)) ks) =
     (if k \<in> set ks then map (\<lambda>i. (i, if i = k then v else g i)) ks
      else map (\<lambda>i. (i, g i)) ks @ [(k, v)])"
  by (induction ks) auto

lemma lastPresent_snoc:
  "lastPresent (xs @ [x]) = (if present x then x else lastPresent xs)"
  by (simp add: lastPresent_def)

lemma lastSignature_snoc:
  "lastSignature (xs @ [x]) = (if isTruthy x then x else lastSignature xs)"
  by (simp add: lastSignature_def)

lemma reassembled_other:
  "deltaBlock d \<noteq> i \<Longrightarrow> reassembled (ds @ [d]) i = reassembled ds i"
  by (simp add: reassembled_def blockId_def blockName_def blockBuffer_def blockDeltas_def)

lemma reassembled_absent:
  "i \<notin> deltaBlock ` set ds \<Longrightarrow>
   reassembled ds i = \<lparr> accumulatedId = None, accumulatedName = None,
                         accumulatedArguments = [], accumulatedThoughtSignature = None \<rparr>"
proof -
  assume "i \<notin> deltaBlock ` set ds"
  then have "blockDeltas i ds = []"
    by (auto simp: blockDeltas_def filter_empty_conv)
  then show ?thesis
    by (simp add: reassembled_def blockId_def blockName_def blockBuffer_def lastPresent_def
          lastSignature_def)
qed

lemma accumulate_reassembled:
  "accumulateToolCall (map (\<lambda>i. (i, reassembled ds i)) (firstOccurrences (map deltaBlock ds))) d
   = map (\<lambda>i. (i, reassembled (ds @ [d]) i)) (firstOccurrences (map deltaBlock (ds @ [d])))"
proof -
  define k where "k = deltaBlock d"
  define ks where "ks = firstOccurrences (map deltaBlock ds)"
  define calls where "calls = map (\<lambda>i. (i, reassembled ds i)) ks"
  define upd where
    "upd = (\<lambda>acc0 :: AccumulatedCall.
       let acc1 = (if present (deltaId d)
                   then acc0\<lparr> accumulatedId := deltaId d \<rparr> else acc0);
           acc2 = (if present (deltaFunctionName d)
                   then acc1\<lparr> accumulatedName := deltaFunctionName d \<rparr> else acc1);
           acc3 = (if present (deltaFunctionArguments d)
                   then acc2\<lparr> accumulatedArguments :=
                           accumulatedArguments acc2 @ orEmpty (deltaFunctionArguments d) \<rparr>
                   else acc2)
       in (if isTruthy (deltaThoughtSignature d)
           then acc3\<lparr> accumulatedThoughtSignature := deltaThoughtSignature d \<rparr>
           else if isTruthy (deltaFunctionThoughtSignature d)
           then acc3\<lparr> accumulatedThoughtSignature := deltaFunctionThoughtSignature d \<rparr>
           else acc3))"
  have acc0: "(case map_of calls k of
                 Some a \<Rightarrow> a
               | None \<Rightarrow> \<lparr> accumulatedId = None, accumulatedName = None,
                           accumulatedArguments = [], accumulatedThoughtSignature = None \<rparr>)
              = reassembled ds k"
  proof (cases "k \<in> set ks")
    case True
    then show ?thesis by (simp add: calls_def map_of_keyed)
  next
    case False
    then have "k \<notin> deltaBlock ` set ds" by (simp add: ks_def)
    then show ?thesis using False by (simp add: calls_def map_of_keyed reassembled_absent)
  qed
  define acc4 where "acc4 = reassembled (ds @ [d]) k"
  have bd: "blockDeltas k (ds @ [d]) = blockDeltas k ds @ [d]"
    by (simp add: blockDeltas_def k_def)
  have step: "accumulateToolCall calls d
              = mapSet k (upd (case map_of calls k of
                                 Some a \<Rightarrow> a
                               | None \<Rightarrow> \<lparr> accumulatedId = None, accumulatedName = None,
                                           accumulatedArguments = [],
                                           accumulatedThoughtSignature = None \<rparr>)) calls"
    unfolding accumulateToolCall_def upd_def k_def deltaBlock_def Let_def by (rule refl)
  have n: "\<not> isTruthy None" by (simp add: isTruthy_def)
  have u: "upd (reassembled ds k) = acc4"
    using n
    by (auto simp: upd_def acc4_def reassembled_def blockId_def blockName_def blockBuffer_def bd
          lastPresent_snoc lastSignature_snoc deltaSignature_def Let_def present_def
          orEmpty_def split: option.splits)
  have upd: "accumulateToolCall (map (\<lambda>i. (i, reassembled ds i)) ks) d
             = mapSet k acc4 (map (\<lambda>i. (i, reassembled ds i)) ks)"
    using step unfolding acc0 u by (simp only: calls_def)
  have other: "reassembled (ds @ [d]) i = reassembled ds i" if "i \<noteq> k" for i
    using that by (simp add: reassembled_other k_def)
  have "mapSet k acc4 (map (\<lambda>i. (i, reassembled ds i)) ks)
        = map (\<lambda>i. (i, reassembled (ds @ [d]) i)) (firstOccurrences (map deltaBlock (ds @ [d])))"
  proof (cases "k \<in> set ks")
    case True
    then have "k \<in> set (map deltaBlock ds)" by (simp add: ks_def)
    then have fo: "firstOccurrences (map deltaBlock (ds @ [d])) = ks"
      by (simp add: firstOccurrences_snoc ks_def k_def)
    have "mapSet k acc4 (map (\<lambda>i. (i, reassembled ds i)) ks)
          = map (\<lambda>i. (i, if i = k then acc4 else reassembled ds i)) ks"
      using True by (simp add: mapSet_keyed ks_def)
    also have "\<dots> = map (\<lambda>i. (i, reassembled (ds @ [d]) i)) ks"
      by (rule map_cong) (auto simp: acc4_def other)
    finally show ?thesis by (simp only: fo)
  next
    case False
    then have "k \<notin> set (map deltaBlock ds)" by (simp add: ks_def)
    then have fo: "firstOccurrences (map deltaBlock (ds @ [d])) = ks @ [k]"
      by (simp add: firstOccurrences_snoc ks_def k_def)
    have a: "mapSet k acc4 (map (\<lambda>i. (i, reassembled ds i)) ks)
          = map (\<lambda>i. (i, reassembled ds i)) ks @ [(k, acc4)]"
      using False by (simp add: mapSet_keyed ks_def)
    have b: "map (\<lambda>i. (i, reassembled ds i)) ks
             = map (\<lambda>i. (i, reassembled (ds @ [d]) i)) ks"
    proof (rule map_cong [OF refl])
      fix i assume "i \<in> set ks"
      with False have "i \<noteq> k" by auto
      then show "(i, reassembled ds i) = (i, reassembled (ds @ [d]) i)"
        by (simp add: other)
    qed
    show ?thesis
      unfolding a fo unfolding b by (simp add: acc4_def)
  qed
  with upd show ?thesis by (simp add: ks_def)
qed

lemma accumulated_calls:
  "foldl accumulateToolCall [] ds
   = map (\<lambda>i. (i, reassembled ds i)) (firstOccurrences (map deltaBlock ds))"
proof (induction ds rule: rev_induct)
  case Nil
  show ?case by simp
next
  case (snoc d ds)
  then show ?case by (simp add: accumulate_reassembled)
qed


lemma openai_open_chunk:
  assumes "\<not> finishes c"
  shows "\<exists>st1 r. convertStreamChunkToGeminiFormat parse repair stringify st c js = (st1, r)
           \<and> accumulatedCalls st1 = foldl accumulateToolCall (accumulatedCalls st) (chunkDeltas c)
           \<and> responseParts r = chunkText c"
proof (cases "chunkChoice c")
  case None
  then show ?thesis
    by (simp add: convertStreamChunkToGeminiFormat_def chunkDeltas_def chunkText_def
          responseParts_def)
next
  case (Some choice)
  then have "\<not> present (chunkFinishReason choice)"
    using assms by (simp add: finishes_def)
  then show ?thesis
    using Some
    by (simp add: convertStreamChunkToGeminiFormat_def chunkDeltas_def chunkText_def
          responseParts_def Let_def split: option.splits)
qed

lemma openai_finish_chunk:
  assumes "finishes c"
  shows "\<exists>details r.
           convertStreamChunkToGeminiFormat parse repair stringify st c js
             = (\<lparr> accumulatedCalls = [], streamingReasoningDetails = None \<rparr>, r)
           \<and> responseParts r
               = foldl (emitAccumulatedCall parse repair stringify js details) (chunkText c)
                   (map snd (foldl accumulateToolCall (accumulatedCalls st) (chunkDeltas c)))"
proof -
  obtain choice where c: "chunkChoice c = Some choice" "present (chunkFinishReason choice)"
    using assms by (auto simp: finishes_def split: option.splits)
  then show ?thesis
    by (simp add: convertStreamChunkToGeminiFormat_def chunkDeltas_def chunkText_def
          responseParts_def Let_def split: option.splits) blast
qed

lemma emit_reassembled:
  "map withoutSignature
     (emitAccumulatedCall parse repair stringify js details ps (reassembled ds i))
   = map withoutSignature ps @ blockPart parse repair stringify js ds i"
  by (simp add: emitAccumulatedCall_def blockPart_def reassembled_def Let_def)

lemma emit_all_reassembled:
  "map withoutSignature
     (foldl (emitAccumulatedCall parse repair stringify js details) ps (map (reassembled ds) ks))
   = map withoutSignature ps @ concat (map (blockPart parse repair stringify js ds) ks)"
proof (induction ks rule: rev_induct)
  case Nil
  show ?case by simp
next
  case (snoc k ks)
  show ?case
    by (simp add: emit_reassembled snoc.IH)
qed

lemma openai_open_chunks:
  assumes "\<forall>c \<in> set cs. \<not> finishes c"
  shows "\<exists>st1 rs. openaiStreamLoop parse repair stringify js st cs = (st1, rs)
           \<and> accumulatedCalls st1
               = foldl accumulateToolCall (accumulatedCalls st) (concat (map chunkDeltas cs))
           \<and> map responseParts rs = map chunkText cs"
  using assms
proof (induction cs arbitrary: st)
  case Nil
  show ?case by simp
next
  case (Cons c cs)
  then have "\<not> finishes c" and rest: "\<forall>c \<in> set cs. \<not> finishes c" by auto
  then obtain st1 r where
    s: "convertStreamChunkToGeminiFormat parse repair stringify st c js = (st1, r)"
      "accumulatedCalls st1 = foldl accumulateToolCall (accumulatedCalls st) (chunkDeltas c)"
      "responseParts r = chunkText c"
    using openai_open_chunk [of c parse repair stringify st js] by blast
  obtain st2 rs where
    l: "openaiStreamLoop parse repair stringify js st1 cs = (st2, rs)"
      "accumulatedCalls st2
         = foldl accumulateToolCall (accumulatedCalls st1) (concat (map chunkDeltas cs))"
      "map responseParts rs = map chunkText cs"
    using Cons.IH [OF rest, of st1] by blast
  have "openaiStreamLoop parse repair stringify js st (c # cs) = (st2, r # rs)"
    using s(1) l(1) by simp
  moreover have "accumulatedCalls st2
      = foldl accumulateToolCall (accumulatedCalls st) (concat (map chunkDeltas (c # cs)))"
    using s(2) l(2) by simp
  moreover have "map responseParts (r # rs) = map chunkText (c # cs)"
    using s(3) l(3) by simp
  ultimately show ?case by blast
qed

lemma withoutSignature_text: "map withoutSignature (chunkText c) = chunkText c"
  by (simp add: chunkText_def split: option.splits)

lemma openai_stream_parts:
  assumes fresh: "accumulatedCalls st = []"
    and opens: "\<forall>c \<in> set cs. \<not> finishes c"
    and fin: "finishes fin"
  shows "\<exists>rs r. openaiStreamLoop parse repair stringify js st (cs @ [fin])
                  = (\<lparr> accumulatedCalls = [], streamingReasoningDetails = None \<rparr>, rs @ [r])
           \<and> map responseParts rs = map chunkText cs
           \<and> map withoutSignature (responseParts r)
               = chunkText fin
                 @ concat (map (blockPart parse repair stringify js
                                  (concat (map chunkDeltas (cs @ [fin]))))
                             (firstOccurrences
                                (map deltaBlock (concat (map chunkDeltas (cs @ [fin]))))))"
proof -
  define ds where "ds = concat (map chunkDeltas (cs @ [fin]))"
  obtain st1 rs where
    l: "openaiStreamLoop parse repair stringify js st cs = (st1, rs)"
      "accumulatedCalls st1
         = foldl accumulateToolCall (accumulatedCalls st) (concat (map chunkDeltas cs))"
      "map responseParts rs = map chunkText cs"
    using openai_open_chunks [OF opens, of parse repair stringify js st] by blast
  obtain details r where
    f: "convertStreamChunkToGeminiFormat parse repair stringify st1 fin js
          = (\<lparr> accumulatedCalls = [], streamingReasoningDetails = None \<rparr>, r)"
      "responseParts r
         = foldl (emitAccumulatedCall parse repair stringify js details) (chunkText fin)
             (map snd (foldl accumulateToolCall (accumulatedCalls st1) (chunkDeltas fin)))"
    using openai_finish_chunk [OF fin, of parse repair stringify st1 js] by blast
  have calls: "foldl accumulateToolCall (accumulatedCalls st1) (chunkDeltas fin)
               = map (\<lambda>i. (i, reassembled ds i)) (firstOccurrences (map deltaBlock ds))"
    using accumulated_calls [of ds] by (simp add: l(2) fresh ds_def)
  have "map snd (foldl accumulateToolCall (accumulatedCalls st1) (chunkDeltas fin))
        = map (reassembled ds) (firstOccurrences (map deltaBlock ds))"
    unfolding calls by (simp add: comp_def)
  then have "map withoutSignature (responseParts r)
             = chunkText fin
               @ concat (map (blockPart parse repair stringify js ds)
                           (firstOccurrences (map deltaBlock ds)))"
    using f(2) by (simp add: emit_all_reassembled withoutSignature_text)
  moreover have "openaiStreamLoop parse repair stringify js st (cs @ [fin])
                 = (\<lparr> accumulatedCalls = [], streamingReasoningDetails = None \<rparr>, rs @ [r])"
    using l(1) f(1) by (simp add: openaiStreamLoop_append)
  ultimately show ?thesis
    using l(3) unfolding ds_def by blast
qed

lemma bedrock_block_step:
  assumes "streamingToolCalls st i = Some acc" "\<not> blockBoundary i e"
  shows "streamingToolCalls (fst (bedrockStreamStep parse repair st e)) i
         = Some (acc\<lparr> accInput := accInput acc @ fragmentFor i e \<rparr>)"
proof (cases e)
  case (ContentBlockStart start idx)
  then show ?thesis
    using assms by (cases start) auto
next
  case (ContentBlockDeltaEvent delta idx)
  show ?thesis
  proof (cases delta)
    case None
    then show ?thesis using assms ContentBlockDeltaEvent by simp
  next
    case (Some d)
    then show ?thesis
      using assms ContentBlockDeltaEvent
      by (cases d) (auto split: option.splits)
  qed
next
  case (ContentBlockStop idx)
  then show ?thesis
    using assms by (auto split: option.splits)
qed (use assms in auto)

lemma bedrock_block_events:
  assumes "streamingToolCalls st i = Some acc" "\<forall>e \<in> set mid. \<not> blockBoundary i e"
  shows "streamingToolCalls (fst (bedrockStreamLoop parse repair st mid)) i
         = Some (acc\<lparr> accInput := accInput acc @ blockInput i mid \<rparr>)"
  using assms
proof (induction mid arbitrary: st acc)
  case Nil
  then show ?case by (simp add: blockInput_def)
next
  case (Cons e mid)
  obtain st1 out1 where s: "bedrockStreamStep parse repair st e = (st1, out1)"
    by (cases "bedrockStreamStep parse repair st e")
  have "streamingToolCalls st1 i = Some (acc\<lparr> accInput := accInput acc @ fragmentFor i e \<rparr>)"
    using bedrock_block_step [of st i acc e parse repair] Cons.prems s by simp
  from Cons.IH [OF this]
  have "streamingToolCalls (fst (bedrockStreamLoop parse repair st1 mid)) i
        = Some (acc\<lparr> accInput := (accInput acc @ fragmentFor i e) @ blockInput i mid \<rparr>)"
    using Cons.prems by simp
  moreover have "fst (bedrockStreamLoop parse repair st (e # mid))
                 = fst (bedrockStreamLoop parse repair st1 mid)"
    using s by (simp split: prod.splits)
  ultimately show ?case
    by (simp add: blockInput_def del: bedrockStreamLoop.simps)
qed

lemma bedrock_interleaved_block:
  assumes "nm \<noteq> []" "indexOrZero idx = i" "indexOrZero idx' = i"
    and "\<forall>e \<in> set mid. \<not> blockBoundary i e"
  shows "bedrockStreamLoop parse repair st
           (ContentBlockStart (Some \<lparr> toolUseId = tid, toolName = Some nm \<rparr>) idx
              # mid @ [ContentBlockStop idx']) =
         (let (st1, out) =
                bedrockStreamLoop parse repair
                  (st\<lparr> streamingToolCalls := (streamingToolCalls st)
                         (i \<mapsto> \<lparr> accId = tid, accName = Some nm, accInput = [] \<rparr>) \<rparr>)
                  mid
          in (st1\<lparr> streamingToolCalls := (streamingToolCalls st1) (i := None) \<rparr>,
              out @ [createStreamResponse
                       [FunctionCall tid nm
                          (safeJsonParse parse repair (Some (blockInput i mid)) emptyObject) None]
                       STOP None]))"
proof -
  define st0 where
    "st0 = st\<lparr> streamingToolCalls := (streamingToolCalls st)
                (i \<mapsto> \<lparr> accId = tid, accName = Some nm, accInput = [] \<rparr>) \<rparr>"
  obtain st1 out where l: "bedrockStreamLoop parse repair st0 mid = (st1, out)"
    by (cases "bedrockStreamLoop parse repair st0 mid")
  have "streamingToolCalls st0 i = Some \<lparr> accId = tid, accName = Some nm, accInput = [] \<rparr>"
    by (simp add: st0_def)
  from bedrock_block_events [OF this assms(4), of parse repair]
  have acc: "streamingToolCalls st1 i
             = Some \<lparr> accId = tid, accName = Some nm, accInput = blockInput i mid \<rparr>"
    using l by simp
  have stop: "bedrockStreamStep parse repair st1 (ContentBlockStop idx')
              = (st1\<lparr> streamingToolCalls := (streamingToolCalls st1) (i := None) \<rparr>,
                 [createStreamResponse
                    [FunctionCall tid nm
                       (safeJsonParse parse repair (Some (blockInput i mid)) emptyObject) None]
                    STOP None])"
    using acc assms(1,3) by (simp add: present_def orEmpty_def)
  have start: "bedrockStreamStep parse repair st
                 (ContentBlockStart (Some \<lparr> toolUseId = tid, toolName = Some nm \<rparr>) idx)
               = (st0, [])"
    using assms(2) by (simp add: st0_def)
  have "bedrockStreamLoop parse repair st
           (ContentBlockStart (Some \<lparr> toolUseId = tid, toolName = Some nm \<rparr>) idx
              # mid @ [ContentBlockStop idx'])
        = (st1\<lparr> streamingToolCalls := (streamingToolCalls st1) (i := None) \<rparr>,
           out @ [createStreamResponse
                    [FunctionCall tid nm
                       (safeJsonParse parse repair (Some (blockInput i mid)) emptyObject) None]
                    STOP None])"
    using start l stop
    by (simp add: bedrockStreamLoop_append del: bedrockStreamStep.simps)
  then show ?thesis
    using l by (simp add: st0_def)
qed

lemma openai_generator_segment:
  assumes opens: "\<forall>c \<in> set cs. \<not> finishes c" and fin: "finishes fin"
  shows "\<exists>rs r. openaiStreamGenerator parse repair stringify leftover (cs @ fin # rest) js
                  = rs @ r # openaiStreamGenerator parse repair stringify leftover' rest js
           \<and> map responseParts rs = map chunkText cs
           \<and> map withoutSignature (responseParts r)
               = chunkText fin
                 @ concat (map (blockPart parse repair stringify js
                                  (concat (map chunkDeltas (cs @ [fin]))))
                             (firstOccurrences
                                (map deltaBlock (concat (map chunkDeltas (cs @ [fin]))))))"
proof -
  define fresh where
    "fresh = \<lparr> accumulatedCalls = [], streamingReasoningDetails = None \<rparr>"
  have "accumulatedCalls fresh = []" by (simp add: fresh_def)
  from openai_stream_parts [OF this opens fin, of parse repair stringify js]
  obtain rs r where
    l: "openaiStreamLoop parse repair stringify js fresh (cs @ [fin]) = (fresh, rs @ [r])"
      "map responseParts rs = map chunkText cs"
      "map withoutSignature (responseParts r)
         = chunkText fin
           @ concat (map (blockPart parse repair stringify js
                            (concat (map chunkDeltas (cs @ [fin]))))
                       (firstOccurrences
                          (map deltaBlock (concat (map chunkDeltas (cs @ [fin]))))))"
    unfolding fresh_def by blast
  have "cs @ fin # rest = (cs @ [fin]) @ rest" by simp
  then have "openaiStreamLoop parse repair stringify js fresh (cs @ fin # rest)
             = (let (st2, out2) = openaiStreamLoop parse repair stringify js fresh rest
                in (st2, (rs @ [r]) @ out2))"
    using l(1) by (simp only: openaiStreamLoop_append) simp
  then have "openaiStreamGenerator parse repair stringify leftover (cs @ fin # rest) js
             = rs @ r # openaiStreamGenerator parse repair stringify leftover' rest js"
    by (simp add: openaiStreamGenerator_def fresh_def split: prod.splits)
  with l(2,3) show ?thesis by blast
qed

lemma openai_generator_open:
  assumes "\<forall>c \<in> set cs. \<not> finishes c"
  shows "map responseParts (openaiStreamGenerator parse repair stringify leftover cs js)
         = map chunkText cs"
  using openai_open_chunks [OF assms, of parse repair stringify js
          "\<lparr> accumulatedCalls = [], streamingReasoningDetails = None \<rparr>"]
  by (auto simp: openaiStreamGenerator_def)



text \<open>
  Claim C1, as amended. A tool-use block that is opened with a non-empty tool name,
  receives argument fragments and is closed yields exactly one function-call part, with
  \<open>safeJsonParse\<close> of the concatenated fragments as arguments, which is the JSON parse of
  the buffer when the buffer is valid JSON. In the Bedrock adapter the block is closed by
  its block stop, and events of other blocks and text deltas may come in between. In the
  OpenAI adapter every index that has received a name is emitted at the chunk with the
  finish reason, in the order in which the indexes first appeared, after the text of
  that chunk; the call \<open>respond_in_schema\<close> of a JSON-schema request becomes a text
  part. No response yielded before the block stop (Bedrock) or for a chunk without
  finish reason (OpenAI) carries a function-call part: such a chunk yields its own text
  and nothing else. Non-empty text deltas are yielded at once, one response each, in
  arrival order.
\<close>

theorem streaming_tool_call:
  "(nm \<noteq> [] \<longrightarrow>
      bedrockStreamLoop parse repair st
        (ContentBlockStart (Some \<lparr> toolUseId = tid, toolName = Some nm \<rparr>) (Some i)
           # map (toolFragment i) frags @ [ContentBlockStop (Some i)]) =
      (st\<lparr> streamingToolCalls := (streamingToolCalls st) (i := None) \<rparr>,
       [createStreamResponse
          [FunctionCall tid nm (safeJsonParse parse repair (Some (concat frags)) emptyObject) None]
          STOP None]))
   \<and> (nm \<noteq> [] \<and> indexOrZero startIndex = i \<and> indexOrZero stopIndex = i
        \<and> (\<forall>e \<in> set mid. \<not> blockBoundary i e) \<longrightarrow>
      bedrockStreamLoop parse repair st
        (ContentBlockStart (Some \<lparr> toolUseId = tid, toolName = Some nm \<rparr>) startIndex
           # mid @ [ContentBlockStop stopIndex]) =
      (let (st1, out) =
             bedrockStreamLoop parse repair
               (st\<lparr> streamingToolCalls := (streamingToolCalls st)
                      (i \<mapsto> \<lparr> accId = tid, accName = Some nm, accInput = [] \<rparr>) \<rparr>)
               mid
       in (st1\<lparr> streamingToolCalls := (streamingToolCalls st1) (i := None) \<rparr>,
           out @ [createStreamResponse
                    [FunctionCall tid nm
                       (safeJsonParse parse repair (Some (blockInput i mid)) emptyObject) None]
                    STOP None])))
   \<and> (nm \<noteq> [] \<and> reason \<noteq> [] \<and> \<not> (js \<and> nm = ''respond_in_schema'') \<longrightarrow>
      openaiStreamGenerator parse repair stringify leftover
        (toolCallChunk (openingDelta i cid nm)
           # map (\<lambda>f. toolCallChunk (fragmentDelta i f)) frags @ [finishChunk reason]) js =
      replicate (Suc (length frags)) (partsResponse [] (Member FINISH_REASON_UNSPECIFIED))
      @ [partsResponse
           [FunctionCall (if present cid then cid else None) nm
              (safeJsonParse parse repair (Some (concat frags)) emptyObject) None]
           (mapFinishReason (Some reason))])
   \<and> ((\<forall>c \<in> set cs. \<not> finishes c) \<and> finishes fin \<longrightarrow>
      (\<exists>rs r. openaiStreamGenerator parse repair stringify leftover (cs @ fin # rest) js
                = rs @ r # openaiStreamGenerator parse repair stringify leftover rest js
         \<and> map responseParts rs = map chunkText cs
         \<and> map withoutSignature (responseParts r)
             = chunkText fin
               @ concat (map (blockPart parse repair stringify js
                                (concat (map chunkDeltas (cs @ [fin]))))
                           (firstOccurrences
                              (map deltaBlock (concat (map chunkDeltas (cs @ [fin]))))))))
   \<and> ((\<forall>c \<in> set cs. \<not> finishes c) \<longrightarrow>
      map responseParts (openaiStreamGenerator parse repair stringify leftover cs js)
      = map chunkText cs)
   \<and> (concat frags \<noteq> [] \<and> parse (concat frags) = Some v \<longrightarrow>
      safeJsonParse parse repair (Some (concat frags)) emptyObject = v)
   \<and> (\<not> isBlockStop e \<longrightarrow>
      concat (map (\<lambda>r. filter isFunctionCall (responseParts r))
                (snd (bedrockStreamStep parse repair st e))) = [])
   \<and> ((\<forall>choice. chunkChoice chunk = Some choice \<longrightarrow> \<not> present (chunkFinishReason choice)) \<longrightarrow>
      filter isFunctionCall
        (responseParts (snd (convertStreamChunkToGeminiFormat parse repair stringify ost chunk js)))
      = [])
   \<and> ((\<forall>t \<in> set ts. t \<noteq> []) \<longrightarrow>
      bedrockStreamLoop parse repair st (map (textDelta idx) ts) =
        (st, map (\<lambda>t. createStreamResponse [Text t] FINISH_REASON_UNSPECIFIED None) ts)
      \<and> snd (openaiStreamLoop parse repair stringify js ost (map textChunk ts)) =
          map (\<lambda>t. partsResponse [Text t] (Member FINISH_REASON_UNSPECIFIED)) ts)"
proof -
  have c1: "nm \<noteq> [] \<longrightarrow>
      bedrockStreamLoop parse repair st
        (ContentBlockStart (Some \<lparr> toolUseId = tid, toolName = Some nm \<rparr>) (Some i)
           # map (toolFragment i) frags @ [ContentBlockStop (Some i)]) =
      (st\<lparr> streamingToolCalls := (streamingToolCalls st) (i := None) \<rparr>,
       [createStreamResponse
          [FunctionCall tid nm (safeJsonParse parse repair (Some (concat frags)) emptyObject) None]
          STOP None])"
    using bedrock_tool_block [of nm parse repair st tid i frags] by blast
  have c2: "nm \<noteq> [] \<and> indexOrZero startIndex = i \<and> indexOrZero stopIndex = i
        \<and> (\<forall>e \<in> set mid. \<not> blockBoundary i e) \<longrightarrow>
      bedrockStreamLoop parse repair st
        (ContentBlockStart (Some \<lparr> toolUseId = tid, toolName = Some nm \<rparr>) startIndex
           # mid @ [ContentBlockStop stopIndex]) =
      (let (st1, out) =
             bedrockStreamLoop parse repair
               (st\<lparr> streamingToolCalls := (streamingToolCalls st)
                      (i \<mapsto> \<lparr> accId = tid, accName = Some nm, accInput = [] \<rparr>) \<rparr>)
               mid
       in (st1\<lparr> streamingToolCalls := (streamingToolCalls st1) (i := None) \<rparr>,
           out @ [createStreamResponse
                    [FunctionCall tid nm
                       (safeJsonParse parse repair (Some (blockInput i mid)) emptyObject) None]
                    STOP None]))"
    using bedrock_interleaved_block [of nm startIndex i stopIndex mid parse repair st tid] by blast
  have c3: "nm \<noteq> [] \<and> reason \<noteq> [] \<and> \<not> (js \<and> nm = ''respond_in_schema'') \<longrightarrow>
      openaiStreamGenerator parse repair stringify leftover
        (toolCallChunk (openingDelta i cid nm)
           # map (\<lambda>f. toolCallChunk (fragmentDelta i f)) frags @ [finishChunk reason]) js =
      replicate (Suc (length frags)) (partsResponse [] (Member FINISH_REASON_UNSPECIFIED))
      @ [partsResponse
           [FunctionCall (if present cid then cid else None) nm
              (safeJsonParse parse repair (Some (concat frags)) emptyObject) None]
           (mapFinishReason (Some reason))]"
    using openai_tool_block [of reason nm js] by blast
  have c4: "(\<forall>c \<in> set cs. \<not> finishes c) \<and> finishes fin \<longrightarrow>
      (\<exists>rs r. openaiStreamGenerator parse repair stringify leftover (cs @ fin # rest) js
                = rs @ r # openaiStreamGenerator parse repair stringify leftover rest js
         \<and> map responseParts rs = map chunkText cs
         \<and> map withoutSignature (responseParts r)
             = chunkText fin
               @ concat (map (blockPart parse repair stringify js
                                (concat (map chunkDeltas (cs @ [fin]))))
                           (firstOccurrences
                              (map deltaBlock (concat (map chunkDeltas (cs @ [fin])))))))"
    using openai_generator_segment [of cs fin parse repair stringify leftover rest js leftover]
    by blast
  have c5: "(\<forall>c \<in> set cs. \<not> finishes c) \<longrightarrow>
      map responseParts (openaiStreamGenerator parse repair stringify leftover cs js)
      = map chunkText cs"
    using openai_generator_open [of cs parse repair stringify leftover js] by blast
  have c6: "concat frags \<noteq> [] \<and> parse (concat frags) = Some v \<longrightarrow>
      safeJsonParse parse repair (Some (concat frags)) emptyObject = v"
    by (simp add: safeJsonParse_parsed)
  have c7: "\<not> isBlockStop e \<longrightarrow>
      concat (map (\<lambda>r. filter isFunctionCall (responseParts r))
                (snd (bedrockStreamStep parse repair st e))) = []"
    using bedrock_no_call_before_stop [of e parse repair st] by blast
  have c8: "(\<forall>choice. chunkChoice chunk = Some choice \<longrightarrow> \<not> present (chunkFinishReason choice)) \<longrightarrow>
      filter isFunctionCall
        (responseParts (snd (convertStreamChunkToGeminiFormat parse repair stringify ost chunk js)))
      = []"
    using openai_no_call_before_finish [of chunk parse repair stringify ost js] by blast
  have c9: "(\<forall>t \<in> set ts. t \<noteq> []) \<longrightarrow>
      bedrockStreamLoop parse repair st (map (textDelta idx) ts) =
        (st, map (\<lambda>t. createStreamResponse [Text t] FINISH_REASON_UNSPECIFIED None) ts)
      \<and> snd (openaiStreamLoop parse repair stringify js ost (map textChunk ts)) =
          map (\<lambda>t. partsResponse [Text t] (Member FINISH_REASON_UNSPECIFIED)) ts"
    using bedrock_text_deltas [of ts parse repair st idx]
      openai_text_chunks [of ts parse repair stringify js ost] by blast
  show ?thesis
    by (rule conjI [OF c1 conjI [OF c2 conjI [OF c3 conjI [OF c4 conjI [OF c5
          conjI [OF c6 conjI [OF c7 conjI [OF c8 c9]]]]]]]])
qed


lemma example_chunks_open: "\<forall>c \<in> set exampleChunks. \<not> finishes c"
  by (simp add: exampleChunks_def finishes_def textChunk_def toolCallChunk_def chunkOf_def
        present_def)

lemma example_finish: "finishes (finishChunk ''tool_calls'')"
  by (simp add: finishes_def finishChunk_def chunkOf_def present_def)

lemma example_chunk_texts:
  "map chunkText exampleChunks = [[Text ''Hi''], [], [], [], [], [], []]"
  by (simp add: exampleChunks_def chunkText_def textChunk_def toolCallChunk_def chunkOf_def
        present_def orEmpty_def)

lemma example_deltas:
  \<open>concat (map chunkDeltas (exampleChunks @ [finishChunk ''tool_calls''])) =
     [openingDelta 0 (Some ''call_1'') ''list_dir'',
      openingDelta 1 (Some ''call_2'') ''read_file'',
      fragmentDelta 0 ''{"pat'', fragmentDelta 1 ''{}'', fragmentDelta 0 ''h": "'',
      fragmentDelta 0 ''/src"}'']\<close>
  by (simp add: exampleChunks_def chunkDeltas_def textChunk_def toolCallChunk_def chunkOf_def
        finishChunk_def)

lemma example_block_parts:
  \<open>chunkText (finishChunk ''tool_calls'')
   @ concat (map (blockPart exampleParse noRepair exampleStringify False
                    (concat (map chunkDeltas (exampleChunks @ [finishChunk ''tool_calls'']))))
               (firstOccurrences
                  (map deltaBlock
                     (concat (map chunkDeltas (exampleChunks @ [finishChunk ''tool_calls'']))))))
   = [FunctionCall (Some ''call_1'') ''list_dir'' (JObj [(''path'', JStr ''/src'')]) None,
      FunctionCall (Some ''call_2'') ''read_file'' (JObj []) None]\<close>
  unfolding example_deltas
  by (simp add: chunkText_def finishChunk_def chunkOf_def present_def deltaBlock_def
        openingDelta_def fragmentDelta_def indexOrZero_def blockPart_def blockName_def
        blockId_def blockBuffer_def blockDeltas_def lastPresent_def orEmpty_def
        safeJsonParse_def exampleParse_def emptyObject_def)

lemma example_events_inside: "\<forall>e \<in> set exampleEvents. \<not> blockBoundary 0 e"
  by (simp add: exampleEvents_def toolFragment_def textDelta_def)

lemma example_block_input: \<open>blockInput 0 exampleEvents = ''{"path": "/src"}''\<close>
  by (simp add: exampleEvents_def blockInput_def toolFragment_def textDelta_def
        indexOrZero_def orEmpty_def)

lemma example_events_run:
  \<open>snd (bedrockStreamLoop exampleParse noRepair
          (freshBedrockState\<lparr> streamingToolCalls := (streamingToolCalls freshBedrockState)
             (0 \<mapsto> \<lparr> accId = Some ''tu_1'', accName = Some ''list_dir'', accInput = [] \<rparr>) \<rparr>)
          exampleEvents)
   = [createStreamResponse [Text ''Hi''] FINISH_REASON_UNSPECIFIED None]\<close>
  by (simp add: exampleEvents_def toolFragment_def textDelta_def indexOrZero_def orEmpty_def
        freshBedrockState_def)


theorem streaming_tool_call_witness:
  \<open>bedrockStreamLoop exampleParse noRepair freshBedrockState
      (ContentBlockStart (Some \<lparr> toolUseId = Some ''tu_1'', toolName = Some ''list_dir'' \<rparr>) (Some 0)
         # map (toolFragment 0) [''{"pat'', ''h": "'', ''/src"}''] @ [ContentBlockStop (Some 0)]) =
      (freshBedrockState\<lparr> streamingToolCalls := (streamingToolCalls freshBedrockState) (0 := None) \<rparr>,
       [createStreamResponse
          [FunctionCall (Some ''tu_1'') ''list_dir'' (JObj [(''path'', JStr ''/src'')]) None]
          STOP None])
   \<and> snd (bedrockStreamLoop exampleParse noRepair freshBedrockState
            (ContentBlockStart (Some \<lparr> toolUseId = Some ''tu_1'', toolName = Some ''list_dir'' \<rparr>) None
               # exampleEvents @ [ContentBlockStop (Some 0)])) =
      [createStreamResponse [Text ''Hi''] FINISH_REASON_UNSPECIFIED None,
       createStreamResponse
          [FunctionCall (Some ''tu_1'') ''list_dir'' (JObj [(''path'', JStr ''/src'')]) None]
          STOP None]
   \<and> openaiStreamGenerator exampleParse noRepair exampleStringify freshOpenAIState
        (toolCallChunk (openingDelta 0 (Some ''call_1'') ''list_dir'')
           # map (\<lambda>f. toolCallChunk (fragmentDelta 0 f)) [''{"pat'', ''h": "'', ''/src"}'']
           @ [finishChunk ''tool_calls'']) False =
      replicate 4 (partsResponse [] (Member FINISH_REASON_UNSPECIFIED))
      @ [partsResponse
           [FunctionCall (Some ''call_1'') ''list_dir'' (JObj [(''path'', JStr ''/src'')]) None]
           (Member STOP)]
   \<and> (\<exists>rs r. openaiStreamGenerator exampleParse noRepair exampleStringify freshOpenAIState
                 (exampleChunks @ [finishChunk ''tool_calls'']) False = rs @ [r]
          \<and> map responseParts rs = [[Text ''Hi''], [], [], [], [], [], []]
          \<and> map withoutSignature (responseParts r) =
              [FunctionCall (Some ''call_1'') ''list_dir'' (JObj [(''path'', JStr ''/src'')]) None,
               FunctionCall (Some ''call_2'') ''read_file'' (JObj []) None])
   \<and> map responseParts
        (openaiStreamGenerator exampleParse noRepair exampleStringify freshOpenAIState
           exampleChunks False)
      = [[Text ''Hi''], [], [], [], [], [], []]
   \<and> safeJsonParse exampleParse noRepair (Some ''{"path": "/src"}'') emptyObject
      = JObj [(''path'', JStr ''/src'')]
   \<and> concat (map (\<lambda>r. filter isFunctionCall (responseParts r))
                (snd (bedrockStreamStep exampleParse noRepair freshBedrockState
                        (toolFragment 0 ''{"pat'')))) = []
   \<and> filter isFunctionCall
        (responseParts (snd (convertStreamChunkToGeminiFormat exampleParse noRepair exampleStringify
                               freshOpenAIState (toolCallChunk (fragmentDelta 0 ''{"pat'')) False)))
      = []
   \<and> bedrockStreamLoop exampleParse noRepair freshBedrockState
        (map (textDelta (Some 0)) [''Hel'', ''lo'']) =
      (freshBedrockState,
       [createStreamResponse [Text ''Hel''] FINISH_REASON_UNSPECIFIED None,
        createStreamResponse [Text ''lo''] FINISH_REASON_UNSPECIFIED None])
   \<and> snd (openaiStreamLoop exampleParse noRepair exampleStringify False freshOpenAIState
             (map textChunk [''Hel'', ''lo''])) =
      [partsResponse [Text ''Hel''] (Member FINISH_REASON_UNSPECIFIED),
       partsResponse [Text ''lo''] (Member FINISH_REASON_UNSPECIFIED)]\<close>
proof -
  have sj: \<open>safeJsonParse exampleParse noRepair (Some ''{"path": "/src"}'') emptyObject
             = JObj [(''path'', JStr ''/src'')]\<close>
    by (simp add: safeJsonParse_def exampleParse_def)
  have m: "mapFinishReason (Some ''tool_calls'') = Member STOP"
    by (simp add: mapFinishReason_def finishReasonMapping_def)
  have a: \<open>\<not> isBlockStop (toolFragment 0 ''{"pat'')\<close>
    by (simp add: toolFragment_def)
  have b: \<open>\<forall>choice. chunkChoice (toolCallChunk (fragmentDelta 0 ''{"pat'')) = Some choice
             \<longrightarrow> \<not> present (chunkFinishReason choice)\<close>
    by (simp add: toolCallChunk_def chunkOf_def present_def)
  have gn: "openaiStreamGenerator exampleParse noRepair exampleStringify freshOpenAIState [] False
            = []"
    by (simp add: openaiStreamGenerator_def)
  note t = streaming_tool_call
      [where parse = exampleParse and repair = noRepair and stringify = exampleStringify
         and st = freshBedrockState and ost = freshOpenAIState and leftover = freshOpenAIState
         and nm = "''list_dir''" and tid = "Some ''tu_1''" and cid = "Some ''call_1''"
         and i = 0 and idx = "Some 0" and startIndex = None and stopIndex = "Some 0"
         and js = False and reason = "''tool_calls''"
         and frags = \<open>[''{"pat'', ''h": "'', ''/src"}'']\<close>
         and e = \<open>toolFragment 0 ''{"pat''\<close>
         and chunk = \<open>toolCallChunk (fragmentDelta 0 ''{"pat'')\<close>
         and ts = "[''Hel'', ''lo'']" and mid = exampleEvents and cs = exampleChunks
         and fin = "finishChunk ''tool_calls''" and rest = "[]"
         and v = "JObj [(''path'', JStr ''/src'')]"]
  have w1: \<open>bedrockStreamLoop exampleParse noRepair freshBedrockState
      (ContentBlockStart (Some \<lparr> toolUseId = Some ''tu_1'', toolName = Some ''list_dir'' \<rparr>) (Some 0)
         # map (toolFragment 0) [''{"pat'', ''h": "'', ''/src"}''] @ [ContentBlockStop (Some 0)]) =
      (freshBedrockState\<lparr> streamingToolCalls := (streamingToolCalls freshBedrockState) (0 := None) \<rparr>,
       [createStreamResponse
          [FunctionCall (Some ''tu_1'') ''list_dir'' (JObj [(''path'', JStr ''/src'')]) None]
          STOP None])\<close>
    using t [THEN conjunct1] by (simp add: sj del: bedrockStreamLoop.simps)
  have w2: \<open>snd (bedrockStreamLoop exampleParse noRepair freshBedrockState
            (ContentBlockStart (Some \<lparr> toolUseId = Some ''tu_1'', toolName = Some ''list_dir'' \<rparr>) None
               # exampleEvents @ [ContentBlockStop (Some 0)])) =
      [createStreamResponse [Text ''Hi''] FINISH_REASON_UNSPECIFIED None,
       createStreamResponse
          [FunctionCall (Some ''tu_1'') ''list_dir'' (JObj [(''path'', JStr ''/src'')]) None]
          STOP None]\<close>
  proof -
    have "indexOrZero None = 0" "indexOrZero (Some 0) = 0"
      by (simp_all add: indexOrZero_def)
    with t [THEN conjunct2, THEN conjunct1] example_events_inside
    have "bedrockStreamLoop exampleParse noRepair freshBedrockState
            (ContentBlockStart (Some \<lparr> toolUseId = Some ''tu_1'', toolName = Some ''list_dir'' \<rparr>) None
               # exampleEvents @ [ContentBlockStop (Some 0)]) =
          (let (st1, out) =
                 bedrockStreamLoop exampleParse noRepair
                   (freshBedrockState\<lparr> streamingToolCalls := (streamingToolCalls freshBedrockState)
                      (0 \<mapsto> \<lparr> accId = Some ''tu_1'', accName = Some ''list_dir'', accInput = [] \<rparr>) \<rparr>)
                   exampleEvents
           in (st1\<lparr> streamingToolCalls := (streamingToolCalls st1) (0 := None) \<rparr>,
               out @ [createStreamResponse
                        [FunctionCall (Some ''tu_1'') ''list_dir''
                           (safeJsonParse exampleParse noRepair (Some (blockInput 0 exampleEvents))
                              emptyObject) None]
                        STOP None]))"
      by simp
    then show ?thesis
      using example_events_run
      by (simp add: example_block_input sj split: prod.splits del: bedrockStreamLoop.simps)
  qed
  have w3: \<open>openaiStreamGenerator exampleParse noRepair exampleStringify freshOpenAIState
        (toolCallChunk (openingDelta 0 (Some ''call_1'') ''list_dir'')
           # map (\<lambda>f. toolCallChunk (fragmentDelta 0 f)) [''{"pat'', ''h": "'', ''/src"}'']
           @ [finishChunk ''tool_calls'']) False =
      replicate 4 (partsResponse [] (Member FINISH_REASON_UNSPECIFIED))
      @ [partsResponse
           [FunctionCall (Some ''call_1'') ''list_dir'' (JObj [(''path'', JStr ''/src'')]) None]
           (Member STOP)]\<close>
    using t [THEN conjunct2, THEN conjunct2, THEN conjunct1]
    by (simp add: sj m present_def eval_nat_numeral)
  have w4: \<open>\<exists>rs r. openaiStreamGenerator exampleParse noRepair exampleStringify freshOpenAIState
                 (exampleChunks @ [finishChunk ''tool_calls'']) False = rs @ [r]
          \<and> map responseParts rs = [[Text ''Hi''], [], [], [], [], [], []]
          \<and> map withoutSignature (responseParts r) =
              [FunctionCall (Some ''call_1'') ''list_dir'' (JObj [(''path'', JStr ''/src'')]) None,
               FunctionCall (Some ''call_2'') ''read_file'' (JObj []) None]\<close>
    using t [THEN conjunct2, THEN conjunct2, THEN conjunct2, THEN conjunct1]
      example_chunks_open example_finish
    unfolding example_block_parts example_chunk_texts gn by blast
  have w5: \<open>map responseParts
        (openaiStreamGenerator exampleParse noRepair exampleStringify freshOpenAIState
           exampleChunks False)
      = [[Text ''Hi''], [], [], [], [], [], []]\<close>
    using t [THEN conjunct2, THEN conjunct2, THEN conjunct2, THEN conjunct2, THEN conjunct1]
      example_chunks_open
    unfolding example_chunk_texts by blast
  have w6: \<open>safeJsonParse exampleParse noRepair (Some ''{"path": "/src"}'') emptyObject
             = JObj [(''path'', JStr ''/src'')]\<close>
    using t [THEN conjunct2, THEN conjunct2, THEN conjunct2, THEN conjunct2, THEN conjunct2,
            THEN conjunct1]
    by (simp add: exampleParse_def)
  have w7: \<open>concat (map (\<lambda>r. filter isFunctionCall (responseParts r))
                (snd (bedrockStreamStep exampleParse noRepair freshBedrockState
                        (toolFragment 0 ''{"pat'')))) = []\<close>
    using t [THEN conjunct2, THEN conjunct2, THEN conjunct2, THEN conjunct2, THEN conjunct2,
            THEN conjunct2, THEN conjunct1] a by blast
  have w8: \<open>filter isFunctionCall
        (responseParts (snd (convertStreamChunkToGeminiFormat exampleParse noRepair exampleStringify
                               freshOpenAIState (toolCallChunk (fragmentDelta 0 ''{"pat'')) False)))
      = []\<close>
    using t [THEN conjunct2, THEN conjunct2, THEN conjunct2, THEN conjunct2, THEN conjunct2,
            THEN conjunct2, THEN conjunct2, THEN conjunct1] b by blast
  have w9: \<open>bedrockStreamLoop exampleParse noRepair freshBedrockState
        (map (textDelta (Some 0)) [''Hel'', ''lo'']) =
      (freshBedrockState,
       [createStreamResponse [Text ''Hel''] FINISH_REASON_UNSPECIFIED None,
        createStreamResponse [Text ''lo''] FINISH_REASON_UNSPECIFIED None])
   \<and> snd (openaiStreamLoop exampleParse noRepair exampleStringify False freshOpenAIState
             (map textChunk [''Hel'', ''lo''])) =
      [partsResponse [Text ''Hel''] (Member FINISH_REASON_UNSPECIFIED),
       partsResponse [Text ''lo''] (Member FINISH_REASON_UNSPECIFIED)]\<close>
    using t [THEN conjunct2, THEN conjunct2, THEN conjunct2, THEN conjunct2, THEN conjunct2,
            THEN conjunct2, THEN conjunct2, THEN conjunct2]
    by (simp del: bedrockStreamLoop.simps openaiStreamLoop.simps)
  show ?thesis
    by (rule conjI [OF w1 conjI [OF w2 conjI [OF w3 conjI [OF w4 conjI [OF w5
          conjI [OF w6 conjI [OF w7 conjI [OF w8 w9]]]]]]]])
qed


text \<open>
  Claim C1 as stated fails on two streams: a Bedrock block opened without a tool name
  yields nothing at its stop, and the OpenAI adapter turns the accumulated
  \<open>respond_in_schema\<close> call of a JSON-schema request into a text part.
\<close>

theorem streaming_tool_call_counterexample:
  \<open>snd (bedrockStreamLoop exampleParse noRepair freshBedrockState
          (ContentBlockStart (Some \<lparr> toolUseId = Some ''tu_1'', toolName = None \<rparr>) (Some 0)
             # map (toolFragment 0) [''{"pat'', ''h": "'', ''/src"}''] @ [ContentBlockStop (Some 0)]))
     = []
   \<and> openaiStreamGenerator exampleParse noRepair exampleStringify freshOpenAIState
        (toolCallChunk (openingDelta 0 (Some ''call_1'') ''respond_in_schema'')
           # map (\<lambda>f. toolCallChunk (fragmentDelta 0 f)) [''{"x"'', '':5}'']
           @ [finishChunk ''tool_calls'']) True =
      replicate 3 (partsResponse [] (Member FINISH_REASON_UNSPECIFIED))
      @ [partsResponse [Text ''{"x":5}''] (Member STOP)]\<close>
  by (simp add: freshBedrockState_def freshOpenAIState_def toolFragment_def indexOrZero_def
        present_def orEmpty_def openaiStreamGenerator_def convertStreamChunkToGeminiFormat_def
        toolCallChunk_def chunkOf_def openingDelta_def fragmentDelta_def finishChunk_def
        accumulateToolCall_def emitAccumulatedCall_def isTruthy_def orElse_def
        safeJsonParse_def exampleParse_def exampleStringify_def partsResponse_def
        mapFinishReason_def finishReasonMapping_def Let_def eval_nat_numeral)



section \<open>The synthetic tool of a JSON-schema request: properties\<close>

lemma attach_no_calls:
  "filter isFunctionCall ps = [] \<Longrightarrow> attachToFirstFunctionCall rd ps = ps"
proof (induction ps)
  case Nil
  then show ?case by simp
next
  case (Cons p ps)
  then show ?case by (cases p) (auto split: if_splits)
qed

lemma decode_synthetic:
  "callType c = ''function'' \<Longrightarrow> callFunction c = Some f \<Longrightarrow> fnName f = ''respond_in_schema''
    \<Longrightarrow> decodeToolCall parse repair stringify True c =
          [Text (stringify (safeJsonParse parse repair (Some (fnArguments f)) emptyObject))]"
  by (simp add: decodeToolCall_def Let_def)

lemma decode_all_synthetic:
  assumes "\<forall>c \<in> set calls. callType c = ''function''
             \<and> (\<exists>f. callFunction c = Some f \<and> fnName f = ''respond_in_schema'')"
  shows "filter isFunctionCall (concat (map (decodeToolCall parse repair stringify True) calls)) = []"
  using assms
proof (induction calls)
  case Nil
  then show ?case by simp
next
  case (Cons c calls)
  then obtain f where "callType c = ''function''" "callFunction c = Some f"
    "fnName f = ''respond_in_schema''" by auto
  then have "decodeToolCall parse repair stringify True c =
          [Text (stringify (safeJsonParse parse repair (Some (fnArguments f)) emptyObject))]"
    by (rule decode_synthetic)
  with Cons show ?case by simp
qed


lemma withoutSignature_call [simp]: "isFunctionCall (withoutSignature p) = isFunctionCall p"
  by (cases p) simp_all

lemma withoutSignature_no_calls:
  "filter isFunctionCall ps = [] \<Longrightarrow> map withoutSignature ps = ps"
  by (induction ps) (auto split: if_splits elim: isFunctionCall.elims)

lemma no_calls_erased:
  assumes "map withoutSignature ps = qs" "filter isFunctionCall qs = []"
  shows "ps = qs"
proof -
  have "filter isFunctionCall (map withoutSignature ps) = []"
    using assms by simp
  then have "filter isFunctionCall ps = []"
    by (simp add: filter_map comp_def)
  then show ?thesis
    using assms(1) by (simp add: withoutSignature_no_calls)
qed

lemma chunkText_no_calls: "filter isFunctionCall (chunkText c) = []"
  by (simp add: chunkText_def split: option.splits)

lemma schema_blockPart:
  assumes "present (blockName i ds) \<longrightarrow> blockName i ds = Some ''respond_in_schema''"
  shows "blockPart parse repair stringify True ds i
         = (if present (blockName i ds)
            then [Text (stringify (safeJsonParse parse repair (Some (blockBuffer i ds))
                                     emptyObject))]
            else [])"
  using assms by (simp add: blockPart_def)

lemma openai_schema_stream:
  assumes opens: "\<forall>c \<in> set cs. \<not> finishes c" and fin: "finishes fin"
    and named: "\<forall>i \<in> deltaBlock ` set (concat (map chunkDeltas (cs @ [fin]))).
                  present (blockName i (concat (map chunkDeltas (cs @ [fin]))))
                  \<longrightarrow> blockName i (concat (map chunkDeltas (cs @ [fin])))
                        = Some ''respond_in_schema''"
  shows "\<exists>rs r. openaiStreamGenerator parse repair stringify leftover (cs @ fin # rest) True
                  = rs @ r # openaiStreamGenerator parse repair stringify leftover' rest True
           \<and> map responseParts rs = map chunkText cs
           \<and> filter isFunctionCall (responseParts r) = []
           \<and> responseParts r
               = chunkText fin
                 @ concat (map (\<lambda>i. if present (blockName i (concat (map chunkDeltas (cs @ [fin]))))
                                     then [Text (stringify
                                             (safeJsonParse parse repair
                                                (Some (blockBuffer i
                                                   (concat (map chunkDeltas (cs @ [fin])))))
                                                emptyObject))]
                                     else [])
                             (firstOccurrences
                                (map deltaBlock (concat (map chunkDeltas (cs @ [fin]))))))"
proof -
  define ds where "ds = concat (map chunkDeltas (cs @ [fin]))"
  define ks where "ks = firstOccurrences (map deltaBlock ds)"
  define texts where
    "texts = concat (map (\<lambda>i. if present (blockName i ds)
                               then [Text (stringify
                                       (safeJsonParse parse repair (Some (blockBuffer i ds))
                                          emptyObject))]
                               else []) ks)"
  obtain rs r where
    g: "openaiStreamGenerator parse repair stringify leftover (cs @ fin # rest) True
          = rs @ r # openaiStreamGenerator parse repair stringify leftover' rest True"
      "map responseParts rs = map chunkText cs"
      "map withoutSignature (responseParts r)
         = chunkText fin @ concat (map (blockPart parse repair stringify True ds) ks)"
    using openai_generator_segment [OF opens fin, of parse repair stringify leftover rest True
            leftover']
    unfolding ds_def ks_def by blast
  have "map (blockPart parse repair stringify True ds) ks
        = map (\<lambda>i. if present (blockName i ds)
                    then [Text (stringify
                            (safeJsonParse parse repair (Some (blockBuffer i ds)) emptyObject))]
                    else []) ks"
  proof (rule map_cong [OF refl])
    fix i assume "i \<in> set ks"
    then have "i \<in> deltaBlock ` set ds" by (simp add: ks_def)
    then have "present (blockName i ds) \<longrightarrow> blockName i ds = Some ''respond_in_schema''"
      using named unfolding ds_def by blast
    then show "blockPart parse repair stringify True ds i
               = (if present (blockName i ds)
                  then [Text (stringify
                          (safeJsonParse parse repair (Some (blockBuffer i ds)) emptyObject))]
                  else [])"
      by (rule schema_blockPart)
  qed
  then have "concat (map (blockPart parse repair stringify True ds) ks) = texts"
    unfolding texts_def by (rule arg_cong)
  then have e: "map withoutSignature (responseParts r) = chunkText fin @ texts"
    using g(3) by simp
  have n: "filter isFunctionCall (chunkText fin @ texts) = []"
    by (auto simp: chunkText_no_calls texts_def filter_concat comp_def)
  have p: "responseParts r = chunkText fin @ texts"
    using e n by (rule no_calls_erased)
  then have "filter isFunctionCall (responseParts r) = []"
    using n by simp
  with g(1,2) p show ?thesis
    unfolding texts_def ks_def ds_def by blast
qed

lemma schema_text_member:
  assumes "i \<in> deltaBlock ` set ds" "present (blockName i ds)" "blockBuffer i ds \<noteq> []"
    "parse (blockBuffer i ds) = Some A"
  shows "Text (stringify A)
         \<in> set (concat (map (\<lambda>i. if present (blockName i ds)
                                    then [Text (stringify
                                            (safeJsonParse parse repair (Some (blockBuffer i ds))
                                               emptyObject))]
                                    else [])
                            (firstOccurrences (map deltaBlock ds))))"
proof -
  have "safeJsonParse parse repair (Some (blockBuffer i ds)) emptyObject = A"
    using assms(3,4) by (simp add: safeJsonParse_parsed)
  moreover have "i \<in> set (firstOccurrences (map deltaBlock ds))"
    using assms(1) by simp
  ultimately show ?thesis
    using assms(2) by (auto intro!: bexI [of _ i])
qed


text \<open>
  Claim C7. A request with a (truthy) \<open>responseJsonSchema\<close> and the JSON mime type gets
  exactly one tool declaration, \<open>respond_in_schema\<close> with the caller's schema as
  parameters, in \<open>generateContent\<close> and in \<open>generateContentStream\<close>. When every tool call
  of the provider's response calls that tool, the decoded response has no function-call
  part, and for a call whose arguments parse to \<open>A\<close> it has the text part
  \<open>JSON.stringify(A)\<close>. The same holds of a streamed response: when every named call
  accumulated up to the chunk with the finish reason is \<open>respond_in_schema\<close>, no response
  of the stream has a function-call part, and the response for that chunk is its own
  text followed by one text part per call, \<open>JSON.stringify\<close> of the parsed buffer.
\<close>

theorem json_schema_request:
  assumes schema: "responseJsonSchema config = Some schema" "truthy schema"
      "responseMimeType config = Some ''application/json''"
    and resp: "completionChoices resp = choice # others"
      "messageToolCalls (choiceMessage choice) = Some calls"
    and calls: "\<forall>c \<in> set calls. callType c = ''function''
             \<and> (\<exists>f. callFunction c = Some f \<and> fnName f = ''respond_in_schema'')"
  shows "generateContent_tools config = Some [syntheticTool schema]
    \<and> generateContentStream_tools config = Some [syntheticTool schema]
    \<and> (\<exists>r. convertToGeminiFormat parse repair stringify resp (isJsonSchemaRequestOf config) = Inr r
           \<and> filter isFunctionCall (responseParts r) = []
           \<and> (\<forall>c f A. c \<in> set calls \<and> callFunction c = Some f \<and> fnArguments f \<noteq> []
                        \<and> parse (fnArguments f) = Some A
                  \<longrightarrow> Text (stringify A) \<in> set (responseParts r)))
    \<and> ((\<forall>c \<in> set cs. \<not> finishes c) \<and> finishes fin
         \<and> (\<forall>i \<in> deltaBlock ` set (concat (map chunkDeltas (cs @ [fin]))).
               present (blockName i (concat (map chunkDeltas (cs @ [fin]))))
               \<longrightarrow> blockName i (concat (map chunkDeltas (cs @ [fin])))
                     = Some ''respond_in_schema'')
        \<longrightarrow> (\<exists>rs r.
               openaiStreamGenerator parse repair stringify leftover (cs @ fin # rest)
                   (isJsonSchemaRequestOf config)
                 = rs @ r # openaiStreamGenerator parse repair stringify leftover rest
                              (isJsonSchemaRequestOf config)
               \<and> map responseParts rs = map chunkText cs
               \<and> filter isFunctionCall (responseParts r) = []
               \<and> responseParts r
                   = chunkText fin
                     @ concat (map (\<lambda>i. if present (blockName i
                                                 (concat (map chunkDeltas (cs @ [fin]))))
                                         then [Text (stringify
                                                 (safeJsonParse parse repair
                                                    (Some (blockBuffer i
                                                       (concat (map chunkDeltas (cs @ [fin])))))
                                                    emptyObject))]
                                         else [])
                                 (firstOccurrences
                                    (map deltaBlock (concat (map chunkDeltas (cs @ [fin]))))))
               \<and> (\<forall>i A. i \<in> deltaBlock ` set (concat (map chunkDeltas (cs @ [fin])))
                          \<and> present (blockName i (concat (map chunkDeltas (cs @ [fin]))))
                          \<and> blockBuffer i (concat (map chunkDeltas (cs @ [fin]))) \<noteq> []
                          \<and> parse (blockBuffer i (concat (map chunkDeltas (cs @ [fin]))))
                              = Some A
                    \<longrightarrow> Text (stringify A) \<in> set (responseParts r))))"
proof -
  have flag: "isJsonSchemaRequestOf config"
    using schema by (simp add: isJsonSchemaRequestOf_def isTruthy_def)
  have tools: "generateContent_tools config = Some [syntheticTool schema]"
    "generateContentStream_tools config = Some [syntheticTool schema]"
    using schema
    by (simp_all add: generateContent_tools_def generateContentStream_tools_def isTruthy_def
          syntheticTool_def)
  define callParts where
    "callParts = concat (map (decodeToolCall parse repair stringify True) calls)"
  define textParts where
    "textParts = (if present (messageContent (choiceMessage choice))
                  then [Text (orEmpty (messageContent (choiceMessage choice)))] else [])"
  have nocalls: "filter isFunctionCall (textParts @ callParts) = []"
    using decode_all_synthetic [OF calls] by (simp add: callParts_def textParts_def)
  define r where
    "r = \<lparr> candidates =
             [\<lparr> parts = textParts @ callParts,
                finishReason =
                  mapFinishReason
                    (Some (if present (choiceFinishReason choice)
                           then orEmpty (choiceFinishReason choice) else ''stop'')) \<rparr>],
           usageMetadata = map_option convertUsage (completionUsage resp) \<rparr>"
  have conv: "convertToGeminiFormat parse repair stringify resp (isJsonSchemaRequestOf config) = Inr r"
    using resp flag attach_no_calls [OF nocalls]
    by (simp add: convertToGeminiFormat_def Let_def r_def callParts_def textParts_def)
  have parts: "responseParts r = textParts @ callParts"
    by (simp add: responseParts_def r_def)
  have mem: "Text (stringify A) \<in> set (responseParts r)"
    if "c \<in> set calls" "callFunction c = Some f" "fnArguments f \<noteq> []"
      "parse (fnArguments f) = Some A" for c f A
  proof -
    have "callType c = ''function''" "fnName f = ''respond_in_schema''"
      using calls that by auto
    then have "decodeToolCall parse repair stringify True c =
          [Text (stringify (safeJsonParse parse repair (Some (fnArguments f)) emptyObject))]"
      using that by (simp add: decode_synthetic)
    moreover have "safeJsonParse parse repair (Some (fnArguments f)) emptyObject = A"
      using that by (simp add: safeJsonParse_parsed)
    ultimately have "Text (stringify A) \<in> set callParts"
      using that(1) by (force simp: callParts_def)
    then show ?thesis by (simp add: parts)
  qed
  have none: "filter isFunctionCall (responseParts r) = []"
    using nocalls by (simp only: parts)
  have blocking: "\<exists>r. convertToGeminiFormat parse repair stringify resp (isJsonSchemaRequestOf config) = Inr r
           \<and> filter isFunctionCall (responseParts r) = []
           \<and> (\<forall>c f A. c \<in> set calls \<and> callFunction c = Some f \<and> fnArguments f \<noteq> []
                        \<and> parse (fnArguments f) = Some A
                  \<longrightarrow> Text (stringify A) \<in> set (responseParts r))"
    using conv none mem by blast
  define ds where "ds = concat (map chunkDeltas (cs @ [fin]))"
  have streaming:
    "(\<forall>c \<in> set cs. \<not> finishes c) \<and> finishes fin
         \<and> (\<forall>i \<in> deltaBlock ` set ds.
               present (blockName i ds) \<longrightarrow> blockName i ds = Some ''respond_in_schema'')
        \<longrightarrow> (\<exists>rs r.
               openaiStreamGenerator parse repair stringify leftover (cs @ fin # rest)
                   (isJsonSchemaRequestOf config)
                 = rs @ r # openaiStreamGenerator parse repair stringify leftover rest
                              (isJsonSchemaRequestOf config)
               \<and> map responseParts rs = map chunkText cs
               \<and> filter isFunctionCall (responseParts r) = []
               \<and> responseParts r
                   = chunkText fin
                     @ concat (map (\<lambda>i. if present (blockName i ds)
                                         then [Text (stringify
                                                 (safeJsonParse parse repair
                                                    (Some (blockBuffer i ds)) emptyObject))]
                                         else [])
                                 (firstOccurrences (map deltaBlock ds)))
               \<and> (\<forall>i A. i \<in> deltaBlock ` set ds \<and> present (blockName i ds)
                          \<and> blockBuffer i ds \<noteq> [] \<and> parse (blockBuffer i ds) = Some A
                    \<longrightarrow> Text (stringify A) \<in> set (responseParts r)))"
  proof (intro impI, elim conjE)
    assume opens: "\<forall>c \<in> set cs. \<not> finishes c" and fin: "finishes fin"
      and named: "\<forall>i \<in> deltaBlock ` set ds.
                    present (blockName i ds) \<longrightarrow> blockName i ds = Some ''respond_in_schema''"
    obtain rs r where
      g: "openaiStreamGenerator parse repair stringify leftover (cs @ fin # rest) True
            = rs @ r # openaiStreamGenerator parse repair stringify leftover rest True"
        "map responseParts rs = map chunkText cs"
        "filter isFunctionCall (responseParts r) = []"
        "responseParts r
           = chunkText fin
             @ concat (map (\<lambda>i. if present (blockName i ds)
                                 then [Text (stringify
                                         (safeJsonParse parse repair
                                            (Some (blockBuffer i ds)) emptyObject))]
                                 else [])
                         (firstOccurrences (map deltaBlock ds)))"
      using openai_schema_stream [OF opens fin, of parse repair stringify leftover rest leftover]
        named unfolding ds_def by blast
    have m: "Text (stringify A) \<in> set (responseParts r)"
      if "i \<in> deltaBlock ` set ds" "present (blockName i ds)" "blockBuffer i ds \<noteq> []"
        "parse (blockBuffer i ds) = Some A" for i A
      unfolding g(4)
      using schema_text_member [of i ds parse A stringify repair] that by simp
    have f: "isJsonSchemaRequestOf config = True" using flag by simp
    show "\<exists>rs r.
               openaiStreamGenerator parse repair stringify leftover (cs @ fin # rest)
                   (isJsonSchemaRequestOf config)
                 = rs @ r # openaiStreamGenerator parse repair stringify leftover rest
                              (isJsonSchemaRequestOf config)
               \<and> map responseParts rs = map chunkText cs
               \<and> filter isFunctionCall (responseParts r) = []
               \<and> responseParts r
                   = chunkText fin
                     @ concat (map (\<lambda>i. if present (blockName i ds)
                                         then [Text (stringify
                                                 (safeJsonParse parse repair
                                                    (Some (blockBuffer i ds)) emptyObject))]
                                         else [])
                                 (firstOccurrences (map deltaBlock ds)))
               \<and> (\<forall>i A. i \<in> deltaBlock ` set ds \<and> present (blockName i ds)
                          \<and> blockBuffer i ds \<noteq> [] \<and> parse (blockBuffer i ds) = Some A
                    \<longrightarrow> Text (stringify A) \<in> set (responseParts r))"
      unfolding f using g m by blast
  qed
  show ?thesis
    using tools blocking streaming unfolding ds_def by (intro conjI)
qed


lemma schema_chunks_open: "\<forall>c \<in> set exampleSchemaChunks. \<not> finishes c"
  by (simp add: exampleSchemaChunks_def finishes_def toolCallChunk_def chunkOf_def present_def)

lemma schema_chunk_texts: "map chunkText exampleSchemaChunks = [[], [], []]"
  by (simp add: exampleSchemaChunks_def chunkText_def toolCallChunk_def chunkOf_def present_def)

lemma schema_deltas:
  \<open>concat (map chunkDeltas (exampleSchemaChunks @ [finishChunk ''tool_calls''])) =
     [openingDelta 0 (Some ''call_1'') ''respond_in_schema'',
      fragmentDelta 0 ''{"x"'', fragmentDelta 0 '':5}'']\<close>
  by (simp add: exampleSchemaChunks_def chunkDeltas_def toolCallChunk_def chunkOf_def
        finishChunk_def)

lemma schema_blocks:
  \<open>deltaBlock ` set [openingDelta 0 (Some ''call_1'') ''respond_in_schema'',
                       fragmentDelta 0 ''{"x"'', fragmentDelta 0 '':5}''] = {0}\<close>
  \<open>firstOccurrences (map deltaBlock [openingDelta 0 (Some ''call_1'') ''respond_in_schema'',
                       fragmentDelta 0 ''{"x"'', fragmentDelta 0 '':5}'']) = [0]\<close>
  \<open>blockName 0 [openingDelta 0 (Some ''call_1'') ''respond_in_schema'',
                  fragmentDelta 0 ''{"x"'', fragmentDelta 0 '':5}''] = Some ''respond_in_schema''\<close>
  \<open>blockBuffer 0 [openingDelta 0 (Some ''call_1'') ''respond_in_schema'',
                  fragmentDelta 0 ''{"x"'', fragmentDelta 0 '':5}''] = ''{"x":5}''\<close>
  by (simp_all add: deltaBlock_def openingDelta_def fragmentDelta_def indexOrZero_def
        blockName_def blockBuffer_def blockDeltas_def lastPresent_def present_def orEmpty_def)

lemma delta_blocks:
  "deltaBlock (openingDelta i cid nm) = i" "deltaBlock (fragmentDelta i f) = i"
  by (simp_all add: deltaBlock_def openingDelta_def fragmentDelta_def indexOrZero_def)

theorem json_schema_request_witness:
  \<open>generateContent_tools exampleConfig = Some [syntheticTool exampleSchema]
   \<and> generateContentStream_tools exampleConfig = Some [syntheticTool exampleSchema]
   \<and> (\<exists>r. convertToGeminiFormat exampleParse noRepair exampleStringify exampleCompletion
              (isJsonSchemaRequestOf exampleConfig) = Inr r
          \<and> filter isFunctionCall (responseParts r) = []
          \<and> Text ''{"x":5}'' \<in> set (responseParts r))
   \<and> (\<exists>rs r. openaiStreamGenerator exampleParse noRepair exampleStringify freshOpenAIState
                 (exampleSchemaChunks @ [finishChunk ''tool_calls''])
                 (isJsonSchemaRequestOf exampleConfig) = rs @ [r]
          \<and> map responseParts rs = [[], [], []]
          \<and> filter isFunctionCall (responseParts r) = []
          \<and> responseParts r = [Text ''{"x":5}''])\<close>
proof -
  have s: \<open>exampleStringify (JObj [(''x'', JNum (Finite 5))]) = ''{"x":5}''\<close>
    by (simp add: exampleStringify_def)
  have p: \<open>exampleParse ''{"x":5}'' = Some (JObj [(''x'', JNum (Finite 5))])\<close>
    by (simp add: exampleParse_def)
  have sj: \<open>safeJsonParse exampleParse noRepair (Some ''{"x":5}'') emptyObject
            = JObj [(''x'', JNum (Finite 5))]\<close>
    by (simp add: safeJsonParse_def p)
  have gn: "openaiStreamGenerator exampleParse noRepair exampleStringify freshOpenAIState []
              (isJsonSchemaRequestOf exampleConfig) = []"
    by (simp add: openaiStreamGenerator_def)
  have ft: "chunkText (finishChunk ''tool_calls'') = []"
    by (simp add: chunkText_def finishChunk_def chunkOf_def present_def)
  have h: "responseJsonSchema exampleConfig = Some exampleSchema" "truthy exampleSchema"
    "responseMimeType exampleConfig = Some ''application/json''"
    "completionChoices exampleCompletion = exampleChoice # []"
    "messageToolCalls (choiceMessage exampleChoice) = Some [exampleCall]"
    "\<forall>c \<in> set [exampleCall]. callType c = ''function''
             \<and> (\<exists>f. callFunction c = Some f \<and> fnName f = ''respond_in_schema'')"
    by (simp_all add: exampleConfig_def exampleSchema_def exampleCompletion_def
          exampleChoice_def exampleCall_def)
  note t = json_schema_request
      [where parse = exampleParse and repair = noRepair and stringify = exampleStringify
         and leftover = freshOpenAIState and cs = exampleSchemaChunks
         and fin = "finishChunk ''tool_calls''" and rest = "[]",
       OF h]
  from t [THEN conjunct2, THEN conjunct2, THEN conjunct1] obtain r where r:
    "convertToGeminiFormat exampleParse noRepair exampleStringify exampleCompletion
              (isJsonSchemaRequestOf exampleConfig) = Inr r"
    "filter isFunctionCall (responseParts r) = []"
    "\<forall>c f A. c \<in> set [exampleCall] \<and> callFunction c = Some f \<and> fnArguments f \<noteq> []
                        \<and> exampleParse (fnArguments f) = Some A
                  \<longrightarrow> Text (exampleStringify A) \<in> set (responseParts r)"
    by blast
  have \<open>Text (exampleStringify (JObj [(''x'', JNum (Finite 5))])) \<in> set (responseParts r)\<close>
    using r(3) p by (simp add: exampleCall_def)
  then have \<open>Text ''{"x":5}'' \<in> set (responseParts r)\<close>
    by (simp only: s)
  with r have blocking: \<open>\<exists>r. convertToGeminiFormat exampleParse noRepair exampleStringify
              exampleCompletion (isJsonSchemaRequestOf exampleConfig) = Inr r
          \<and> filter isFunctionCall (responseParts r) = []
          \<and> Text ''{"x":5}'' \<in> set (responseParts r)\<close>
    by blast
  have streaming:
    \<open>\<exists>rs r. openaiStreamGenerator exampleParse noRepair exampleStringify freshOpenAIState
                 (exampleSchemaChunks @ [finishChunk ''tool_calls''])
                 (isJsonSchemaRequestOf exampleConfig) = rs @ [r]
          \<and> map responseParts rs = [[], [], []]
          \<and> filter isFunctionCall (responseParts r) = []
          \<and> responseParts r = [Text ''{"x":5}'']\<close>
    using t [THEN conjunct2, THEN conjunct2, THEN conjunct2] schema_chunks_open example_finish
    unfolding schema_deltas gn schema_chunk_texts
    by (simp add: schema_blocks delta_blocks ft sj s present_def)
       (elim exE conjE, intro exI conjI, assumption+)
  from t [THEN conjunct1] t [THEN conjunct2, THEN conjunct1] blocking streaming
  show ?thesis by blast
qed


section \<open>The hygiene pass: properties\<close>

lemma responseIdList_simps [simp]:
  "responseIdList [] = []"
  "responseIdList (m # ms) =
     (if isToolResponse m then [orEmpty (tool_call_id m)] else []) @ responseIdList ms"
  "responseIdList (xs @ ys) = responseIdList xs @ responseIdList ys"
  by (simp_all add: responseIdList_def)

lemma not_both: "hasToolCalls m \<Longrightarrow> \<not> isToolResponse m"
  by (auto simp: hasToolCalls_def isToolResponse_def)

lemma finalToolResponseIds_list: "finalToolResponseIds ms = set (responseIdList ms)"
  by (simp add: finalToolResponseIds_def responseIdList_def)

lemma collectToolResponseIds_list: "collectToolResponseIds ms = set (responseIdList ms)"
proof -
  have "(\<lambda>m. if hasToolCalls m then [] else if isToolResponse m then [orEmpty (tool_call_id m)]
               else [])
        = (\<lambda>m. if isToolResponse m then [orEmpty (tool_call_id m)] else [])"
    using not_both by (auto simp: fun_eq_iff)
  then show ?thesis
    by (simp add: collectToolResponseIds_def responseIdList_def)
qed

lemma collectToolCallIds_Nil [simp]: "collectToolCallIds [] = {}"
  by (simp add: collectToolCallIds_def)

lemma collectToolCallIds_Cons [simp]:
  "collectToolCallIds (m # ms) = set (callIdList m) \<union> collectToolCallIds ms"
  by (simp add: collectToolCallIds_def callIdList_def)

lemma collectToolCallIds_append [simp]:
  "collectToolCallIds (xs @ ys) = collectToolCallIds xs \<union> collectToolCallIds ys"
  by (induction xs) auto

lemma filterAssistant_roles:
  "x \<in> set (filterAssistant R m) \<Longrightarrow> role x = role m"
  by (auto simp: filterAssistant_def Let_def split: if_splits)

lemma filterAssistant_not_response:
  "hasToolCalls m \<Longrightarrow> x \<in> set (filterAssistant R m) \<Longrightarrow> \<not> isToolResponse x"
  by (auto dest!: filterAssistant_roles simp: hasToolCalls_def isToolResponse_def)

lemma responseIdList_filterAssistant:
  "hasToolCalls m \<Longrightarrow> responseIdList (filterAssistant R m) = []"
  using filterAssistant_not_response [of m _ R]
  by (auto simp: responseIdList_def)

lemma filterAssistant_answered:
  "x \<in> set (filterAssistant R m) \<Longrightarrow> answered R x"
  by (auto simp: filterAssistant_def answered_def hasToolCalls_def callsOf_def Let_def
           split: if_splits)

lemma filterAssistant_callIds:
  "hasToolCalls m \<Longrightarrow>
   collectToolCallIds (filterAssistant R m) = set (callIdList m) \<inter> R"
  by (auto simp: filterAssistant_def callIdList_def hasToolCalls_def callsOf_def Let_def
           filter_empty_conv)

lemma filterAssistant_fixed:
  "hasToolCalls m \<Longrightarrow> answered R m \<Longrightarrow> filterAssistant R m = [m]"
proof -
  assume h: "hasToolCalls m" and a: "answered R m"
  then have "filter (\<lambda>tc. toolCallId tc \<noteq> [] \<and> toolCallId tc \<in> R) (callsOf m) = callsOf m"
    by (auto simp: answered_def)
  moreover have "tool_calls m = Some (callsOf m)"
    using h by (auto simp: hasToolCalls_def callsOf_def)
  ultimately show ?thesis
    using h a by (simp add: filterAssistant_def answered_def Let_def)
qed

lemma secondPass_responseIds:
  "set (responseIdList (secondPass C R added ms)) = (set (responseIdList ms) \<inter> C) - added"
proof (induction ms arbitrary: added)
  case Nil
  show ?case by simp
next
  case (Cons m ms)
  show ?case
  proof (cases "hasToolCalls m")
    case True
    then show ?thesis
      using Cons.IH [of added] not_both [OF True]
      by (simp add: responseIdList_filterAssistant)
  next
    case False
    then show ?thesis
      using Cons.IH by auto
  qed
qed

lemma secondPass_distinct:
  "distinct (responseIdList (secondPass C R added ms))"
proof (induction ms arbitrary: added)
  case Nil
  show ?case by simp
next
  case (Cons m ms)
  show ?case
  proof (cases "hasToolCalls m")
    case True
    then show ?thesis
      using Cons.IH [of added] by (simp add: responseIdList_filterAssistant)
  next
    case False
    then show ?thesis
      using Cons.IH by (auto simp: secondPass_responseIds)
  qed
qed

lemma secondPass_answered:
  "x \<in> set (secondPass C R added ms) \<Longrightarrow> answered R x"
proof (induction ms arbitrary: added)
  case Nil
  then show ?case by simp
next
  case (Cons m ms)
  show ?case
  proof (cases "hasToolCalls m")
    case True
    then have "x \<in> set (filterAssistant R m) \<or> x \<in> set (secondPass C R added ms)"
      using Cons.prems by simp
    then show ?thesis
      using Cons.IH filterAssistant_answered by blast
  next
    case False
    then have "answered R m" by (simp add: answered_def)
    moreover have "x = m \<or> (\<exists>a. x \<in> set (secondPass C R a ms))"
      using Cons.prems False by (auto split: if_splits)
    ultimately show ?thesis
      using Cons.IH by blast
  qed
qed

lemma secondPass_callIds:
  "collectToolCallIds (secondPass C R added ms) = collectToolCallIds ms \<inter> R"
proof (induction ms arbitrary: added)
  case Nil
  show ?case by simp
next
  case (Cons m ms)
  show ?case
  proof (cases "hasToolCalls m")
    case True
    then show ?thesis
      using Cons.IH [of added] by (auto simp: filterAssistant_callIds)
  next
    case False
    then have "callIdList m = []" by (simp add: callIdList_def)
    then show ?thesis
      using False Cons.IH by auto
  qed
qed

lemma finalPass_fixed:
  "\<forall>x \<in> set xs. answered R x \<Longrightarrow> finalPass R xs = xs"
proof (induction xs)
  case Nil
  show ?case by (simp add: finalPass_def)
next
  case (Cons x xs)
  then have "finalPass R xs = xs" by simp
  then show ?case
    using Cons.prems by (auto simp: finalPass_def filterAssistant_fixed)
qed

lemma answered_mono: "answered R x \<Longrightarrow> set (callIdList x) \<subseteq> R' \<Longrightarrow> answered R' x"
  by (auto simp: answered_def callIdList_def)

lemma callIdList_subset: "x \<in> set xs \<Longrightarrow> set (callIdList x) \<subseteq> collectToolCallIds xs"
  by (induction xs) auto

lemma clean_is_secondPass:
  "cleanOrphanedToolCalls ms =
     secondPass (collectToolCallIds ms) (collectToolResponseIds ms) {} ms"
proof -
  let ?C = "collectToolCallIds ms" and ?R = "collectToolResponseIds ms"
  let ?cleaned = "secondPass ?C ?R {} ms"
  have R': "finalToolResponseIds ?cleaned = ?R \<inter> ?C"
    by (simp add: finalToolResponseIds_list secondPass_responseIds collectToolResponseIds_list)
  have "answered (finalToolResponseIds ?cleaned) x" if "x \<in> set ?cleaned" for x
  proof -
    have "answered ?R x" using that by (rule secondPass_answered)
    moreover have "set (callIdList x) \<subseteq> collectToolCallIds ?cleaned"
      using that by (rule callIdList_subset)
    then have "set (callIdList x) \<subseteq> ?R \<inter> ?C"
      by (auto simp: secondPass_callIds)
    ultimately show ?thesis
      unfolding R' by (rule answered_mono)
  qed
  then have "finalPass (finalToolResponseIds ?cleaned) ?cleaned = ?cleaned"
    by (simp add: finalPass_fixed)
  then show ?thesis
    by (simp add: cleanOrphanedToolCalls_def Let_def)
qed

lemma answers_id: "isToolResponse t \<Longrightarrow> answers (orEmpty (tool_call_id t)) t"
  by (auto simp: answers_def isToolResponse_def present_def orEmpty_def split: option.splits)

lemma responseIdList_iff: "i \<in> set (responseIdList xs) \<longleftrightarrow> (\<exists>t \<in> set xs. answers i t)"
proof (induction xs)
  case Nil
  show ?case by simp
next
  case (Cons x xs)
  have "isToolResponse x \<Longrightarrow> (i = orEmpty (tool_call_id x)) = answers i x"
    by (auto simp: answers_def isToolResponse_def present_def orEmpty_def split: option.splits)
  moreover have "\<not> isToolResponse x \<Longrightarrow> \<not> answers i x"
    by (simp add: answers_def)
  ultimately show ?case using Cons by auto
qed

lemma callIdList_iff:
  "i \<in> set (callIdList m) \<longleftrightarrow>
     hasToolCalls m \<and> i \<noteq> [] \<and> (\<exists>tc \<in> set (callsOf m). toolCallId tc = i)"
  by (auto simp: callIdList_def)

lemma collectToolCallIds_iff:
  "i \<in> collectToolCallIds xs \<longleftrightarrow>
     (\<exists>m \<in> set xs. hasToolCalls m \<and> i \<noteq> [] \<and> (\<exists>tc \<in> set (callsOf m). toolCallId tc = i))"
  by (induction xs) (auto simp: callIdList_iff)

lemma filter_answers_filterAssistant:
  "hasToolCalls m \<Longrightarrow> filter (answers i) (filterAssistant R m) = []"
  using filterAssistant_not_response [of m _ R]
  by (auto simp: filter_empty_conv answers_def)

lemma secondPass_first_answer:
  "filter (answers i) (secondPass C R added ms) =
     (if i \<in> C \<and> i \<notin> added then take 1 (filter (answers i) ms) else [])"
proof (induction ms arbitrary: added)
  case Nil
  show ?case by simp
next
  case (Cons m ms)
  show ?case
  proof (cases "hasToolCalls m")
    case True
    then have "\<not> answers i m"
      using not_both by (auto simp: answers_def)
    then show ?thesis
      using True Cons.IH [of added] by (simp add: filter_answers_filterAssistant)
  next
    case False
    show ?thesis
    proof (cases "isToolResponse m")
      case r: True
      define j where "j = orEmpty (tool_call_id m)"
      have aj: "answers k m \<longleftrightarrow> k = j" for k
        using r by (auto simp: j_def answers_def isToolResponse_def present_def orEmpty_def
                         split: option.splits)
      have step: "secondPass C R added (m # ms) =
                    (if j \<in> C \<and> j \<notin> added then m # secondPass C R (insert j added) ms
                     else secondPass C R added ms)"
        using False r by (simp add: j_def)
      show ?thesis
      proof (cases "i = j")
        case True
        then have am: "answers i m" by (simp add: aj)
        show ?thesis
        proof (cases "j \<in> C \<and> j \<notin> added")
          case k: True
          have "filter (answers i) (secondPass C R (insert j added) ms) = []"
            using Cons.IH [of "insert j added"] True by simp
          then show ?thesis
            unfolding step using k am True by simp
        next
          case k: False
          have "filter (answers i) (secondPass C R added ms) = []"
            using Cons.IH [of added] True k by simp
          then show ?thesis
            unfolding step using k am True by auto
        qed
      next
        case ne: False
        then have am: "\<not> answers i m" by (simp add: aj)
        have "filter (answers i) (secondPass C R (insert j added) ms)
              = filter (answers i) (secondPass C R added ms)"
          using Cons.IH [of "insert j added"] Cons.IH [of added] ne by simp
        then show ?thesis
          unfolding step using am Cons.IH [of added] by simp
      qed
    next
      case n: False
      then have "\<not> answers i m" by (simp add: answers_def)
      then show ?thesis
        using False n Cons.IH [of added] by simp
    qed
  qed
qed

lemma secondPass_append:
  "secondPass C R added (xs @ ys) =
     secondPass C R added xs @ secondPass C R (added \<union> (set (responseIdList xs) \<inter> C)) ys"
proof (induction xs arbitrary: added)
  case Nil
  show ?case by simp
next
  case (Cons x xs)
  show ?case
  proof (cases "hasToolCalls x")
    case True
    then have "responseIdList (x # xs) = responseIdList xs"
      using not_both [OF True] by simp
    then show ?thesis
      using True Cons.IH [of added] by simp
  next
    case False
    show ?thesis
    proof (cases "isToolResponse x")
      case r: True
      define j where "j = orEmpty (tool_call_id x)"
      have ids: "responseIdList (x # xs) = j # responseIdList xs"
        using r by (simp add: j_def)
      have step: "secondPass C R a (x # zs) =
                    (if j \<in> C \<and> j \<notin> a then x # secondPass C R (insert j a) zs
                     else secondPass C R a zs)" for a zs
        using False r by (simp add: j_def)
      show ?thesis
      proof (cases "j \<in> C \<and> j \<notin> added")
        case True
        have e: "insert j added \<union> (set (responseIdList xs) \<inter> C)
              = added \<union> (set (responseIdList (x # xs)) \<inter> C)"
          using True unfolding ids by (auto simp: set_eq_iff)
        have l: "secondPass C R added (x # (xs @ ys)) = x # secondPass C R (insert j added) (xs @ ys)"
          using True by (subst step) simp
        have r: "secondPass C R added (x # xs) = x # secondPass C R (insert j added) xs"
          using True by (subst step) simp
        show ?thesis
          using Cons.IH [of "insert j added"] by (simp only: append_Cons l r e)
      next
        case n: False
        have e: "added \<union> (set (responseIdList xs) \<inter> C)
              = added \<union> (set (responseIdList (x # xs)) \<inter> C)"
          using n unfolding ids by (auto simp: set_eq_iff)
        have l: "secondPass C R added (x # (xs @ ys)) = secondPass C R added (xs @ ys)"
          using n by (subst step) auto
        have r: "secondPass C R added (x # xs) = secondPass C R added xs"
          using n by (subst step) auto
        show ?thesis
          using Cons.IH [of added] by (simp only: append_Cons l r e)
      qed
    next
      case n: False
      then have "responseIdList (x # xs) = responseIdList xs" by simp
      then show ?thesis
        using False n Cons.IH [of added] by simp
    qed
  qed
qed

lemma secondPass_cong:
  "\<forall>i \<in> set (responseIdList ms). i \<in> C \<longleftrightarrow> i \<in> C' \<Longrightarrow>
   secondPass C R added ms = secondPass C' R added ms"
proof (induction ms arbitrary: added)
  case Nil
  show ?case by simp
next
  case (Cons m ms)
  then have ih: "secondPass C R a ms = secondPass C' R a ms" for a
    by simp
  show ?case
    using Cons.prems by (simp add: ih)
qed

lemma clean_responseIds:
  "set (responseIdList (cleanOrphanedToolCalls ms)) =
     set (responseIdList ms) \<inter> collectToolCallIds ms"
  by (simp add: clean_is_secondPass secondPass_responseIds)

lemma clean_callIds:
  "collectToolCallIds (cleanOrphanedToolCalls ms) =
     collectToolCallIds ms \<inter> set (responseIdList ms)"
  by (simp add: clean_is_secondPass secondPass_callIds collectToolResponseIds_list)

lemma clean_distinct: "distinct (responseIdList (cleanOrphanedToolCalls ms))"
  by (simp add: clean_is_secondPass secondPass_distinct)

lemma clean_answered:
  assumes "x \<in> set (cleanOrphanedToolCalls ms)"
  shows "answered (set (responseIdList (cleanOrphanedToolCalls ms))) x"
proof -
  have "answered (collectToolResponseIds ms) x"
    using assms unfolding clean_is_secondPass by (rule secondPass_answered)
  moreover have "set (callIdList x) \<subseteq> collectToolCallIds (cleanOrphanedToolCalls ms)"
    using assms by (rule callIdList_subset)
  then have "set (callIdList x) \<subseteq> set (responseIdList (cleanOrphanedToolCalls ms))"
    unfolding clean_callIds clean_responseIds by blast
  ultimately show ?thesis by (rule answered_mono)
qed

lemma kept_call_has_result:
  assumes "m \<in> set (cleanOrphanedToolCalls ms)" "hasToolCalls m" "tc \<in> set (callsOf m)"
  shows "\<exists>t \<in> set (cleanOrphanedToolCalls ms). answers (toolCallId tc) t"
proof -
  have "answered (set (responseIdList (cleanOrphanedToolCalls ms))) m"
    using assms(1) by (rule clean_answered)
  then have "toolCallId tc \<in> set (responseIdList (cleanOrphanedToolCalls ms))"
    using assms(2,3) by (simp add: answered_def)
  then show ?thesis by (simp add: responseIdList_iff)
qed

lemma kept_result_has_call:
  assumes "t \<in> set (cleanOrphanedToolCalls ms)" "isToolResponse t"
  shows "\<exists>m \<in> set (cleanOrphanedToolCalls ms).
           hasToolCalls m \<and> (\<exists>tc \<in> set (callsOf m). tool_call_id t = Some (toolCallId tc))"
proof -
  define i where "i = orEmpty (tool_call_id t)"
  have a: "answers i t" unfolding i_def using assms(2) by (rule answers_id)
  then have "i \<in> set (responseIdList (cleanOrphanedToolCalls ms))"
    using assms(1) responseIdList_iff by blast
  then have "i \<in> collectToolCallIds (cleanOrphanedToolCalls ms)"
    unfolding clean_callIds clean_responseIds by blast
  then obtain m tc where "m \<in> set (cleanOrphanedToolCalls ms)" "hasToolCalls m"
      "tc \<in> set (callsOf m)" "toolCallId tc = i"
    unfolding collectToolCallIds_iff by blast
  moreover have "tool_call_id t = Some i" using a by (simp add: answers_def)
  ultimately show ?thesis by blast
qed

lemma first_result_kept:
  "filter (answers i) (cleanOrphanedToolCalls ms) =
     (if i \<in> collectToolCallIds ms then take 1 (filter (answers i) ms) else [])"
  by (simp add: clean_is_secondPass secondPass_first_answer)

lemma orphaned_message:
  assumes h: "hasToolCalls m"
    and o: "\<forall>tc \<in> set (callsOf m).
              toolCallId tc = [] \<or> toolCallId tc \<notin> collectToolResponseIds (pre @ m # post)"
  shows "cleanOrphanedToolCalls (pre @ m # post) =
           cleanOrphanedToolCalls
             (pre @ (if hasTextContent m then [m\<lparr> tool_calls := None \<rparr>] else []) @ post)"
    and "hasTextContent m \<Longrightarrow>
           m\<lparr> tool_calls := None \<rparr> \<in> set (cleanOrphanedToolCalls (pre @ m # post))"
proof -
  define X where "X = (if hasTextContent m then [m\<lparr> tool_calls := None \<rparr>] else [])"
  define C where "C = collectToolCallIds (pre @ m # post)"
  define R where "R = collectToolResponseIds (pre @ m # post)"
  define a where "a = {} \<union> (set (responseIdList pre) \<inter> C)"
  have nr: "\<not> isToolResponse m" using h by (rule not_both)
  have plain: "\<not> hasToolCalls x \<and> \<not> isToolResponse x" if "x \<in> set X" for x
    using that h by (auto simp: X_def hasToolCalls_def isToolResponse_def split: if_splits)
  have idsX: "responseIdList X = []"
    using plain by (auto simp: responseIdList_def)
  have callsX: "collectToolCallIds X = {}"
    using plain by (auto simp: collectToolCallIds_iff)
  have ids: "responseIdList (pre @ X @ post) = responseIdList (pre @ m # post)"
    using nr idsX by simp
  have R2: "collectToolResponseIds (pre @ X @ post) = R"
    by (simp only: collectToolResponseIds_list ids R_def)
  have valid: "filter (\<lambda>tc. toolCallId tc \<noteq> [] \<and> toolCallId tc \<in> R) (callsOf m) = []"
    using o by (auto simp: filter_empty_conv R_def)
  have fa: "filterAssistant R m = X"
    by (simp add: filterAssistant_def valid X_def)
  have spX: "secondPass C R b (X @ zs) = X @ secondPass C R b zs" for b zs
    using plain by (cases "hasTextContent m") (auto simp: X_def)
  have left: "cleanOrphanedToolCalls (pre @ m # post) =
                secondPass C R {} pre @ X @ secondPass C R a post"
  proof -
    have "secondPass C R a (m # post) = X @ secondPass C R a post"
      using h by (simp add: fa)
    moreover have "cleanOrphanedToolCalls (pre @ m # post) = secondPass C R {} (pre @ m # post)"
      by (simp only: clean_is_secondPass C_def R_def)
    moreover have "secondPass C R {} (pre @ m # post) =
                     secondPass C R {} pre @ secondPass C R a (m # post)"
      unfolding a_def by (rule secondPass_append)
    ultimately show ?thesis by (simp only:)
  qed
  have cong: "\<forall>i \<in> set (responseIdList (pre @ X @ post)).
                i \<in> collectToolCallIds (pre @ X @ post) \<longleftrightarrow> i \<in> C"
  proof
    fix i
    assume "i \<in> set (responseIdList (pre @ X @ post))"
    then have iR: "i \<in> R"
      by (simp only: ids R_def collectToolResponseIds_list)
    have "i \<notin> set (callIdList m)"
    proof
      assume "i \<in> set (callIdList m)"
      then obtain tc where "tc \<in> set (callsOf m)" "toolCallId tc = i" "i \<noteq> []"
        by (auto simp: callIdList_iff)
      then show False using o iR by (auto simp: R_def)
    qed
    then show "i \<in> collectToolCallIds (pre @ X @ post) \<longleftrightarrow> i \<in> C"
      by (simp add: C_def callsX)
  qed
  have right: "cleanOrphanedToolCalls (pre @ X @ post) =
                 secondPass C R {} pre @ X @ secondPass C R a post"
  proof -
    have "cleanOrphanedToolCalls (pre @ X @ post) = secondPass C R {} (pre @ X @ post)"
      unfolding clean_is_secondPass R2 using cong by (rule secondPass_cong)
    moreover have "secondPass C R {} (pre @ X @ post) =
                     secondPass C R {} pre @ secondPass C R a (X @ post)"
      unfolding a_def by (rule secondPass_append)
    ultimately show ?thesis by (simp only: spX)
  qed
  show "cleanOrphanedToolCalls (pre @ m # post) =
           cleanOrphanedToolCalls
             (pre @ (if hasTextContent m then [m\<lparr> tool_calls := None \<rparr>] else []) @ post)"
    using left right by (simp add: X_def)
  show "m\<lparr> tool_calls := None \<rparr> \<in> set (cleanOrphanedToolCalls (pre @ m # post))"
    if "hasTextContent m"
    using that left by (simp add: X_def)
qed

lemma secondPass_fixed:
  assumes "\<forall>x \<in> set xs. answered R x" "set (responseIdList xs) \<subseteq> C"
    "distinct (responseIdList xs)" "set (responseIdList xs) \<inter> added = {}"
  shows "secondPass C R added xs = xs"
  using assms
proof (induction xs arbitrary: added)
  case Nil
  show ?case by simp
next
  case (Cons x xs)
  show ?case
  proof (cases "hasToolCalls x")
    case True
    then have nr: "\<not> isToolResponse x" by (rule not_both)
    have "answered R x" using Cons.prems(1) by simp
    then have "filterAssistant R x = [x]" using True by (simp add: filterAssistant_fixed)
    moreover have "secondPass C R added xs = xs"
      using Cons.prems nr by (intro Cons.IH) auto
    ultimately show ?thesis using True by simp
  next
    case False
    show ?thesis
    proof (cases "isToolResponse x")
      case r: True
      define j where "j = orEmpty (tool_call_id x)"
      have ids: "responseIdList (x # xs) = j # responseIdList xs"
        using r by (simp add: j_def)
      have j: "j \<in> C" "j \<notin> added" "j \<notin> set (responseIdList xs)"
        using Cons.prems(2,3,4) unfolding ids by auto
      have "secondPass C R (insert j added) xs = xs"
      proof (rule Cons.IH)
        show "\<forall>x \<in> set xs. answered R x" using Cons.prems(1) by simp
        show "set (responseIdList xs) \<subseteq> C" using Cons.prems(2) unfolding ids by simp
        show "distinct (responseIdList xs)" using Cons.prems(3) unfolding ids by simp
        show "set (responseIdList xs) \<inter> insert j added = {}"
          using Cons.prems(4) j(3) unfolding ids by auto
      qed
      then show ?thesis
        using False r j by (simp add: j_def)
    next
      case n: False
      then have ids: "responseIdList (x # xs) = responseIdList xs" by simp
      have "secondPass C R added xs = xs"
        using Cons.prems unfolding ids by (intro Cons.IH) auto
      then show ?thesis using False n by simp
    qed
  qed
qed

lemma clean_fixed:
  assumes "\<forall>x \<in> set xs. answered (set (responseIdList xs)) x"
    "set (responseIdList xs) \<subseteq> collectToolCallIds xs"
    "distinct (responseIdList xs)"
  shows "cleanOrphanedToolCalls xs = xs"
  unfolding clean_is_secondPass collectToolResponseIds_list
  using assms by (intro secondPass_fixed) auto

lemma mergeInto_role [simp]: "role (mergeInto l m) = role l"
  by (simp add: mergeInto_def Let_def)

lemma mergeInto_tool_call_id [simp]: "tool_call_id (mergeInto l m) = tool_call_id l"
  by (simp add: mergeInto_def Let_def)

lemma mergeInto_calls: "callsOf (mergeInto l m) = callsOf l @ callsOf m"
  by (auto simp: mergeInto_def callsOf_def Let_def split: option.splits)

lemma assistant_not_response: "role x = RoleAssistant \<Longrightarrow> \<not> isToolResponse x"
  by (simp add: isToolResponse_def)

lemma assistant_callIdList:
  "role x = RoleAssistant \<Longrightarrow>
   callIdList x = filter (\<lambda>i. i \<noteq> []) (map toolCallId (callsOf x))"
  by (auto simp: callIdList_def hasToolCalls_def callsOf_def)

lemma mergeInto_callIdList:
  "role l = RoleAssistant \<Longrightarrow> role m = RoleAssistant \<Longrightarrow>
   callIdList (mergeInto l m) = callIdList l @ callIdList m"
  by (simp add: assistant_callIdList mergeInto_calls)

lemma mergeInto_answered:
  assumes "role l = RoleAssistant" "role m = RoleAssistant" "answered R l" "answered R m"
  shows "answered R (mergeInto l m)"
proof -
  have cl: "callsOf l = [] \<or> hasToolCalls l"
    using assms(1) by (auto simp: hasToolCalls_def callsOf_def)
  have cm: "callsOf m = [] \<or> hasToolCalls m"
    using assms(2) by (auto simp: hasToolCalls_def callsOf_def)
  have ok: "\<forall>tc \<in> set (callsOf l @ callsOf m). toolCallId tc \<noteq> [] \<and> toolCallId tc \<in> R"
    using cl cm assms(3,4) by (auto simp: answered_def)
  have ne: "callsOf l @ callsOf m \<noteq> []" if "hasToolCalls (mergeInto l m)"
  proof (rule ccontr)
    assume "\<not> callsOf l @ callsOf m \<noteq> []"
    then have e: "callsOf l = []" "callsOf m = []" by auto
    then have "tool_calls (mergeInto l m) = tool_calls l"
      by (simp add: mergeInto_def Let_def)
    then have "hasToolCalls l"
      using that assms(1) by (simp add: hasToolCalls_def)
    then show False using assms(3) e by (simp add: answered_def)
  qed
  show ?thesis
    unfolding answered_def mergeInto_calls using ok ne by blast
qed

lemma responseIdList_snoc_assistant:
  "role x = RoleAssistant \<Longrightarrow> responseIdList (xs @ [x]) = responseIdList xs"
  by (simp add: assistant_not_response)

lemma butlast_snoc_last: "xs \<noteq> [] \<Longrightarrow> butlast xs @ [last xs] = xs"
  by simp

lemma mergeLoop_responseIds:
  "responseIdList (mergeLoop merged ms) = responseIdList (merged @ ms)"
proof (induction ms arbitrary: merged)
  case Nil
  show ?case by simp
next
  case (Cons m ms)
  show ?case
  proof (cases "role m = RoleAssistant \<and> merged \<noteq> [] \<and> role (last merged) = RoleAssistant")
    case True
    then have "responseIdList merged = responseIdList (butlast merged @ [last merged])"
      by simp
    also have "\<dots> = responseIdList (butlast merged)"
      using True by (simp only: responseIdList_snoc_assistant)
    finally have a: "responseIdList merged = responseIdList (butlast merged)" .
    have b: "responseIdList (butlast merged @ [mergeInto (last merged) m])
             = responseIdList (butlast merged)"
      using True by (intro responseIdList_snoc_assistant) simp
    have "mergeLoop merged (m # ms) = mergeLoop (butlast merged @ [mergeInto (last merged) m]) ms"
      using True by simp
    then have "responseIdList (mergeLoop merged (m # ms))
          = responseIdList ((butlast merged @ [mergeInto (last merged) m]) @ ms)"
      by (simp only: Cons.IH)
    also have "\<dots> = responseIdList (butlast merged) @ responseIdList ms"
      using b by (simp only: responseIdList_simps)
    also have "\<dots> = responseIdList (merged @ m # ms)"
      using a True by (simp add: assistant_not_response)
    finally show ?thesis .
  next
    case False
    then have "mergeLoop merged (m # ms) = mergeLoop (merged @ [m]) ms" by auto
    then show ?thesis using Cons.IH [of "merged @ [m]"] by simp
  qed
qed

lemma collectToolCallIds_snoc:
  "collectToolCallIds (xs @ [x]) = collectToolCallIds xs \<union> set (callIdList x)"
  by simp

lemma mergeLoop_callIds:
  "collectToolCallIds (mergeLoop merged ms) = collectToolCallIds (merged @ ms)"
proof (induction ms arbitrary: merged)
  case Nil
  show ?case by simp
next
  case (Cons m ms)
  show ?case
  proof (cases "role m = RoleAssistant \<and> merged \<noteq> [] \<and> role (last merged) = RoleAssistant")
    case True
    have "collectToolCallIds merged = collectToolCallIds (butlast merged @ [last merged])"
      using True by simp
    then have a: "collectToolCallIds merged
                  = collectToolCallIds (butlast merged) \<union> set (callIdList (last merged))"
      by (simp only: collectToolCallIds_snoc)
    have b: "collectToolCallIds (butlast merged @ [mergeInto (last merged) m])
             = collectToolCallIds (butlast merged)
               \<union> (set (callIdList (last merged)) \<union> set (callIdList m))"
      using True by (simp add: mergeInto_callIdList)
    have "mergeLoop merged (m # ms) = mergeLoop (butlast merged @ [mergeInto (last merged) m]) ms"
      using True by simp
    then have "collectToolCallIds (mergeLoop merged (m # ms))
          = collectToolCallIds ((butlast merged @ [mergeInto (last merged) m]) @ ms)"
      by (simp only: Cons.IH)
    also have "\<dots> = collectToolCallIds (butlast merged)
                      \<union> (set (callIdList (last merged)) \<union> set (callIdList m))
                      \<union> collectToolCallIds ms"
      using b by (simp only: collectToolCallIds_append)
    also have "\<dots> = collectToolCallIds (merged @ m # ms)"
      using a by auto
    finally show ?thesis .
  next
    case False
    then have "mergeLoop merged (m # ms) = mergeLoop (merged @ [m]) ms" by auto
    then show ?thesis using Cons.IH [of "merged @ [m]"] by simp
  qed
qed

lemma mergeLoop_answered:
  "\<forall>x \<in> set (merged @ ms). answered R x \<Longrightarrow> \<forall>x \<in> set (mergeLoop merged ms). answered R x"
proof (induction ms arbitrary: merged)
  case Nil
  then show ?case by simp
next
  case (Cons m ms)
  show ?case
  proof (cases "role m = RoleAssistant \<and> merged \<noteq> [] \<and> role (last merged) = RoleAssistant")
    case True
    have "answered R (last merged)" "answered R m"
      using True Cons.prems by auto
    then have "answered R (mergeInto (last merged) m)"
      using True by (intro mergeInto_answered) auto
    moreover have "\<forall>x \<in> set (butlast merged). answered R x"
      using Cons.prems by (auto dest: in_set_butlastD)
    ultimately have "\<forall>x \<in> set ((butlast merged @ [mergeInto (last merged) m]) @ ms). answered R x"
      using Cons.prems by auto
    then have "\<forall>x \<in> set (mergeLoop (butlast merged @ [mergeInto (last merged) m]) ms). answered R x"
      by (rule Cons.IH)
    then show ?thesis using True by simp
  next
    case False
    then have e: "mergeLoop merged (m # ms) = mergeLoop (merged @ [m]) ms" by auto
    have "\<forall>x \<in> set (mergeLoop (merged @ [m]) ms). answered R x"
      using Cons.prems by (intro Cons.IH) auto
    then show ?thesis by (simp only: e)
  qed
qed

lemma alternating_snoc:
  "successively notBothAssistant (xs @ [x]) \<longleftrightarrow>
     successively notBothAssistant xs \<and> (xs = [] \<or> notBothAssistant (last xs) x)"
  by (auto simp: successively_append_iff)

lemma mergeLoop_alternating:
  "successively notBothAssistant merged \<Longrightarrow> successively notBothAssistant (mergeLoop merged ms)"
proof (induction ms arbitrary: merged)
  case Nil
  then show ?case by simp
next
  case (Cons m ms)
  show ?case
  proof (cases "role m = RoleAssistant \<and> merged \<noteq> [] \<and> role (last merged) = RoleAssistant")
    case True
    have "successively notBothAssistant (butlast merged @ [last merged])"
      using True Cons.prems by simp
    then have "successively notBothAssistant (butlast merged @ [mergeInto (last merged) m])"
      unfolding alternating_snoc by (simp add: notBothAssistant_def)
    then have "successively notBothAssistant
                 (mergeLoop (butlast merged @ [mergeInto (last merged) m]) ms)"
      by (rule Cons.IH)
    then show ?thesis using True by simp
  next
    case False
    then have e: "mergeLoop merged (m # ms) = mergeLoop (merged @ [m]) ms" by auto
    have "successively notBothAssistant (merged @ [m])"
      unfolding alternating_snoc using Cons.prems False by (auto simp: notBothAssistant_def)
    then have "successively notBothAssistant (mergeLoop (merged @ [m]) ms)"
      by (rule Cons.IH)
    then show ?thesis by (simp only: e)
  qed
qed

lemma mergeLoop_fixed:
  "successively notBothAssistant (merged @ ms) \<Longrightarrow> mergeLoop merged ms = merged @ ms"
proof (induction ms arbitrary: merged)
  case Nil
  show ?case by simp
next
  case (Cons m ms)
  have s: "successively notBothAssistant ((merged @ [m]) @ ms)"
    using Cons.prems by simp
  then have "successively notBothAssistant (merged @ [m])"
    by (simp only: successively_append_iff)
  then have "merged = [] \<or> notBothAssistant (last merged) m"
    by (simp only: alternating_snoc)
  then have "\<not> (role m = RoleAssistant \<and> merged \<noteq> [] \<and> role (last merged) = RoleAssistant)"
    by (auto simp: notBothAssistant_def)
  then have "mergeLoop merged (m # ms) = mergeLoop (merged @ [m]) ms" by auto
  then show ?case using Cons.IH [OF s] by simp
qed

lemma merge_fixed:
  "successively notBothAssistant xs \<Longrightarrow> mergeConsecutiveAssistantMessages xs = xs"
  using mergeLoop_fixed [of "[]" xs] by (simp add: mergeConsecutiveAssistantMessages_def)

lemma merge_alternating:
  "successively notBothAssistant (mergeConsecutiveAssistantMessages xs)"
  unfolding mergeConsecutiveAssistantMessages_def
  by (rule mergeLoop_alternating) simp

lemma example_evaluation:
  "hasToolCalls (assistantMessage txt ids)"
  "\<not> isToolResponse (assistantMessage txt ids)"
  "callsOf (assistantMessage txt ids) = map exampleToolCall ids"
  "\<not> hasToolCalls (toolMessage i txt)"
  "isToolResponse (toolMessage i txt) = (i \<noteq> [])"
  "tool_call_id (toolMessage i txt) = Some i"
  "toolCallId (exampleToolCall i) = i"
  "hasTextContent (assistantMessage txt ids) = (trim txt \<noteq> [])"
  by (simp_all add: assistantMessage_def toolMessage_def exampleToolCall_def hasToolCalls_def
        isToolResponse_def callsOf_def present_def hasTextContent_def)

lemma trim_examples: "trim ''ok'' = ''ok''" "trim '' '' = []" "trim [] = []"
  by (simp_all add: trim_def isWhiteSpace_def)


text \<open>
  Claim C3. The hygiene pass (cleanup of orphaned calls and duplicate results, then
  merging of consecutive assistant messages) is idempotent on every message list.
\<close>

theorem hygiene_idempotent: "hygienePass (hygienePass ms) = hygienePass ms"
proof -
  define c where "c = cleanOrphanedToolCalls ms"
  define g where "g = mergeConsecutiveAssistantMessages c"
  have ids: "responseIdList g = responseIdList c"
    using mergeLoop_responseIds [of "[]" c]
    by (simp add: g_def mergeConsecutiveAssistantMessages_def)
  have calls: "collectToolCallIds g = collectToolCallIds c"
    using mergeLoop_callIds [of "[]" c]
    by (simp add: g_def mergeConsecutiveAssistantMessages_def)
  have "\<forall>x \<in> set ([] @ c). answered (set (responseIdList c)) x"
    using clean_answered [of _ ms] by (simp add: c_def)
  then have "\<forall>x \<in> set (mergeLoop [] c). answered (set (responseIdList c)) x"
    by (rule mergeLoop_answered)
  then have a: "\<forall>x \<in> set g. answered (set (responseIdList g)) x"
    by (simp add: g_def mergeConsecutiveAssistantMessages_def ids [unfolded g_def
          mergeConsecutiveAssistantMessages_def])
  have b: "set (responseIdList g) \<subseteq> collectToolCallIds g"
    unfolding ids calls c_def clean_responseIds clean_callIds by blast
  have d: "distinct (responseIdList g)"
    unfolding ids c_def by (rule clean_distinct)
  have "cleanOrphanedToolCalls g = g"
    using a b d by (rule clean_fixed)
  moreover have "mergeConsecutiveAssistantMessages g = g"
    unfolding g_def by (intro merge_fixed merge_alternating)
  ultimately have "hygienePass g = g"
    by (simp add: hygienePass_def)
  then show ?thesis
    by (simp add: hygienePass_def g_def c_def)
qed


text \<open>
  Claim C2, as amended. In the output of \<open>cleanOrphanedToolCalls\<close>: every call kept on
  an assistant message has a tool message with the same id; every kept tool message
  with a non-empty id has a kept call with that id; for every id, the kept tool
  messages with that id are exactly the first one of the input when the id is a call
  id of the input, and none otherwise. An assistant message whose calls are all
  orphaned is treated as the same message without \<open>tool_calls\<close>, which is kept as it is,
  when its content is a string that is not blank after trimming; otherwise the output
  is the output for the history without that message.
\<close>

theorem hygiene_pairing:
  "(\<forall>m \<in> set (cleanOrphanedToolCalls ms). hasToolCalls m \<longrightarrow>
      (\<forall>tc \<in> set (callsOf m). \<exists>t \<in> set (cleanOrphanedToolCalls ms). answers (toolCallId tc) t))
   \<and> (\<forall>t \<in> set (cleanOrphanedToolCalls ms). isToolResponse t \<longrightarrow>
        (\<exists>m \<in> set (cleanOrphanedToolCalls ms).
           hasToolCalls m \<and> (\<exists>tc \<in> set (callsOf m). tool_call_id t = Some (toolCallId tc))))
   \<and> (\<forall>i. filter (answers i) (cleanOrphanedToolCalls ms) =
             (if i \<in> collectToolCallIds ms then take 1 (filter (answers i) ms) else []))
   \<and> (hasToolCalls m
        \<and> (\<forall>tc \<in> set (callsOf m).
              toolCallId tc = [] \<or> toolCallId tc \<notin> collectToolResponseIds (pre @ m # post))
      \<longrightarrow> (hasTextContent m \<longrightarrow>
             cleanOrphanedToolCalls (pre @ m # post) =
               cleanOrphanedToolCalls (pre @ m\<lparr> tool_calls := None \<rparr> # post)
             \<and> m\<lparr> tool_calls := None \<rparr> \<in> set (cleanOrphanedToolCalls (pre @ m # post)))
        \<and> (\<not> hasTextContent m \<longrightarrow>
             cleanOrphanedToolCalls (pre @ m # post) = cleanOrphanedToolCalls (pre @ post)))"
proof (intro conjI allI ballI impI)
  fix x tc
  assume "x \<in> set (cleanOrphanedToolCalls ms)" "hasToolCalls x" "tc \<in> set (callsOf x)"
  then show "\<exists>t \<in> set (cleanOrphanedToolCalls ms). answers (toolCallId tc) t"
    by (rule kept_call_has_result)
next
  fix t
  assume "t \<in> set (cleanOrphanedToolCalls ms)" "isToolResponse t"
  then show "\<exists>m \<in> set (cleanOrphanedToolCalls ms).
           hasToolCalls m \<and> (\<exists>tc \<in> set (callsOf m). tool_call_id t = Some (toolCallId tc))"
    by (rule kept_result_has_call)
next
  fix i
  show "filter (answers i) (cleanOrphanedToolCalls ms) =
             (if i \<in> collectToolCallIds ms then take 1 (filter (answers i) ms) else [])"
    by (rule first_result_kept)
next
  assume h: "hasToolCalls m
        \<and> (\<forall>tc \<in> set (callsOf m).
              toolCallId tc = [] \<or> toolCallId tc \<notin> collectToolResponseIds (pre @ m # post))"
    and t: "hasTextContent m"
  show "cleanOrphanedToolCalls (pre @ m # post) =
               cleanOrphanedToolCalls (pre @ m\<lparr> tool_calls := None \<rparr> # post)"
    using orphaned_message(1) [of m pre post] h t by simp
  show "m\<lparr> tool_calls := None \<rparr> \<in> set (cleanOrphanedToolCalls (pre @ m # post))"
    using orphaned_message(2) [of m pre post] h t by simp
next
  assume h: "hasToolCalls m
        \<and> (\<forall>tc \<in> set (callsOf m).
              toolCallId tc = [] \<or> toolCallId tc \<notin> collectToolResponseIds (pre @ m # post))"
    and t: "\<not> hasTextContent m"
  show "cleanOrphanedToolCalls (pre @ m # post) = cleanOrphanedToolCalls (pre @ post)"
    using orphaned_message(1) [of m pre post] h t by simp
qed

theorem hygiene_pairing_witness:
  "filter (answers ''call_1'')
     (cleanOrphanedToolCalls
        [assistantMessage [] [''call_1''], toolMessage ''call_1'' ''first'',
         toolMessage ''call_1'' ''second''])
   = [toolMessage ''call_1'' ''first'']
   \<and> cleanOrphanedToolCalls [assistantMessage ''ok'' [''call_1'']]
     = cleanOrphanedToolCalls [(assistantMessage ''ok'' [''call_1''])\<lparr> tool_calls := None \<rparr>]
   \<and> (assistantMessage ''ok'' [''call_1''])\<lparr> tool_calls := None \<rparr>
       \<in> set (cleanOrphanedToolCalls [assistantMessage ''ok'' [''call_1'']])
   \<and> cleanOrphanedToolCalls [assistantMessage [] [''call_1'']] = cleanOrphanedToolCalls []"
proof -
  let ?ms = "[assistantMessage [] [''call_1''], toolMessage ''call_1'' ''first'',
              toolMessage ''call_1'' ''second'']"
  let ?m1 = "assistantMessage ''ok'' [''call_1'']"
  let ?m2 = "assistantMessage [] [''call_1'']"
  note p1 = hygiene_pairing [of ?ms ?m1 "[]" "[]"]
  note p2 = hygiene_pairing [of "[]" ?m2 "[]" "[]"]
  have c: "''call_1'' \<in> collectToolCallIds ?ms"
    by (simp add: callIdList_def example_evaluation)
  have "filter (answers ''call_1'') (cleanOrphanedToolCalls ?ms) =
          (if ''call_1'' \<in> collectToolCallIds ?ms
           then take 1 (filter (answers ''call_1'') ?ms) else [])"
    using p1 by blast
  then have f: "filter (answers ''call_1'') (cleanOrphanedToolCalls ?ms)
                = [toolMessage ''call_1'' ''first'']"
    by (simp only: c if_True) (simp add: answers_def example_evaluation)
  have o: "hasToolCalls (assistantMessage t [''call_1''])
           \<and> (\<forall>tc \<in> set (callsOf (assistantMessage t [''call_1''])).
                 toolCallId tc = []
                 \<or> toolCallId tc \<notin> collectToolResponseIds ([] @ assistantMessage t [''call_1''] # []))"
    for t
    by (simp add: collectToolResponseIds_def example_evaluation)
  have t1: "hasTextContent ?m1" and t2: "\<not> hasTextContent ?m2"
    by (simp_all add: example_evaluation trim_examples)
  have e1: "cleanOrphanedToolCalls ([] @ ?m1 # []) =
              cleanOrphanedToolCalls ([] @ ?m1\<lparr> tool_calls := None \<rparr> # [])
            \<and> ?m1\<lparr> tool_calls := None \<rparr> \<in> set (cleanOrphanedToolCalls ([] @ ?m1 # []))"
    using p1 o [of "''ok''"] t1 by blast
  have e2: "cleanOrphanedToolCalls ([] @ ?m2 # []) = cleanOrphanedToolCalls ([] @ [])"
    using p2 o [of "[]"] t2 by blast
  show ?thesis
    using f e1 e2 unfolding append_Nil by blast
qed


text \<open>
  Claim C2 as stated fails on two histories: an assistant message with the text of one
  space and an orphaned call has non-empty text and is dropped; two tool messages with
  the empty id are both kept, with no call to match.
\<close>

theorem hygiene_counterexample:
  "content (assistantMessage '' '' [''call_1'']) = ContentString '' ''
   \<and> cleanOrphanedToolCalls [assistantMessage '' '' [''call_1'']] = []
   \<and> cleanOrphanedToolCalls [toolMessage [] ''first'', toolMessage [] ''second'']
     = [toolMessage [] ''first'', toolMessage [] ''second'']"
  by (simp add: cleanOrphanedToolCalls_def collectToolCallIds_def collectToolResponseIds_def
        finalToolResponseIds_def finalPass_def filterAssistant_def example_evaluation
        trim_examples Let_def)
    (simp add: assistantMessage_def)



section \<open>Parameter schemas: properties\<close>

lemma charToLowerCase_lower: "\<not> isUpperCase (charToLowerCase c)"
  by (auto simp: charToLowerCase_def isUpperCase_def Let_def)

lemma toLowerCase_lower: "isLowerCaseString (VStr (toLowerCase s))"
  by (simp add: isLowerCaseString_def toLowerCase_def list_all_iff charToLowerCase_lower)

lemma object_lower: "isLowerCaseString (VStr ''object'')"
  by (simp add: isLowerCaseString_def isUpperCase_def)

lemma lower_sanitized: "isLowerCaseString v \<Longrightarrow> sanitized v"
  by (cases v) (simp_all add: isLowerCaseString_def)

lemma convertTypeValue_lower: "isTypeSpec v \<Longrightarrow> isLowerCaseString (convertTypeValue v)"
  by (cases v)
     (auto simp: convertTypeValue_def isTypeSpec_def toLowerCase_lower object_lower
           split: option.splits json.splits)

lemma convertTypeValue_entry:
  assumes "isTypeSpec v \<or> isObjectValue v \<and> sanitized (fromJson v)"
  shows "entrySanitized (''type'', convertTypeValue v)"
proof (cases "isTypeSpec v")
  case True
  then have "isLowerCaseString (convertTypeValue v)" by (rule convertTypeValue_lower)
  then show ?thesis by (simp add: entrySanitized_def lower_sanitized)
next
  case False
  then obtain kvs where v: "v = JObj kvs" and s: "sanitized (fromJson v)"
    using assms by (cases v) (auto simp: isObjectValue_def)
  have "convertTypeValue v = fromJson v"
    using v by (simp add: convertTypeValue_def)
  then show ?thesis
    using s v by (simp add: entrySanitized_def)
qed

lemma getProp_setProp:
  "getProp k (setProp k' v kvs) = (if k = k' then Some v else getProp k kvs)"
  by (induction kvs) (auto simp: getProp_def)

lemma setProp_entries:
  "list_all entrySanitized kvs \<Longrightarrow> entrySanitized (k, v) \<Longrightarrow>
   list_all entrySanitized (setProp k v kvs)"
  by (induction kvs) auto

lemma entriesSanitized_iff:
  "entriesSanitized r \<longleftrightarrow>
     (\<exists>es p. r = VObj es p \<and> list_all entrySanitized es
              \<and> (\<forall>q. p = Some q \<longrightarrow> \<not> isBuiltObject q))"
proof (cases r)
  case (VObj es p)
  show ?thesis
  proof (cases p)
    case None
    then show ?thesis using VObj by simp
  next
    case (Some q)
    then show ?thesis using VObj by (cases q) simp_all
  qed
qed simp_all

lemma getValue_own:
  assumes "\<forall>q. p = Some q \<longrightarrow> \<not> isBuiltObject q"
  shows "getValue k (VObj es p) = getProp k es"
proof (cases p)
  case None
  then show ?thesis by (simp add: getProp_def)
next
  case (Some q)
  then have "\<not> isBuiltObject q" using assms by simp
  then have "getValue k q = None" by (cases q) simp_all
  then show ?thesis using Some by (simp add: getProp_def split: option.splits)
qed

lemma assign_keeps:
  assumes "entriesSanitized r"
    and "key = ''__proto__'' \<longrightarrow> \<not> isBuiltObject v \<and> sanitized v"
    and "key \<noteq> ''__proto__'' \<longrightarrow> entrySanitized (key, v)"
  shows "entriesSanitized (assign key v r)"
proof -
  obtain es p where r: "r = VObj es p" "list_all entrySanitized es"
    "\<forall>q. p = Some q \<longrightarrow> \<not> isBuiltObject q"
    using assms(1) unfolding entriesSanitized_iff by blast
  show ?thesis
  proof (cases "key = ''__proto__''")
    case False
    then have "list_all entrySanitized (setProp key v es)"
      using r(2) assms(3) by (simp add: setProp_entries)
    then show ?thesis
      unfolding entriesSanitized_iff using r False by simp
  next
    case True
    then have v: "\<not> isBuiltObject v" "sanitized v" using assms(2) by simp_all
    show ?thesis
    proof (cases "inheritsSetter (VObj es p)")
      case True
      then show ?thesis
        unfolding entriesSanitized_iff using r v \<open>key = ''__proto__''\<close>
        by (cases v) auto
    next
      case False
      have "entrySanitized (key, v)"
        using v True by (simp add: entrySanitized_def)
      then have "list_all entrySanitized (setProp key v es)"
        using r(2) by (simp add: setProp_entries)
      then show ?thesis
        unfolding entriesSanitized_iff using r False by simp
    qed
  qed
qed

lemma fold_keeps:
  assumes "entriesSanitized r"
    and "\<forall>(key, v) \<in> set kvs.
           (key = ''__proto__'' \<longrightarrow> \<not> isBuiltObject (f key v) \<and> sanitized (f key v))
           \<and> (key \<noteq> ''__proto__'' \<longrightarrow> entrySanitized (key, f key v))"
  shows "entriesSanitized (foldl (\<lambda>result (key, v). assign key (f key v) result) r kvs)"
  using assms
proof (induction kvs arbitrary: r)
  case Nil
  then show ?case by simp
next
  case (Cons kv kvs)
  obtain key v where kv: "kv = (key, v)" by (cases kv)
  have "entriesSanitized (assign key (f key v) r)"
    using Cons.prems kv by (intro assign_keeps) auto
  then have "entriesSanitized
               (foldl (\<lambda>result (key, v). assign key (f key v) result)
                  (assign key (f key v) r) kvs)"
    using Cons.prems(2) by (intro Cons.IH) auto
  then show ?case by (simp add: kv)
qed

lemma truthy_object_type: "isTruthyValue (Some (VStr ''object''))"
  by (simp add: isTruthyValue_def)

lemma entry_object_type: "entrySanitized (''type'', VStr ''object'')"
  by (simp add: entrySanitized_def object_lower)

lemma sanitized_object:
  "sanitized (VObj es p) \<longleftrightarrow>
     list_all entrySanitized es
     \<and> (isTruthyValue (getProp ''properties'' es) \<longrightarrow> isTruthyValue (getProp ''type'' es))"
  by (simp add: entrySanitized_def)

lemma ensureObjectType_sanitized:
  assumes "entriesSanitized r"
  shows "sanitized (ensureObjectType r) \<and> entriesSanitized (ensureObjectType r)"
proof -
  obtain es p where r: "r = VObj es p" "list_all entrySanitized es"
    "\<forall>q. p = Some q \<longrightarrow> \<not> isBuiltObject q"
    using assms unfolding entriesSanitized_iff by blast
  have g: "getValue k r = getProp k es" for k
    unfolding r(1) using r(3) by (rule getValue_own)
  show ?thesis
  proof (cases "isTruthyValue (getProp ''properties'' es) \<and> \<not> isTruthyValue (getProp ''type'' es)")
    case True
    then have e: "ensureObjectType r = VObj (setProp ''type'' (VStr ''object'') es) p"
      unfolding ensureObjectType_def g by (simp add: r(1))
    have "list_all entrySanitized (setProp ''type'' (VStr ''object'') es)"
      using r(2) entry_object_type by (rule setProp_entries)
    then show ?thesis
      unfolding e sanitized_object entriesSanitized_iff
      using r(3) by (simp add: getProp_setProp truthy_object_type)
  next
    case False
    then have e: "ensureObjectType r = VObj es p"
      unfolding ensureObjectType_def g by (auto simp: r(1))
    show ?thesis
      unfolding e sanitized_object entriesSanitized_iff
      using r False by auto
  qed
qed

lemma empty_entries: "entriesSanitized (VObj [] None)"
  by simp

lemma numeric_sanitized:
  "sanitized (fromJson v) \<Longrightarrow> sanitized (numberConstraint nb v)"
  "sanitized (fromJson v) \<Longrightarrow> sanitized (integerConstraint nb v)"
  by (cases v; simp add: numberConstraint_def integerConstraint_def)+

lemma convertTypes_built: "isBuiltObject (convertTypes nb v) \<Longrightarrow> isObjectValue v"
  by (cases v) (simp_all add: isObjectValue_def)

lemma bedrockConvertTypes_built: "isBuiltObject (bedrockConvertTypes v) \<Longrightarrow> isObjectValue v"
  by (cases v) (simp_all add: isObjectValue_def)

lemma convertTypes_sanitized:
  "plainSchema numericKeys v \<Longrightarrow>
   sanitized (convertTypes nb v) \<and> (isObjectValue v \<longrightarrow> entriesSanitized (convertTypes nb v))"
proof (induction nb v rule: convertTypes.induct)
  case (1 nb xs)
  then show ?case by (auto simp: list_all_iff isObjectValue_def)
next
  case (2 nb kvs)
  define f where
    "f = (\<lambda>key v.
            if key = ''type'' then convertTypeValue v
            else if key = ''minimum'' \<or> key = ''maximum'' \<or> key = ''multipleOf''
            then numberConstraint nb v
            else if key = ''minLength'' \<or> key = ''maxLength'' \<or> key = ''minItems''
                    \<or> key = ''maxItems''
            then integerConstraint nb v
            else convertTypes nb v)"
  have entry: "(key = ''__proto__'' \<longrightarrow> \<not> isBuiltObject (f key v) \<and> sanitized (f key v))
               \<and> (key \<noteq> ''__proto__'' \<longrightarrow> entrySanitized (key, f key v))"
    if m: "(key, v) \<in> set kvs" for key v
  proof -
    have p: "if key = ''type'' then isTypeSpec v \<or> isObjectValue v \<and> sanitized (fromJson v)
             else if key \<in> set numericKeys then sanitized (fromJson v)
             else if key = ''__proto__'' then \<not> isObjectValue v \<and> plainSchema numericKeys v
             else plainSchema numericKeys v"
      using "2.prems" m by (auto simp: list_all_iff)
    show ?thesis
    proof (cases "key = ''type''")
      case True
      then show ?thesis
        using p by (simp add: f_def convertTypeValue_entry)
    next
      case nt: False
      show ?thesis
      proof (cases "key \<in> set numericKeys")
        case True
        then have "sanitized (fromJson v)" using p nt by simp
        then have "sanitized (numberConstraint nb v)" "sanitized (integerConstraint nb v)"
          by (simp_all add: numeric_sanitized)
        then show ?thesis
          using nt True by (auto simp: f_def entrySanitized_def numericKeys_def)
      next
        case False
        then have k: "\<not> (key = ''minimum'' \<or> key = ''maximum'' \<or> key = ''multipleOf'')"
          "\<not> (key = ''minLength'' \<or> key = ''maxLength'' \<or> key = ''minItems''
               \<or> key = ''maxItems'')"
          by (auto simp: numericKeys_def)
        have fv: "f key v = convertTypes nb v"
          using nt k by (simp add: f_def)
        have pl: "plainSchema numericKeys v"
          using p nt False by (simp split: if_splits)
        have s: "sanitized (convertTypes nb v)"
          using "2.IH" [OF m refl nt k pl] by simp
        show ?thesis
        proof (cases "key = ''__proto__''")
          case True
          then have "\<not> isObjectValue v" using p nt False by simp
          then have "\<not> isBuiltObject (convertTypes nb v)"
            using convertTypes_built by blast
          then show ?thesis using s True fv by simp
        next
          case False
          then show ?thesis using s nt by (simp add: fv entrySanitized_def)
        qed
      qed
    qed
  qed
  have "entriesSanitized (foldl (\<lambda>result (key, v). assign key (f key v) result) (VObj [] None) kvs)"
    using empty_entries entry by (intro fold_keeps) auto
  then have "sanitized (ensureObjectType
                 (foldl (\<lambda>result (key, v). assign key (f key v) result) (VObj [] None) kvs))
             \<and> entriesSanitized (ensureObjectType
                 (foldl (\<lambda>result (key, v). assign key (f key v) result) (VObj [] None) kvs))"
    by (rule ensureObjectType_sanitized)
  moreover have "convertTypes nb (JObj kvs)
                 = ensureObjectType
                     (foldl (\<lambda>result (key, v). assign key (f key v) result) (VObj [] None) kvs)"
    unfolding f_def by (simp only: convertTypes.simps)
  ultimately show ?case by simp
qed (simp_all add: isObjectValue_def)

lemma bedrockConvertTypes_sanitized:
  "plainSchema [] v \<Longrightarrow>
   sanitized (bedrockConvertTypes v)
   \<and> (isObjectValue v \<longrightarrow> entriesSanitized (bedrockConvertTypes v))"
proof (induction v rule: bedrockConvertTypes.induct)
  case (1 xs)
  then show ?case by (auto simp: list_all_iff isObjectValue_def)
next
  case (2 kvs)
  define f where
    "f = (\<lambda>key v. if key = ''type'' then convertTypeValue v else bedrockConvertTypes v)"
  have entry: "(key = ''__proto__'' \<longrightarrow> \<not> isBuiltObject (f key v) \<and> sanitized (f key v))
               \<and> (key \<noteq> ''__proto__'' \<longrightarrow> entrySanitized (key, f key v))"
    if m: "(key, v) \<in> set kvs" for key v
  proof -
    have p: "if key = ''type'' then isTypeSpec v \<or> isObjectValue v \<and> sanitized (fromJson v)
             else if key = ''__proto__'' then \<not> isObjectValue v \<and> plainSchema [] v
             else plainSchema [] v"
      using "2.prems" m by (auto simp: list_all_iff)
    show ?thesis
    proof (cases "key = ''type''")
      case True
      then show ?thesis
        using p by (simp add: f_def convertTypeValue_entry)
    next
      case nt: False
      have fv: "f key v = bedrockConvertTypes v"
        using nt by (simp add: f_def)
      have pl: "plainSchema [] v"
        using p nt by (simp split: if_splits)
      have s: "sanitized (bedrockConvertTypes v)"
        using "2.IH" [OF m refl nt pl] by simp
      show ?thesis
      proof (cases "key = ''__proto__''")
        case True
        then have "\<not> isObjectValue v" using p nt by simp
        then have "\<not> isBuiltObject (bedrockConvertTypes v)"
          using bedrockConvertTypes_built by blast
        then show ?thesis using s True fv by simp
      next
        case False
        then show ?thesis using s nt by (simp add: fv entrySanitized_def)
      qed
    qed
  qed
  have "entriesSanitized (foldl (\<lambda>result (key, v). assign key (f key v) result) (VObj [] None) kvs)"
    using empty_entries entry by (intro fold_keeps) auto
  then have "sanitized (ensureObjectType
                 (foldl (\<lambda>result (key, v). assign key (f key v) result) (VObj [] None) kvs))
             \<and> entriesSanitized (ensureObjectType
                 (foldl (\<lambda>result (key, v). assign key (f key v) result) (VObj [] None) kvs))"
    by (rule ensureObjectType_sanitized)
  moreover have "bedrockConvertTypes (JObj kvs)
                 = ensureObjectType
                     (foldl (\<lambda>result (key, v). assign key (f key v) result) (VObj [] None) kvs)"
    unfolding f_def by (simp only: bedrockConvertTypes.simps)
  ultimately show ?case by simp
qed (simp_all add: isObjectValue_def)

lemma entry_empty_properties: "entrySanitized (''properties'', VObj [] None)"
  by (simp add: entrySanitized_def getProp_def isTruthyValue_def)

lemma truthy_empty_object: "isTruthyValue (Some (VObj [] None))"
  by (simp add: isTruthyValue_def)

lemma rootSafetyNet_sanitized:
  assumes "entriesSanitized r"
  shows "\<exists>es p. rootSafetyNet r = VObj es p \<and> sanitized (VObj es p)
           \<and> isTruthyValue (getProp ''type'' es) \<and> isTruthyValue (getProp ''properties'' es)"
proof -
  obtain es p where r: "r = VObj es p" "list_all entrySanitized es"
    and pr: "\<forall>q. p = Some q \<longrightarrow> \<not> isBuiltObject q"
    using assms unfolding entriesSanitized_iff by blast
  have g: "getValue k (VObj es' p) = getProp k es'" for k es'
    using pr by (rule getValue_own)
  define e1 where
    "e1 = (if \<not> isTruthyValue (getProp ''type'' es) \<or> isArrayValue (getProp ''type'' es)
           then setProp ''type'' (VStr ''object'') es else es)"
  define e2 where
    "e2 = (case getProp ''type'' e1 of
             Some (VStr t) \<Rightarrow>
               if t \<noteq> ''object'' \<and> toLowerCase t = ''object''
               then setProp ''type'' (VStr ''object'') e1 else e1
           | _ \<Rightarrow> e1)"
  define e3 where
    "e3 = (if \<not> isTruthyValue (getProp ''properties'' e2)
           then setProp ''properties'' (VObj [] None) e2 else e2)"
  have r1: "(if \<not> isTruthyValue (getValue ''type'' r) \<or> isArrayValue (getValue ''type'' r)
             then assign ''type'' (VStr ''object'') r else r) = VObj e1 p"
    unfolding r(1) g by (simp add: e1_def)
  have r2: "(case getValue ''type'' (VObj e1 p) of
               Some (VStr t) \<Rightarrow>
                 if t \<noteq> ''object'' \<and> toLowerCase t = ''object''
                 then assign ''type'' (VStr ''object'') (VObj e1 p) else VObj e1 p
             | _ \<Rightarrow> VObj e1 p) = VObj e2 p"
    unfolding g by (simp add: e2_def split: option.splits jsvalue.splits)
  have r3: "(if \<not> isTruthyValue (getValue ''properties'' (VObj e2 p))
             then assign ''properties'' (VObj [] None) (VObj e2 p) else VObj e2 p) = VObj e3 p"
    unfolding g by (simp add: e3_def)
  have eq: "rootSafetyNet r = VObj e3 p"
    unfolding rootSafetyNet_def Let_def r1 r2 r3 by (rule refl)
  have s1: "list_all entrySanitized e1" and t1: "isTruthyValue (getProp ''type'' e1)"
    using r(2)
    by (auto simp: e1_def setProp_entries entry_object_type getProp_setProp truthy_object_type)
  have s2: "list_all entrySanitized e2" and t2: "isTruthyValue (getProp ''type'' e2)"
    using s1 t1
    by (auto simp: e2_def setProp_entries entry_object_type getProp_setProp truthy_object_type
             split: option.splits jsvalue.splits)
  have s3: "list_all entrySanitized e3" and t3: "isTruthyValue (getProp ''type'' e3)"
    and p3: "isTruthyValue (getProp ''properties'' e3)"
    using s2 t2
    by (auto simp: e3_def setProp_entries entry_empty_properties getProp_setProp
          truthy_empty_object)
  have "sanitized (VObj e3 p)"
    unfolding sanitized_object using s3 t3 by simp
  then show ?thesis
    using eq t3 p3 by blast
qed

lemma bedrockRootSafetyNet_sanitized:
  assumes "entriesSanitized r"
  shows "\<exists>es p. bedrockRootSafetyNet r = VObj es p \<and> sanitized (VObj es p)
           \<and> isTruthyValue (getProp ''type'' es) \<and> isTruthyValue (getProp ''properties'' es)"
proof -
  obtain es p where r: "r = VObj es p" "list_all entrySanitized es"
    and pr: "\<forall>q. p = Some q \<longrightarrow> \<not> isBuiltObject q"
    using assms unfolding entriesSanitized_iff by blast
  have g: "getValue k (VObj es' p) = getProp k es'" for k es'
    using pr by (rule getValue_own)
  define e1 where
    "e1 = (if \<not> isTruthyValue (getProp ''type'' es) \<or> isArrayValue (getProp ''type'' es)
           then setProp ''type'' (VStr ''object'') es else es)"
  define e3 where
    "e3 = (if \<not> isTruthyValue (getProp ''properties'' e1)
           then setProp ''properties'' (VObj [] None) e1 else e1)"
  have r1: "(if \<not> isTruthyValue (getValue ''type'' r) \<or> isArrayValue (getValue ''type'' r)
             then assign ''type'' (VStr ''object'') r else r) = VObj e1 p"
    unfolding r(1) g by (simp add: e1_def)
  have r3: "(if \<not> isTruthyValue (getValue ''properties'' (VObj e1 p))
             then assign ''properties'' (VObj [] None) (VObj e1 p) else VObj e1 p) = VObj e3 p"
    unfolding g by (simp add: e3_def)
  have eq: "bedrockRootSafetyNet r = VObj e3 p"
    unfolding bedrockRootSafetyNet_def Let_def r1 r3 by (rule refl)
  have s1: "list_all entrySanitized e1" and t1: "isTruthyValue (getProp ''type'' e1)"
    using r(2)
    by (auto simp: e1_def setProp_entries entry_object_type getProp_setProp truthy_object_type)
  have s3: "list_all entrySanitized e3" and t3: "isTruthyValue (getProp ''type'' e3)"
    and p3: "isTruthyValue (getProp ''properties'' e3)"
    using s1 t1
    by (auto simp: e3_def setProp_entries entry_empty_properties getProp_setProp
          truthy_empty_object)
  have "sanitized (VObj e3 p)"
    unfolding sanitized_object using s3 t3 by simp
  then show ?thesis
    using eq t3 p3 by blast
qed

lemma openai_parameters_sanitized:
  assumes "plainSchema numericKeys (JObj kvs)"
  shows "\<exists>es p. convertGeminiParametersToOpenAI nb (Some kvs) = VObj es p
           \<and> sanitized (VObj es p)
           \<and> isTruthyValue (getProp ''type'' es) \<and> isTruthyValue (getProp ''properties'' es)"
proof -
  have "entriesSanitized (convertTypes nb (JObj kvs))"
    using convertTypes_sanitized [OF assms, of nb] by (simp add: isObjectValue_def)
  then show ?thesis
    unfolding convertGeminiParametersToOpenAI_def option.case
    by (rule rootSafetyNet_sanitized)
qed

lemma bedrock_parameters_sanitized:
  assumes "plainSchema [] (JObj kvs)"
  shows "\<exists>es p. convertGeminiParametersToBedrock (Some kvs) = VObj es p
           \<and> sanitized (VObj es p)
           \<and> isTruthyValue (getProp ''type'' es) \<and> isTruthyValue (getProp ''properties'' es)"
proof -
  have "entriesSanitized (bedrockConvertTypes (JObj kvs))"
    using bedrockConvertTypes_sanitized [OF assms] by (simp add: isObjectValue_def)
  then show ?thesis
    unfolding convertGeminiParametersToBedrock_def option.case
    by (rule bedrockRootSafetyNet_sanitized)
qed

lemma map_of_map_entries:
  "map_of (map (\<lambda>(k, v). (k, g k v)) kvs) k = map_option (g k) (map_of kvs k)"
  by (induction kvs) auto

lemma map_of_filter_key:
  "map_of (filter (\<lambda>(k, v). k \<noteq> a) kvs) k = (if k = a then None else map_of kvs k)"
  by (induction kvs) auto

lemma keys_of_entries:
  "map fst (map (\<lambda>(key, v). (key, g key v)) (filter (\<lambda>(key, v). key \<noteq> a) kvs))
   = filter (\<lambda>k. k \<noteq> a) (map fst kvs)"
  by (induction kvs) auto

lemma traverse_entries:
  "\<exists>r. traverse (JObj kvs) = JObj r
     \<and> map fst r = filter (\<lambda>k. k \<noteq> ''additionalProperties'') (map fst kvs)
     \<and> getProp ''additionalProperties'' r = None
     \<and> getProp ''type'' r =
         map_option (\<lambda>v. case v of
                           JArr ts \<Rightarrow>
                             (case find (\<lambda>t. t \<noteq> JStr ''null'') ts of
                                Some t \<Rightarrow> traverse (orString t)
                              | None \<Rightarrow> JStr ''string'')
                         | _ \<Rightarrow> traverse v)
           (getProp ''type'' kvs)
     \<and> (\<forall>k. k \<noteq> ''type'' \<and> k \<noteq> ''additionalProperties''
            \<longrightarrow> getProp k r = map_option traverse (getProp k kvs))"
proof -
  define g where
    "g = (\<lambda>key v. if key = ''type'' then
                     (case v of
                        JArr ts \<Rightarrow>
                          (case find (\<lambda>t. t \<noteq> JStr ''null'') ts of
                             Some t \<Rightarrow> traverse (orString t)
                           | None \<Rightarrow> JStr ''string'')
                      | _ \<Rightarrow> traverse v)
                   else traverse v)"
  define r where
    "r = map (\<lambda>(key, v). (key, g key v))
           (filter (\<lambda>(key, v). key \<noteq> ''additionalProperties'') kvs)"
  have t: "traverse (JObj kvs) = JObj r"
    by (simp add: r_def g_def)
  have m: "getProp k r = (if k = ''additionalProperties'' then None
                          else map_option (g k) (getProp k kvs))" for k
    by (simp add: r_def getProp_def map_of_map_entries map_of_filter_key)
  have f: "map fst r = filter (\<lambda>k. k \<noteq> ''additionalProperties'') (map fst kvs)"
    unfolding r_def by (rule keys_of_entries)
  have "getProp ''type'' r = map_option (g ''type'') (getProp ''type'' kvs)"
    by (simp add: m)
  moreover have "g ''type'' = (\<lambda>v. case v of
                           JArr ts \<Rightarrow>
                             (case find (\<lambda>t. t \<noteq> JStr ''null'') ts of
                                Some t \<Rightarrow> traverse (orString t)
                              | None \<Rightarrow> JStr ''string'')
                         | _ \<Rightarrow> traverse v)"
    by (simp add: g_def)
  moreover have "getProp k r = map_option traverse (getProp k kvs)"
    if "k \<noteq> ''type'' \<and> k \<noteq> ''additionalProperties''" for k
  proof -
    have "g k = traverse" using that by (simp add: g_def fun_eq_iff)
    then show ?thesis using that by (simp add: m)
  qed
  moreover have "getProp ''additionalProperties'' r = None"
    by (simp add: m)
  ultimately show ?thesis
    using t f by simp
qed

lemma find_not_null:
  "find (\<lambda>t. t \<noteq> JStr ''null'') (map JStr names) =
     (case filter (\<lambda>n. n \<noteq> ''null'') names of [] \<Rightarrow> None | n # _ \<Rightarrow> Some (JStr n))"
  by (induction names) auto

lemma traverse_type_names:
  assumes "getProp ''type'' kvs = Some (JArr (map JStr names))"
  shows "\<exists>r. traverse (JObj kvs) = JObj r
           \<and> getProp ''type'' r =
               Some (case filter (\<lambda>n. n \<noteq> ''null'') names of
                       [] \<Rightarrow> JStr ''string''
                     | n # _ \<Rightarrow> if n = [] then JStr ''string'' else JStr n)"
proof -
  obtain r where r: "traverse (JObj kvs) = JObj r"
    "getProp ''type'' r =
         map_option (\<lambda>v. case v of
                           JArr ts \<Rightarrow>
                             (case find (\<lambda>t. t \<noteq> JStr ''null'') ts of
                                Some t \<Rightarrow> traverse (orString t)
                              | None \<Rightarrow> JStr ''string'')
                         | _ \<Rightarrow> traverse v)
           (getProp ''type'' kvs)"
    using traverse_entries [of kvs] by blast
  have "getProp ''type'' r =
               Some (case filter (\<lambda>n. n \<noteq> ''null'') names of
                       [] \<Rightarrow> JStr ''string''
                     | n # _ \<Rightarrow> if n = [] then JStr ''string'' else JStr n)"
    unfolding r(2) assms
    by (simp add: find_not_null orString_def split: list.splits)
  with r(1) show ?thesis by blast
qed

lemma traverse_type_kept:
  assumes "getProp ''type'' kvs = Some v" "v = JNull \<or> v = JStr s"
  shows "\<exists>r. traverse (JObj kvs) = JObj r \<and> getProp ''type'' r = Some v"
proof -
  obtain r where r: "traverse (JObj kvs) = JObj r"
    "getProp ''type'' r =
         map_option (\<lambda>v. case v of
                           JArr ts \<Rightarrow>
                             (case find (\<lambda>t. t \<noteq> JStr ''null'') ts of
                                Some t \<Rightarrow> traverse (orString t)
                              | None \<Rightarrow> JStr ''string'')
                         | _ \<Rightarrow> traverse v)
           (getProp ''type'' kvs)"
    using traverse_entries [of kvs] by blast
  have "getProp ''type'' r = Some v"
    unfolding r(2) assms(1) using assms(2) by auto
  with r(1) show ?thesis by blast
qed

lemma sanitizeJsonSchema_wraps:
  assumes "isTruthy (getProp ''type'' schema)" "getProp ''type'' schema \<noteq> Some (JStr ''object'')"
  shows "sanitizeJsonSchema schema = wrappedSchema schema"
  using assms by (simp add: sanitizeJsonSchema_def wrappedSchema_def)

lemma sanitizeJsonSchema_root:
  "\<exists>r. sanitizeJsonSchema schema = JObj r \<and> getProp ''type'' r = Some (JStr ''object'')"
proof (cases "isTruthy (getProp ''type'' schema)")
  case False
  have "getProp ''type'' (setProp ''type'' (JStr ''object'') schema) = Some (JStr ''object'')"
    by (simp add: getProp_setProp)
  from traverse_type_kept [OF this, of "''object''"]
  show ?thesis using False by (simp add: sanitizeJsonSchema_def)
next
  case True
  show ?thesis
  proof (cases "getProp ''type'' schema = Some (JStr ''object'')")
    case False
    then show ?thesis
      using True by (simp add: sanitizeJsonSchema_def getProp_def)
  next
    case o: True
    from traverse_type_kept [OF this, of "''object''"]
    show ?thesis using True o by (simp add: sanitizeJsonSchema_def)
  qed
qed

lemma traverse_name: "isName t \<Longrightarrow> bedrockReady (traverse (orString t)) \<and> \<not> isArray (traverse (orString t))"
  by (cases t) (simp_all add: isName_def orString_def isArray_def)

lemma find_in_set: "find P xs = Some x \<Longrightarrow> x \<in> set xs"
  by (induction xs) (auto split: if_splits)

lemma traverse_ready: "typeArraysOfNames v \<Longrightarrow> bedrockReady (traverse v)"
proof (induction v)
  case (JArr xs)
  then show ?case by (auto simp: list_all_iff)
next
  case (JObj kvs)
  have "k \<noteq> ''additionalProperties''
        \<and> (k = ''type'' \<longrightarrow> \<not> isArray
              (if k = ''type'' then
                 (case v of
                    JArr ts \<Rightarrow>
                      (case find (\<lambda>t. t \<noteq> JStr ''null'') ts of
                         Some t \<Rightarrow> traverse (orString t)
                       | None \<Rightarrow> JStr ''string'')
                  | _ \<Rightarrow> traverse v)
               else traverse v))
        \<and> bedrockReady
              (if k = ''type'' then
                 (case v of
                    JArr ts \<Rightarrow>
                      (case find (\<lambda>t. t \<noteq> JStr ''null'') ts of
                         Some t \<Rightarrow> traverse (orString t)
                       | None \<Rightarrow> JStr ''string'')
                  | _ \<Rightarrow> traverse v)
               else traverse v)"
    if m: "(k, v) \<in> set kvs" "k \<noteq> ''additionalProperties''" for k v
  proof -
    have p: "(k = ''type'' \<longrightarrow> (case v of JArr ts \<Rightarrow> list_all isName ts | _ \<Rightarrow> True))"
      "typeArraysOfNames v"
      using JObj.prems m(1) by (auto simp: list_all_iff)
    have ih: "bedrockReady (traverse v)"
      using JObj.IH [of "(k, v)" v] m(1) p(2) by simp
    show ?thesis
    proof (cases "k = ''type''")
      case False
      then show ?thesis using ih m(2) by simp
    next
      case True
      show ?thesis
      proof (cases v)
        case (JArr ts)
        then have names: "list_all isName ts" using p(1) True by simp
        show ?thesis
        proof (cases "find (\<lambda>t. t \<noteq> JStr ''null'') ts")
          case None
          then show ?thesis using True JArr m(2) by (simp add: isArray_def)
        next
          case (Some t)
          then have "isName t"
            using names find_in_set [OF Some] by (simp add: list_all_iff)
          then show ?thesis
            using True JArr Some m(2) traverse_name [of t] by simp
        qed
      qed (use True ih m(2) in \<open>simp_all add: isArray_def\<close>)
    qed
  qed
  then show ?case
    by (auto simp: list_all_iff)
qed simp_all

lemma find_map_JStr:
  "find isNonNullTypeName (map JStr names) =
     (case filter (\<lambda>n. toLowerCase n \<noteq> ''null'') names of [] \<Rightarrow> None | n # _ \<Rightarrow> Some (JStr n))"
  by (induction names) (auto simp: isNonNullTypeName_def)

lemma convertTypeValue_names:
  "convertTypeValue (JArr (map JStr names)) =
     (case filter (\<lambda>n. toLowerCase n \<noteq> ''null'') names of
        [] \<Rightarrow> VStr ''object''
      | n # _ \<Rightarrow> if n = [] then VStr ''object'' else VStr (toLowerCase n))"
  by (simp add: convertTypeValue_def find_map_JStr split: list.splits)

lemma lower_examples:
  "toLowerCase ''OBJECT'' = ''object''" "toLowerCase ''null'' = ''null''"
  "toLowerCase ''STRING'' = ''string''" "toLowerCase ''Null'' = ''null''"
  "toLowerCase ''ARRAY'' = ''array''" "toLowerCase ''array'' = ''array''"
  "toLowerCase ''object'' = ''object''" "toLowerCase ''string'' = ''string''"
  by (simp_all add: toLowerCase_def charToLowerCase_def isUpperCase_def char_of_eq_iff)

lemma setProp_names:
  "list_all P kvs \<Longrightarrow> P (k, v) \<Longrightarrow> list_all P (setProp k v kvs)"
  by (induction kvs) auto

lemma sanitizeJsonSchema_ready:
  assumes "\<not> isTruthy (getProp ''type'' schema) \<or> getProp ''type'' schema = Some (JStr ''object'')"
    and "typeArraysOfNames (JObj schema)"
  shows "bedrockReady (sanitizeJsonSchema schema)"
proof (cases "isTruthy (getProp ''type'' schema)")
  case True
  then have "sanitizeJsonSchema schema = traverse (JObj schema)"
    using assms(1) by (simp add: sanitizeJsonSchema_def)
  then show ?thesis using assms(2) by (simp only: traverse_ready)
next
  case False
  have "typeArraysOfNames (JObj (setProp ''type'' (JStr ''object'') schema))"
    using assms(2) by (simp add: setProp_names)
  then have "bedrockReady (traverse (JObj (setProp ''type'' (JStr ''object'') schema)))"
    by (rule traverse_ready)
  then show ?thesis using False by (simp only: sanitizeJsonSchema_def if_True simp_thms)
qed


text \<open>
  Claim C4, as amended. For a schema tree in which, at every depth, a \<open>type\<close> field holds
  null, a string or an array, no key \<open>__proto__\<close> holds an object, and (for
  \<open>convertGeminiParametersToOpenAI\<close>) the value of a numeric-constraint key holds no
  unsanitized \<open>type\<close>, \<open>convertGeminiParametersToOpenAI\<close> and
  \<open>convertGeminiParametersToBedrock\<close> return a tree in which every \<open>type\<close> field is a
  single lowercase string and every object with a truthy \<open>properties\<close> has a non-empty
  \<open>type\<close>; the root has \<open>type\<close> and \<open>properties\<close>. A null type becomes \<open>object\<close>, a string
  is lowercased, an array of strings becomes its first entry other than \<open>null\<close> (compared
  in lowercase), lowercased, and \<open>object\<close> when there is none or it is empty.
  \<open>sanitizeJsonSchema\<close> returns an object of type \<open>object\<close>: it wraps a schema whose root
  type is truthy and not the string \<open>object\<close>, as it is; otherwise, in every object at
  every depth, it removes \<open>additionalProperties\<close>, replaces an array of strings under
  \<open>type\<close> by its first entry other than \<open>null\<close> as it is written (\<open>string\<close> when there is
  none or it is empty), and leaves a null or string type as it is.
\<close>

theorem schema_sanitizer:
  "(plainSchema numericKeys (JObj kvs) \<longrightarrow>
      (\<exists>es p. convertGeminiParametersToOpenAI nb (Some kvs) = VObj es p
         \<and> sanitized (VObj es p)
         \<and> isTruthyValue (getProp ''type'' es) \<and> isTruthyValue (getProp ''properties'' es)))
   \<and> (plainSchema [] (JObj kvs) \<longrightarrow>
      (\<exists>es p. convertGeminiParametersToBedrock (Some kvs) = VObj es p
         \<and> sanitized (VObj es p)
         \<and> isTruthyValue (getProp ''type'' es) \<and> isTruthyValue (getProp ''properties'' es)))
   \<and> convertGeminiParametersToOpenAI nb None
       = VObj [(''type'', VStr ''object''), (''properties'', VObj [] None)] None
   \<and> convertGeminiParametersToBedrock None
       = VObj [(''type'', VStr ''object''), (''properties'', VObj [] None)] None
   \<and> convertTypeValue JNull = VStr ''object''
   \<and> convertTypeValue (JStr s) = VStr (toLowerCase s)
   \<and> convertTypeValue (JArr (map JStr names)) =
       (case filter (\<lambda>n. toLowerCase n \<noteq> ''null'') names of
          [] \<Rightarrow> VStr ''object''
        | n # _ \<Rightarrow> if n = [] then VStr ''object'' else VStr (toLowerCase n))
   \<and> (isTruthy (getProp ''type'' schema) \<and> getProp ''type'' schema \<noteq> Some (JStr ''object'')
        \<longrightarrow> sanitizeJsonSchema schema = wrappedSchema schema)
   \<and> (\<exists>r. sanitizeJsonSchema schema = JObj r \<and> getProp ''type'' r = Some (JStr ''object''))
   \<and> ((\<not> isTruthy (getProp ''type'' plain) \<or> getProp ''type'' plain = Some (JStr ''object''))
        \<and> typeArraysOfNames (JObj plain)
        \<longrightarrow> bedrockReady (sanitizeJsonSchema plain))
   \<and> (getProp ''type'' obj = Some (JArr (map JStr names)) \<longrightarrow>
        (\<exists>r. traverse (JObj obj) = JObj r
           \<and> getProp ''type'' r =
               Some (case filter (\<lambda>n. n \<noteq> ''null'') names of
                       [] \<Rightarrow> JStr ''string''
                     | n # _ \<Rightarrow> if n = [] then JStr ''string'' else JStr n)))
   \<and> (getProp ''type'' kept = Some v \<and> (v = JNull \<or> v = JStr s) \<longrightarrow>
        (\<exists>r. traverse (JObj kept) = JObj r \<and> getProp ''type'' r = Some v))
   \<and> (k \<noteq> ''type'' \<and> k \<noteq> ''additionalProperties'' \<longrightarrow>
        (\<exists>r. traverse (JObj obj) = JObj r
           \<and> getProp k r = map_option traverse (getProp k obj)
           \<and> getProp ''additionalProperties'' r = None))"
proof -
  have c1: "plainSchema numericKeys (JObj kvs) \<longrightarrow>
      (\<exists>es p. convertGeminiParametersToOpenAI nb (Some kvs) = VObj es p
         \<and> sanitized (VObj es p)
         \<and> isTruthyValue (getProp ''type'' es) \<and> isTruthyValue (getProp ''properties'' es))"
    using openai_parameters_sanitized [of kvs nb] by blast
  have c2: "plainSchema [] (JObj kvs) \<longrightarrow>
      (\<exists>es p. convertGeminiParametersToBedrock (Some kvs) = VObj es p
         \<and> sanitized (VObj es p)
         \<and> isTruthyValue (getProp ''type'' es) \<and> isTruthyValue (getProp ''properties'' es))"
    using bedrock_parameters_sanitized [of kvs] by blast
  have c3: "convertGeminiParametersToOpenAI nb None
       = VObj [(''type'', VStr ''object''), (''properties'', VObj [] None)] None"
    by (simp add: convertGeminiParametersToOpenAI_def)
  have c4: "convertGeminiParametersToBedrock None
       = VObj [(''type'', VStr ''object''), (''properties'', VObj [] None)] None"
    by (simp add: convertGeminiParametersToBedrock_def)
  have c5: "convertTypeValue JNull = VStr ''object''"
    by (simp add: convertTypeValue_def)
  have c6: "convertTypeValue (JStr s) = VStr (toLowerCase s)"
    by (simp add: convertTypeValue_def)
  have c7: "convertTypeValue (JArr (map JStr names)) =
       (case filter (\<lambda>n. toLowerCase n \<noteq> ''null'') names of
          [] \<Rightarrow> VStr ''object''
        | n # _ \<Rightarrow> if n = [] then VStr ''object'' else VStr (toLowerCase n))"
    by (rule convertTypeValue_names)
  have c8: "isTruthy (getProp ''type'' schema) \<and> getProp ''type'' schema \<noteq> Some (JStr ''object'')
        \<longrightarrow> sanitizeJsonSchema schema = wrappedSchema schema"
    using sanitizeJsonSchema_wraps [of schema] by blast
  have c9: "\<exists>r. sanitizeJsonSchema schema = JObj r \<and> getProp ''type'' r = Some (JStr ''object'')"
    by (rule sanitizeJsonSchema_root)
  have c10: "(\<not> isTruthy (getProp ''type'' plain) \<or> getProp ''type'' plain = Some (JStr ''object''))
        \<and> typeArraysOfNames (JObj plain)
        \<longrightarrow> bedrockReady (sanitizeJsonSchema plain)"
    using sanitizeJsonSchema_ready [of plain] by blast
  have c11: "getProp ''type'' obj = Some (JArr (map JStr names)) \<longrightarrow>
        (\<exists>r. traverse (JObj obj) = JObj r
           \<and> getProp ''type'' r =
               Some (case filter (\<lambda>n. n \<noteq> ''null'') names of
                       [] \<Rightarrow> JStr ''string''
                     | n # _ \<Rightarrow> if n = [] then JStr ''string'' else JStr n))"
    using traverse_type_names [of obj names] by blast
  have c12: "getProp ''type'' kept = Some v \<and> (v = JNull \<or> v = JStr s) \<longrightarrow>
        (\<exists>r. traverse (JObj kept) = JObj r \<and> getProp ''type'' r = Some v)"
    using traverse_type_kept [of kept v s] by blast
  have c13: "k \<noteq> ''type'' \<and> k \<noteq> ''additionalProperties'' \<longrightarrow>
        (\<exists>r. traverse (JObj obj) = JObj r
           \<and> getProp k r = map_option traverse (getProp k obj)
           \<and> getProp ''additionalProperties'' r = None)"
    using traverse_entries [of obj] by blast
  show ?thesis
    by (rule conjI [OF c1 conjI [OF c2 conjI [OF c3 conjI [OF c4 conjI [OF c5 conjI [OF c6
          conjI [OF c7 conjI [OF c8 conjI [OF c9 conjI [OF c10 conjI [OF c11
          conjI [OF c12 c13]]]]]]]]]]]])
qed
lemma example_converted:
  "convertGeminiParametersToOpenAI exampleNumbers (Some exampleParameters) =
     VObj [(''properties'',
            VObj [(''path'', VObj [(''type'', VStr ''string'')] None),
                  (''opts'', VObj [(''type'', VStr ''object''), (''properties'', VObj [] None)]
                               None)] None),
           (''type'', VStr ''object'')] None"
  by (simp add: convertGeminiParametersToOpenAI_def exampleParameters_def
        convertTypeValue_def isNonNullTypeName_def lower_examples ensureObjectType_def
        rootSafetyNet_def getProp_def isTruthyValue_def isArrayValue_def Let_def)

lemma example_strict:
  "sanitizeJsonSchema exampleStrict =
     JObj [(''type'', JStr ''object''),
           (''properties'',
            JObj [(''a'', JObj [(''type'', JNull)]),
                  (''b'', JObj [(''type'', JStr ''STRING'')])])]"
  by (simp add: sanitizeJsonSchema_def exampleStrict_def getProp_def isTruthy_def orString_def)

theorem schema_sanitizer_witness:
  "convertGeminiParametersToOpenAI exampleNumbers (Some exampleParameters) =
     VObj [(''properties'',
            VObj [(''path'', VObj [(''type'', VStr ''string'')] None),
                  (''opts'', VObj [(''type'', VStr ''object''), (''properties'', VObj [] None)]
                               None)] None),
           (''type'', VStr ''object'')] None
   \<and> (\<exists>es p. convertGeminiParametersToOpenAI exampleNumbers (Some exampleParameters) = VObj es p
          \<and> sanitized (VObj es p)
          \<and> isTruthyValue (getProp ''type'' es) \<and> isTruthyValue (getProp ''properties'' es))
   \<and> (\<exists>es p. convertGeminiParametersToBedrock (Some exampleParameters) = VObj es p
          \<and> sanitized (VObj es p)
          \<and> isTruthyValue (getProp ''type'' es) \<and> isTruthyValue (getProp ''properties'' es))
   \<and> sanitizeJsonSchema exampleWrapped = wrappedSchema exampleWrapped
   \<and> bedrockReady (sanitizeJsonSchema exampleStrict)
   \<and> (\<exists>r. traverse (JObj [(''type'', JArr [JStr ''STRING'', JStr ''null''])]) = JObj r
          \<and> getProp ''type'' r = Some (JStr ''STRING''))
   \<and> (\<exists>r. traverse (JObj [(''type'', JNull)]) = JObj r \<and> getProp ''type'' r = Some JNull)
   \<and> (\<exists>r. traverse (JObj exampleStrict) = JObj r
          \<and> getProp ''properties'' r = map_option traverse (getProp ''properties'' exampleStrict)
          \<and> getProp ''additionalProperties'' r = None)"
proof -
  note t = schema_sanitizer
      [where kvs = exampleParameters and nb = exampleNumbers and schema = exampleWrapped
         and plain = exampleStrict
         and obj = "[(''type'', JArr [JStr ''STRING'', JStr ''null''])]"
         and names = "[''STRING'', ''null'']"
         and kept = "[(''type'', JNull)]" and v = JNull
         and k = "''properties''"]
  have p: "plainSchema numericKeys (JObj exampleParameters)"
    "plainSchema [] (JObj exampleParameters)"
    by (simp_all add: exampleParameters_def isTypeSpec_def numericKeys_def)
  have w: "isTruthy (getProp ''type'' exampleWrapped)
           \<and> getProp ''type'' exampleWrapped \<noteq> Some (JStr ''object'')"
    by (simp add: exampleWrapped_def getProp_def isTruthy_def)
  have s: "(\<not> isTruthy (getProp ''type'' exampleStrict)
            \<or> getProp ''type'' exampleStrict = Some (JStr ''object''))
           \<and> typeArraysOfNames (JObj exampleStrict)"
    by (simp add: exampleStrict_def getProp_def isName_def)
  have n: "getProp ''type'' [(''type'', JArr [JStr ''STRING'', JStr ''null''])]
           = Some (JArr (map JStr [''STRING'', ''null'']))"
    by (simp add: getProp_def)
  have k: "getProp ''type'' [(''type'', JNull)] = Some JNull \<and> (JNull = JNull \<or> JNull = JStr s)"
    for s by (simp add: getProp_def)
  have w1: "\<exists>es p. convertGeminiParametersToOpenAI exampleNumbers (Some exampleParameters) = VObj es p
          \<and> sanitized (VObj es p)
          \<and> isTruthyValue (getProp ''type'' es) \<and> isTruthyValue (getProp ''properties'' es)"
    using t [THEN conjunct1] p(1) by blast
  have w2: "\<exists>es p. convertGeminiParametersToBedrock (Some exampleParameters) = VObj es p
          \<and> sanitized (VObj es p)
          \<and> isTruthyValue (getProp ''type'' es) \<and> isTruthyValue (getProp ''properties'' es)"
    using t [THEN conjunct2, THEN conjunct1] p(2) by blast
  note t8 = t [THEN conjunct2, THEN conjunct2, THEN conjunct2, THEN conjunct2, THEN conjunct2,
               THEN conjunct2, THEN conjunct2]
  have w3: "sanitizeJsonSchema exampleWrapped = wrappedSchema exampleWrapped"
    using t8 [THEN conjunct1] w by blast
  have w4: "bedrockReady (sanitizeJsonSchema exampleStrict)"
    using t8 [THEN conjunct2, THEN conjunct2, THEN conjunct1] s by blast
  have w5: "\<exists>r. traverse (JObj [(''type'', JArr [JStr ''STRING'', JStr ''null''])]) = JObj r
          \<and> getProp ''type'' r = Some (JStr ''STRING'')"
    using t8 [THEN conjunct2, THEN conjunct2, THEN conjunct2, THEN conjunct1] n by simp
  have w6: "\<exists>r. traverse (JObj [(''type'', JNull)]) = JObj r \<and> getProp ''type'' r = Some JNull"
    using t8 [THEN conjunct2, THEN conjunct2, THEN conjunct2, THEN conjunct2, THEN conjunct1] k
    by blast
  have w7: "\<exists>r. traverse (JObj exampleStrict) = JObj r
          \<and> getProp ''properties'' r = map_option traverse (getProp ''properties'' exampleStrict)
          \<and> getProp ''additionalProperties'' r = None"
    using schema_sanitizer
            [where obj = exampleStrict and k = "''properties''",
             THEN conjunct2, THEN conjunct2, THEN conjunct2, THEN conjunct2, THEN conjunct2,
             THEN conjunct2, THEN conjunct2, THEN conjunct2, THEN conjunct2, THEN conjunct2,
             THEN conjunct2, THEN conjunct2]
    by simp
  show ?thesis
    by (rule conjI [OF example_converted conjI [OF w1 conjI [OF w2 conjI [OF w3 conjI [OF w4
          conjI [OF w5 conjI [OF w6 w7]]]]]]])
qed



text \<open>
  Claim C4 as stated fails on these schemas, each with a null or array-valued type: an
  object that declares \<open>properties\<close> and the type \<open>ARRAY\<close> keeps the type \<open>array\<close>;
  \<open>sanitizeJsonSchema\<close> leaves a nested null type and does not lowercase \<open>STRING\<close>; below
  a property named \<open>type\<close>, and for \<open>convertGeminiParametersToOpenAI\<close> below a property
  named \<open>maximum\<close>, an array-valued type is left as it is; a key \<open>__proto__\<close> that holds
  an object with a \<open>type\<close> becomes the prototype of the result, which then gets no \<open>type\<close>
  of its own next to its \<open>properties\<close>.
\<close>

theorem schema_sanitizer_counterexample:
  "convertGeminiParametersToOpenAI exampleNumbers
     (Some [(''type'', JStr ''ARRAY''),
            (''properties'', JObj [(''a'', JObj [(''type'', JNull)])])])
   = VObj [(''type'', VStr ''array''),
           (''properties'', VObj [(''a'', VObj [(''type'', VStr ''object'')] None)] None)] None
   \<and> sanitizeJsonSchema
       [(''type'', JStr ''object''),
        (''properties'',
         JObj [(''a'', JObj [(''type'', JNull)]),
               (''b'', JObj [(''type'', JArr [JStr ''STRING'', JStr ''null''])])])]
     = JObj [(''type'', JStr ''object''),
             (''properties'',
              JObj [(''a'', JObj [(''type'', JNull)]),
                    (''b'', JObj [(''type'', JStr ''STRING'')])])]
   \<and> convertGeminiParametersToOpenAI exampleNumbers
       (Some [(''properties'',
               JObj [(''type'', JObj [(''type'', JArr [JStr ''string'', JStr ''null''])])])])
     = VObj [(''properties'',
              VObj [(''type'', VObj [(''type'', VArr [VStr ''string'', VStr ''null''])] None)]
                None),
             (''type'', VStr ''object'')] None
   \<and> convertGeminiParametersToOpenAI exampleNumbers
       (Some [(''properties'',
               JObj [(''maximum'', JObj [(''type'', JArr [JStr ''STRING'', JStr ''null''])])])])
     = VObj [(''properties'',
              VObj [(''maximum'', VObj [(''type'', VArr [VStr ''STRING'', VStr ''null''])] None)]
                None),
             (''type'', VStr ''object'')] None
   \<and> convertGeminiParametersToOpenAI exampleNumbers
       (Some [(''__proto__'', JObj [(''type'', JStr ''object'')]),
              (''properties'', JObj [(''a'', JObj [(''type'', JNull)])])])
     = VObj [(''properties'', VObj [(''a'', VObj [(''type'', VStr ''object'')] None)] None)]
         (Some (VObj [(''type'', VStr ''object'')] None))"
proof -
  have c1: "convertGeminiParametersToOpenAI exampleNumbers
     (Some [(''type'', JStr ''ARRAY''),
            (''properties'', JObj [(''a'', JObj [(''type'', JNull)])])])
   = VObj [(''type'', VStr ''array''),
           (''properties'', VObj [(''a'', VObj [(''type'', VStr ''object'')] None)] None)] None"
    by (simp add: convertGeminiParametersToOpenAI_def convertTypeValue_def lower_examples
          ensureObjectType_def rootSafetyNet_def getProp_def isTruthyValue_def isArrayValue_def
          Let_def)
  have c2: "sanitizeJsonSchema
       [(''type'', JStr ''object''),
        (''properties'',
         JObj [(''a'', JObj [(''type'', JNull)]),
               (''b'', JObj [(''type'', JArr [JStr ''STRING'', JStr ''null''])])])]
     = JObj [(''type'', JStr ''object''),
             (''properties'',
              JObj [(''a'', JObj [(''type'', JNull)]),
                    (''b'', JObj [(''type'', JStr ''STRING'')])])]"
    by (simp add: sanitizeJsonSchema_def getProp_def isTruthy_def orString_def)
  have c3: "convertGeminiParametersToOpenAI exampleNumbers
       (Some [(''properties'',
               JObj [(''type'', JObj [(''type'', JArr [JStr ''string'', JStr ''null''])])])])
     = VObj [(''properties'',
              VObj [(''type'', VObj [(''type'', VArr [VStr ''string'', VStr ''null''])] None)]
                None),
             (''type'', VStr ''object'')] None"
    by (simp add: convertGeminiParametersToOpenAI_def convertTypeValue_def lower_examples
          ensureObjectType_def rootSafetyNet_def getProp_def isTruthyValue_def isArrayValue_def
          Let_def)
  have c4: "convertGeminiParametersToOpenAI exampleNumbers
       (Some [(''properties'',
               JObj [(''maximum'', JObj [(''type'', JArr [JStr ''STRING'', JStr ''null''])])])])
     = VObj [(''properties'',
              VObj [(''maximum'', VObj [(''type'', VArr [VStr ''STRING'', VStr ''null''])] None)]
                None),
             (''type'', VStr ''object'')] None"
    by (simp add: convertGeminiParametersToOpenAI_def convertTypeValue_def lower_examples
          numberConstraint_def ensureObjectType_def rootSafetyNet_def getProp_def
          isTruthyValue_def isArrayValue_def Let_def)
  have c5: "convertGeminiParametersToOpenAI exampleNumbers
       (Some [(''__proto__'', JObj [(''type'', JStr ''object'')]),
              (''properties'', JObj [(''a'', JObj [(''type'', JNull)])])])
     = VObj [(''properties'', VObj [(''a'', VObj [(''type'', VStr ''object'')] None)] None)]
         (Some (VObj [(''type'', VStr ''object'')] None))"
    by (simp add: convertGeminiParametersToOpenAI_def convertTypeValue_def lower_examples
          ensureObjectType_def rootSafetyNet_def getProp_def isTruthyValue_def isArrayValue_def
          Let_def)
  show ?thesis
    by (rule conjI [OF c1 conjI [OF c2 conjI [OF c3 conjI [OF c4 c5]]]])
qed


section \<open>Thought-flagged parts: properties\<close>

text \<open>
  The loops over the parts of a turn in the OpenAI adapter and in the Bedrock adapter with
  \<open>streamingToolCalls\<close> read the flag: the text bucket of a turn is built from the unflagged
  texts only. The branch of both adapters for a \<open>contents\<close> that is a single \<open>Content\<close> joins
  the text of every part.
\<close>

lemma filterReasoningDetailsMarker_empty: "filterReasoningDetailsMarker [] = []"
  by (simp add: filterReasoningDetailsMarker_def REASONING_DETAILS_MARKER_def)

lemma textParts_bucketPart:
  "textParts (bucketPart parse b p)
   = textParts b @ filter (\<lambda>s. s \<noteq> []) (map filterReasoningDetailsMarker (visibleTexts [p]))"
  by (cases p)
     (simp_all add: bucketPart_def visibleTexts_def Let_def filterReasoningDetailsMarker_empty
        split: option.splits)

lemma visibleTexts_Cons: "visibleTexts (p # ps) = visibleTexts [p] @ visibleTexts ps"
  by (simp add: visibleTexts_def)

lemma openai_textParts:
  "textParts (foldl (bucketPart parse) b ps)
   = textParts b @ filter (\<lambda>s. s \<noteq> []) (map filterReasoningDetailsMarker (visibleTexts ps))"
proof (induction ps arbitrary: b)
  case Nil
  show ?case by (simp add: visibleTexts_def)
next
  case (Cons p ps)
  have "textParts (foldl (bucketPart parse) b (p # ps))
        = textParts (bucketPart parse b p)
          @ filter (\<lambda>s. s \<noteq> []) (map filterReasoningDetailsMarker (visibleTexts ps))"
    using Cons.IH [of "bucketPart parse b p"] by simp
  also have "\<dots> = textParts b
        @ filter (\<lambda>s. s \<noteq> []) (map filterReasoningDetailsMarker (visibleTexts (p # ps)))"
    unfolding textParts_bucketPart visibleTexts_Cons [of p ps] by simp
  finally show ?case .
qed

lemma openai_array_drops_thought:
  "textParts (foldl (bucketPart parse) emptyBuckets (ps @ [PartText t True] @ qs))
   = textParts (foldl (bucketPart parse) emptyBuckets (ps @ qs))"
  unfolding openai_textParts by (simp add: visibleTexts_def)

lemma bedrock_array_drops_thought:
  "bedrockContentBlocks (ps @ [PartText t True] @ qs) = bedrockContentBlocks (ps @ qs)"
  by (simp add: bedrockContentBlocks_def)

lemma bedrock_text_blocks:
  "BedrockText t \<in> set (bedrockContentBlocks ps)
   \<Longrightarrow> PartString t \<in> set ps \<or> PartText t False \<in> set ps"
proof -
  assume "BedrockText t \<in> set (bedrockContentBlocks ps)"
  then obtain p where p: "p \<in> set ps"
    and t: "BedrockText t \<in> set (case p of
                         PartString s \<Rightarrow> [BedrockText s]
                       | PartText t thought \<Rightarrow>
                           if t \<noteq> [] \<and> \<not> thought then [BedrockText t] else []
                       | _ \<Rightarrow> [])"
    by (auto simp: bedrockContentBlocks_def)
  show ?thesis
  proof (cases p)
    case (PartString s)
    with t have "s = t" by simp
    with p PartString show ?thesis by simp
  next
    case (PartText u thought)
    with t have "u = t \<and> \<not> thought" by (simp split: if_splits)
    with p PartText show ?thesis by simp
  qed (use t in simp_all)
qed

lemma no_marker_plan: "filterReasoningDetailsMarker ''plan'' = ''plan''"
  by (simp add: filterReasoningDetailsMarker_def REASONING_DETAILS_MARKER_def startsWith_def)

lemma no_marker_ok: "filterReasoningDetailsMarker ''ok'' = ''ok''"
  by (simp add: filterReasoningDetailsMarker_def REASONING_DETAILS_MARKER_def startsWith_def)

lemma hygienePass_text:
  "t \<noteq> [] \<Longrightarrow>
   hygienePass [\<lparr> role = RoleAssistant, content = ContentString t, tool_calls = None,
                  tool_call_id = None, reasoning_details = None, reasoning_content = None \<rparr>]
   = [\<lparr> role = RoleAssistant, content = ContentString t, tool_calls = None,
        tool_call_id = None, reasoning_details = None, reasoning_content = None \<rparr>]"
  by (simp add: hygienePass_def cleanOrphanedToolCalls_def collectToolCallIds_def
        collectToolResponseIds_def finalToolResponseIds_def finalPass_def filterAssistant_def
        mergeConsecutiveAssistantMessages_def hasToolCalls_def callsOf_def isToolResponse_def
        Let_def)

lemma gpt_is_not_deepseek: "\<not> isDeepSeekReasonerModel ''gpt-4o''"
  by (simp add: isDeepSeekReasonerModel_def toLowerCase_def charToLowerCase_def isUpperCase_def
        startsWith_def)

lemma openai_single_content_keeps_thought:
  "convertToOpenAIFormat exampleParse exampleStringify ''gpt-4o'' None
     (ContentSingle (ItemContent \<lparr> contentRole = Some ''model'',
                                    contentParts = Some [PartText ''plan'' True] \<rparr>))
   = [\<lparr> role = RoleAssistant, content = ContentString ''plan'', tool_calls = None,
        tool_call_id = None, reasoning_details = None, reasoning_content = None \<rparr>]"
proof -
  have "rawMessages exampleParse exampleStringify None
          (ContentSingle (ItemContent \<lparr> contentRole = Some ''model'',
                                         contentParts = Some [PartText ''plan'' True] \<rparr>))
        = [\<lparr> role = RoleAssistant, content = ContentString ''plan'', tool_calls = None,
             tool_call_id = None, reasoning_details = None, reasoning_content = None \<rparr>]"
    by (simp add: rawMessages_def convertSingleContents_def joinedPartTexts_def
          partTextOrEmpty_def no_marker_plan)
  then show ?thesis
    by (simp add: convertToOpenAIFormat_def gpt_is_not_deepseek hygienePass_text)
qed

lemma bedrock_single_content_keeps_thought:
  "bedrockConvertContents exampleStringify ''0''
     (ContentSingle (ItemContent \<lparr> contentRole = Some ''model'',
                                    contentParts = Some [PartText ''plan'' True] \<rparr>))
   = [\<lparr> bedrockRole = AnthropicAssistant, bedrockContent = [BedrockText ''plan''] \<rparr>]"
  by (simp add: bedrockConvertContents_def joinedPartTexts_def partTextOrEmpty_def)

lemma openai_array_drops_thought_example:
  "convertToOpenAIFormat exampleParse exampleStringify ''gpt-4o'' None
     (ContentArray
        [ItemContent \<lparr> contentRole = Some ''model'',
                       contentParts = Some [PartText ''plan'' True, PartText ''ok'' False] \<rparr>])
   = [\<lparr> role = RoleAssistant, content = ContentString ''ok'', tool_calls = None,
        tool_call_id = None, reasoning_details = None, reasoning_content = None \<rparr>]"
proof -
  have "rawMessages exampleParse exampleStringify None
          (ContentArray
             [ItemContent \<lparr> contentRole = Some ''model'',
                            contentParts = Some [PartText ''plan'' True, PartText ''ok'' False] \<rparr>])
        = [\<lparr> role = RoleAssistant, content = ContentString ''ok'', tool_calls = None,
             tool_call_id = None, reasoning_details = None, reasoning_content = None \<rparr>]"
    by (simp add: rawMessages_def convertTurn_def partsOf_def bucketPart_def emptyBuckets_def
          REASONING_DETAILS_MARKER_def startsWith_def no_marker_ok isTruthy_def Let_def)
  then show ?thesis
    by (simp add: convertToOpenAIFormat_def gpt_is_not_deepseek hygienePass_text)
qed

text \<open>
  Claim C9. Text parts flagged as internal reasoning never reach the ordinary text of
  the provider message, in every adapter. The Anthropic adapter's
  \<open>processContentParts\<close> does not read the flag: a model turn whose only part is the
  thought-flagged text \<open>plan\<close> becomes an assistant message with the text block \<open>plan\<close>.
\<close>

theorem anthropic_thought_emitted:
  "convertToAnthropicFormat exampleStringify ''0''
     \<lparr> requestContents =
         ContentArray
           [ItemString ''hi'',
            ItemContent \<lparr> contentRole = Some ''model'',
                          contentParts = Some [PartText ''plan'' True] \<rparr>],
       requestSystemInstruction = None, requestTools = None, requestTemperature = None,
       requestMaxOutputTokens = None, requestTopP = None \<rparr>
   = Inr (None,
          [\<lparr> paramRole = AnthropicUser, paramContent = PlainContent ''hi'' \<rparr>,
           \<lparr> paramRole = AnthropicAssistant, paramContent = BlockContent [TextBlock ''plan''] \<rparr>])"
  by (simp add: convertToAnthropicFormat_def systemInstructionTruthy_def convertItem_def
        processContentParts_def processPart_def partsOf_def functionResponsesOf_def
        ensureAlternatingMessages_def Let_def)

end
